(* ===== verification/Prelude.thy ===== *)
theory Prelude
  imports Main "HOL-Library.Word" "HOL-Library.AList" "HOL-Library.List_Lexorder" "HOL-Library.Char_ord"
    "HOL-Library.Multiset"
begin

text \<open>
  The shared layer of the OpenELB development: what the components use of Go itself.

  \<^item> \<open>res\<close> is the outcome of a Go call: a value, a non-nil \<open>error\<close>, or a run-time panic.
  \<^item> \<open>gomap\<close> is a Go map as the list of its entries, in the order in which a \<open>range\<close> loop
    visits them. Go leaves that order open, and every lemma here and in the components is about
    an arbitrary list of entries with distinct keys, so it holds for every iteration order.
    A map that may be nil is a \<open>gomap option\<close>: \<open>None\<close> is the nil map.
  \<^item> \<open>Split\<close>, \<open>SplitN2\<close>, \<open>Join\<close>, \<open>ToLower\<close>, \<open>Itoa\<close> are the functions of \<open>strings\<close> and
    \<open>strconv\<close> that the sources call, on strings as lists of bytes.
  \<^item> \<open>to_int64\<close> is the conversion of an unbounded integer to a signed 64-bit one, with its
    wrap-around.
  \<^item> \<open>slice_sorter\<close> is the contract of \<open>sort.Slice\<close>, which does not promise stability.
\<close>

named_theorems gomap_simps "rewrite rules for Go maps"
named_theorems res_simps "rewrite rules for outcomes of Go calls"

section \<open>Outcomes of Go calls\<close>

datatype error =
    NotFound string    \<comment> \<open>an API error for which \<open>errors.IsNotFound\<close> holds\<close>
  | ApiError string    \<comment> \<open>any other error of a library or of the API server\<close>
  | Errorf string      \<comment> \<open>\<open>fmt.Errorf\<close>, with the message\<close>

datatype 'a res = Ok 'a | Err error | Panic string

fun error_text :: "error \<Rightarrow> string" where
  "error_text (NotFound s) = s"
| "error_text (ApiError s) = s"
| "error_text (Errorf s) = s"

fun IsNotFound :: "error \<Rightarrow> bool" where
  "IsNotFound (NotFound _) = True"
| "IsNotFound _ = False"

fun bind_res :: "'a res \<Rightarrow> ('a \<Rightarrow> 'b res) \<Rightarrow> 'b res" where
  "bind_res (Ok a) f = f a"
| "bind_res (Err e) f = Err e"
| "bind_res (Panic s) f = Panic s"

fun is_Ok :: "'a res \<Rightarrow> bool" where
  "is_Ok (Ok _) = True"
| "is_Ok _ = False"

lemma bind_res_Ok_iff [res_simps]:
  "bind_res r f = Ok b \<longleftrightarrow> (\<exists>a. r = Ok a \<and> f a = Ok b)"
  by (cases r) auto

section \<open>Go maps\<close>

type_synonym ('k, 'v) gomap = "('k \<times> 'v) list"

abbreviation gomap_wf :: "('k, 'v) gomap \<Rightarrow> bool" where
  "gomap_wf m \<equiv> distinct (map fst m)"

abbreviation mget :: "('k, 'v) gomap \<Rightarrow> 'k \<Rightarrow> 'v option" where
  "mget \<equiv> map_of"

abbreviation mset_at :: "'k \<Rightarrow> 'v \<Rightarrow> ('k, 'v) gomap \<Rightarrow> ('k, 'v) gomap" where
  "mset_at \<equiv> AList.update"

abbreviation mdel :: "'k \<Rightarrow> ('k, 'v) gomap \<Rightarrow> ('k, 'v) gomap" where
  "mdel \<equiv> AList.delete"

abbreviation mkeys :: "('k, 'v) gomap \<Rightarrow> 'k set" where
  "mkeys m \<equiv> fst ` set m"

text \<open>A read of a map that may be nil finds nothing in the nil map.\<close>

definition nmap :: "('k, 'v) gomap option \<Rightarrow> ('k, 'v) gomap" where
  "nmap m = (case m of None \<Rightarrow> [] | Some l \<Rightarrow> l)"

text \<open>The value read from a \<open>map[string]string\<close> is the empty string for a missing key.\<close>

definition mget_str :: "('k, string) gomap option \<Rightarrow> 'k \<Rightarrow> string" where
  "mget_str m k = (case mget (nmap m) k of None \<Rightarrow> [] | Some v \<Rightarrow> v)"

text \<open>\<open>delete\<close> on a nil map is a no-op that leaves it nil.\<close>

definition mdel_opt :: "'k \<Rightarrow> ('k, 'v) gomap option \<Rightarrow> ('k, 'v) gomap option" where
  "mdel_opt k m = map_option (mdel k) m"

text \<open>\<open>reflect.DeepEqual\<close> on maps: both nil or both non-nil with the same entries.\<close>

definition same_entries :: "('k, 'v) gomap \<Rightarrow> ('k, 'v) gomap \<Rightarrow> bool" where
  "same_entries m1 m2 \<longleftrightarrow>
     list_all (\<lambda>(k, _). mget m1 k = mget m2 k) m1 \<and> list_all (\<lambda>(k, _). mget m1 k = mget m2 k) m2"

fun DeepEqualMap :: "('k, 'v) gomap option \<Rightarrow> ('k, 'v) gomap option \<Rightarrow> bool" where
  "DeepEqualMap None None = True"
| "DeepEqualMap (Some a) (Some b) = same_entries a b"
| "DeepEqualMap _ _ = False"

lemma nmap_simps [simp]: "nmap None = []" "nmap (Some l) = l"
  by (simp_all add: nmap_def)

lemma same_entries_iff: "same_entries m1 m2 \<longleftrightarrow> mget m1 = mget m2"
proof
  assume eq: "same_entries m1 m2"
  show "mget m1 = mget m2"
  proof
    fix k
    show "mget m1 k = mget m2 k"
    proof (cases "k \<in> mkeys m1 \<or> k \<in> mkeys m2")
      case True
      with eq show ?thesis
        by (fastforce simp: same_entries_def list_all_iff)
    next
      case False
      then have "mget m1 k = None" "mget m2 k = None"
        by (simp_all add: map_of_eq_None_iff)
      then show ?thesis by simp
    qed
  qed
qed (simp add: same_entries_def list_all_iff)

lemma same_entries_refl [simp]: "same_entries m m"
  by (simp add: same_entries_iff)

lemma DeepEqualMap_refl [simp]: "DeepEqualMap m m"
  by (cases m) auto

lemma DeepEqualMap_nmap: "DeepEqualMap a b \<Longrightarrow> mget (nmap a) = mget (nmap b)"
  by (cases a; cases b) (auto simp: same_entries_iff)

lemma mget_mset_at [gomap_simps]: "mget (mset_at k v m) = (mget m)(k \<mapsto> v)"
  by (rule update_conv')

lemma mget_mdel [gomap_simps]: "mget (mdel k m) = (mget m)(k := None)"
  by (rule delete_conv')

lemma gomap_wf_mset_at [simp]: "gomap_wf m \<Longrightarrow> gomap_wf (mset_at k v m)"
  by (rule distinct_update)

lemma gomap_wf_mdel [simp]: "gomap_wf m \<Longrightarrow> gomap_wf (mdel k m)"
  by (rule distinct_delete)

lemma mkeys_mset_at [gomap_simps]: "mkeys (mset_at k v m) = insert k (mkeys m)"
  using dom_update [of k v m] by simp

lemma mkeys_mdel [gomap_simps]: "mkeys (mdel k m) = mkeys m - {k}"
  by (auto simp: AList.delete_eq)

lemma length_mset_at_new: "k \<notin> mkeys m \<Longrightarrow> length (mset_at k v m) = Suc (length m)"
  by (induction m) auto

lemma length_mset_at_old: "k \<in> mkeys m \<Longrightarrow> length (mset_at k v m) = length m"
  by (induction m) auto

lemma mget_None_iff: "mget m k = None \<longleftrightarrow> k \<notin> mkeys m"
  by (rule map_of_eq_None_iff)

lemma mget_Some_key: "mget m k = Some v \<Longrightarrow> k \<in> mkeys m"
  by (force dest: map_of_SomeD)

lemma mget_entry: "gomap_wf m \<Longrightarrow> (k, v) \<in> set m \<longleftrightarrow> mget m k = Some v"
  by (simp add: map_of_eq_Some_iff)

lemma length_eq_card_mkeys: "gomap_wf m \<Longrightarrow> length m = card (mkeys m)"
  using distinct_card [of "map fst m"] by simp

text \<open>
  The contract the components have with a Go map, whatever order its entries are visited in:
  what a read returns after a write or a deletion, and that keys stay distinct.
\<close>

locale go_map =
  fixes get :: "'m \<Rightarrow> 'k \<Rightarrow> 'v option"
    and put :: "'k \<Rightarrow> 'v \<Rightarrow> 'm \<Rightarrow> 'm"
    and del :: "'k \<Rightarrow> 'm \<Rightarrow> 'm"
    and len :: "'m \<Rightarrow> nat"
    and wf :: "'m \<Rightarrow> bool"
  assumes get_put: "wf m \<Longrightarrow> get (put k v m) = (get m)(k \<mapsto> v)"
    and get_del: "wf m \<Longrightarrow> get (del k m) = (get m)(k := None)"
    and wf_put: "wf m \<Longrightarrow> wf (put k v m)"
    and wf_del: "wf m \<Longrightarrow> wf (del k m)"
    and len_card: "wf m \<Longrightarrow> finite (dom (get m)) \<and> len m = card (dom (get m))"
begin

lemma del_put_new:
  assumes "wf m" and "get m k = None"
  shows "get (del k (put k v m)) = get m"
proof -
  have "get (del k (put k v m)) = (get m)(k := None)"
    using assms(1) by (simp add: get_del get_put wf_put)
  then show ?thesis using assms(2) by (simp add: fun_upd_idem)
qed

lemma len_put_new:
  assumes "wf m" and "get m k = None"
  shows "len (put k v m) = Suc (len m)"
proof -
  have "dom (get (put k v m)) = insert k (dom (get m))"
    using assms(1) by (simp add: get_put)
  then show ?thesis
    using assms len_card [of m] len_card [of "put k v m"] by (simp add: wf_put domIff)
qed

lemma len_del:
  assumes "wf m" and "get m k \<noteq> None"
  shows "Suc (len (del k m)) = len m"
proof -
  have dom: "dom (get (del k m)) = dom (get m) - {k}"
    using assms(1) by (auto simp: get_del)
  have "k \<in> dom (get m)" and "finite (dom (get m))"
    using assms len_card [of m] by (auto simp: domIff)
  then have "Suc (card (dom (get m) - {k})) = card (dom (get m))"
    by (rule card.remove [symmetric, rotated])
  then show ?thesis
    using assms(1) dom len_card [of m] len_card [of "del k m"] by (simp add: wf_del)
qed

end

interpretation gm: go_map map_of AList.update AList.delete length "\<lambda>m. distinct (map fst m)"
proof
  fix m :: "('k \<times> 'v) list" and k :: 'k and v :: 'v
  assume wf: "distinct (map fst m)"
  show "map_of (AList.update k v m) = (map_of m)(k \<mapsto> v)" by (rule update_conv')
  show "map_of (AList.delete k m) = (map_of m)(k := None)" by (rule delete_conv')
  show "distinct (map fst (AList.update k v m))" using wf by (rule distinct_update)
  show "distinct (map fst (AList.delete k m))" using wf by (rule distinct_delete)
  show "finite (dom (map_of m)) \<and> length m = card (dom (map_of m))"
    using wf by (simp add: finite_dom_map_of dom_map_of_conv_image_fst length_eq_card_mkeys)
qed

section \<open>Strings\<close>

text \<open>\<open>strings.Split(s, sep)\<close> for a separator of one byte.\<close>

fun Split :: "string \<Rightarrow> char \<Rightarrow> string list" where
  "Split [] c = [[]]"
| "Split (x # xs) c =
     (if x = c then [] # Split xs c
      else (case Split xs c of [] \<Rightarrow> [[x]] | y # ys \<Rightarrow> (x # y) # ys))"

text \<open>\<open>strings.SplitN(s, sep, 2)\<close>: cut at the first separator only.\<close>

fun SplitN2 :: "string \<Rightarrow> char \<Rightarrow> string list" where
  "SplitN2 [] c = [[]]"
| "SplitN2 (x # xs) c =
     (if x = c then [[], xs]
      else (case SplitN2 xs c of [] \<Rightarrow> [[x]] | y # ys \<Rightarrow> (x # y) # ys))"

text \<open>\<open>strings.Join(elems, sep)\<close>.\<close>

fun Join :: "string list \<Rightarrow> string \<Rightarrow> string" where
  "Join [] sep = []"
| "Join [x] sep = x"
| "Join (x # y # xs) sep = x @ sep @ Join (y # xs) sep"

definition lower_char :: "char \<Rightarrow> char" where
  "lower_char c =
     (let n = of_char c :: nat in if 65 \<le> n \<and> n \<le> 90 then char_of (n + 32) else c)"

text \<open>
  \<open>strings.ToLower\<close> on ASCII. The sources compare its result with ASCII words and character
  classes that no letter outside ASCII is lowered into.
\<close>

definition ToLower :: "string \<Rightarrow> string" where
  "ToLower s = map lower_char s"

definition digit_char :: "nat \<Rightarrow> char" where
  "digit_char n = char_of (48 + n)"

fun nat_dec :: "nat \<Rightarrow> string" where
  "nat_dec n = (if n < 10 then [digit_char n] else nat_dec (n div 10) @ [digit_char (n mod 10)])"

declare nat_dec.simps [simp del]

text \<open>\<open>strconv.Itoa\<close>, and the verb \<open>%d\<close>.\<close>

definition Itoa :: "int \<Rightarrow> string" where
  "Itoa i = (if i < 0 then CHR ''-'' # nat_dec (nat (- i)) else nat_dec (nat i))"

lemma Split_not_Nil [simp]: "Split s c \<noteq> []"
  by (cases s) (auto split: list.splits)

lemma Split_no_sep: "c \<notin> set s \<Longrightarrow> Split s c = [s]"
  by (induction s) auto

lemma Split_append_sep:
  "c \<notin> set x \<Longrightarrow> Split (x @ c # s) c = x # Split s c"
  by (induction x) (auto split: list.splits)

lemma Split_snoc_sep:
  "Split (s @ c # t) c = Split s c @ Split t c"
proof (induction s)
  case Nil
  show ?case by simp
next
  case (Cons x s)
  then show ?case by (cases "Split s c") auto
qed

lemma Split_parts_no_sep: "x \<in> set (Split s c) \<Longrightarrow> c \<notin> set x"
proof (induction s arbitrary: x)
  case Nil
  then show ?case by simp
next
  case (Cons a s)
  show ?case
  proof (cases "a = c")
    case True
    with Cons show ?thesis by auto
  next
    case False
    obtain y ys where ys: "Split s c = y # ys"
      by (cases "Split s c") auto
    with Cons False show ?thesis by auto
  qed
qed

lemma Split_Join:
  assumes "xs \<noteq> []" and "\<And>x. x \<in> set xs \<Longrightarrow> c \<notin> set x"
  shows "Split (Join xs [c]) c = xs"
  using assms
proof (induction xs "[c]" rule: Join.induct)
  case (2 x)
  then show ?case by (simp add: Split_no_sep)
next
  case (3 x y xs)
  then show ?case by (simp add: Split_append_sep)
qed simp

lemma Join_Cons: "xs \<noteq> [] \<Longrightarrow> Join (x # xs) sep = x @ sep @ Join xs sep"
  by (cases xs) auto

lemma Join_Split: "Join (Split s c) [c] = s"
proof (induction s)
  case Nil
  show ?case by simp
next
  case (Cons x s)
  obtain y ys where ys: "Split s c = y # ys"
    by (cases "Split s c") auto
  with Cons show ?case by (cases ys) (auto simp: Join_Cons)
qed

lemma Split_inject: "Split s c = Split t c \<longleftrightarrow> s = t"
  using Join_Split by metis

lemma Join_append:
  "xs \<noteq> [] \<Longrightarrow> ys \<noteq> [] \<Longrightarrow> Join (xs @ ys) sep = Join xs sep @ sep @ Join ys sep"
proof (induction xs)
  case (Cons x xs)
  then show ?case by (cases xs) (auto simp: Join_Cons)
qed simp

section \<open>Signed 64-bit integers\<close>

text \<open>
  Go's \<open>int\<close> and \<open>int64\<close> on the supported platforms, as the integer they stand for; an
  operation that can leave the range is followed by \<open>to_int64\<close>. This is also what
  \<open>big.Int.Int64\<close> computes from the low 64 bits.
\<close>

definition to_int64 :: "int \<Rightarrow> int" where
  "to_int64 x = (x + 2 ^ 63) mod 2 ^ 64 - 2 ^ 63"

lemma to_int64_id: "- (2 ^ 63) \<le> x \<Longrightarrow> x < 2 ^ 63 \<Longrightarrow> to_int64 x = x"
  by (simp add: to_int64_def)

lemma to_int64_range: "- (2 ^ 63) \<le> to_int64 x" "to_int64 x < 2 ^ 63"
  by (simp_all add: to_int64_def)

lemma to_int64_add_multiple: "to_int64 (x + 2 ^ 64 * k) = to_int64 x"
proof -
  have "x + 2 ^ 64 * k + 2 ^ 63 = x + 2 ^ 63 + k * 2 ^ 64"
    by simp
  then show ?thesis
    unfolding to_int64_def by (simp only: mod_mult_self1)
qed

text \<open>Go's \<open>1 << n\<close> on a 64-bit signed integer.\<close>

lemma to_int64_shift: "64 \<le> n \<Longrightarrow> to_int64 (2 ^ n) = 0"
proof -
  assume "64 \<le> n"
  then have "(2::int) ^ n = 0 + 2 ^ 64 * 2 ^ (n - 64)"
    by (simp only: add_0_left power_add [symmetric]) simp
  then show ?thesis
    using to_int64_add_multiple [of 0 "2 ^ (n - 64)"] by (simp add: to_int64_def)
qed

section \<open>Sorting\<close>

text \<open>
  A comparison that \<open>sort.Slice\<close> accepts is a strict weak order. The result is a permutation
  of the slice in which no element is less than one before it.
\<close>

definition strict_weak :: "('a \<Rightarrow> 'a \<Rightarrow> bool) \<Rightarrow> bool" where
  "strict_weak lt \<longleftrightarrow>
     (\<forall>x. \<not> lt x x) \<and> (\<forall>x y z. lt x y \<longrightarrow> lt y z \<longrightarrow> lt x z) \<and>
     (\<forall>x y z. lt x z \<longrightarrow> lt x y \<or> lt y z)"

definition sorts_slices :: "(('a \<Rightarrow> 'a \<Rightarrow> bool) \<Rightarrow> 'a list \<Rightarrow> 'a list) \<Rightarrow> bool" where
  "sorts_slices srt \<longleftrightarrow>
     (\<forall>lt xs. strict_weak lt \<longrightarrow>
        mset (srt lt xs) = mset xs \<and> sorted_wrt (\<lambda>x y. \<not> lt y x) (srt lt xs))"

text \<open>Insertion sort, the algorithm of \<open>sort.Slice\<close> on slices of at most twelve elements.\<close>

fun insert_slice :: "('a \<Rightarrow> 'a \<Rightarrow> bool) \<Rightarrow> 'a \<Rightarrow> 'a list \<Rightarrow> 'a list" where
  "insert_slice lt x [] = [x]"
| "insert_slice lt x (y # ys) =
     (if lt y x then y # insert_slice lt x ys else x # y # ys)"

definition insertion_sort :: "('a \<Rightarrow> 'a \<Rightarrow> bool) \<Rightarrow> 'a list \<Rightarrow> 'a list" where
  "insertion_sort lt xs = foldr (insert_slice lt) xs []"

lemma mset_insert_slice: "mset (insert_slice lt x ys) = add_mset x (mset ys)"
  by (induction ys) auto

lemma set_insert_slice: "set (insert_slice lt x ys) = insert x (set ys)"
  by (induction ys) auto

lemma sorted_insert_slice:
  assumes "strict_weak lt" and "sorted_wrt (\<lambda>x y. \<not> lt y x) ys"
  shows "sorted_wrt (\<lambda>x y. \<not> lt y x) (insert_slice lt x ys)"
  using assms(2)
proof (induction ys)
  case (Cons y ys)
  have trans: "\<not> lt z x" if "\<not> lt y x" and "\<not> lt z y" for z
    using assms(1) that unfolding strict_weak_def by blast
  have asym: "\<not> lt x y" if "lt y x"
    using assms(1) that unfolding strict_weak_def by blast
  show ?case
    using Cons trans asym by (auto simp: set_insert_slice)
qed simp

lemma insertion_sort_sorts: "sorts_slices insertion_sort"
proof -
  have "mset (foldr (insert_slice lt) xs []) = mset xs" for lt :: "'a \<Rightarrow> 'a \<Rightarrow> bool" and xs
    by (induction xs) (auto simp: mset_insert_slice)
  moreover have "sorted_wrt (\<lambda>x y. \<not> lt y x) (foldr (insert_slice lt) xs [])"
    if "strict_weak lt" for lt :: "'a \<Rightarrow> 'a \<Rightarrow> bool" and xs
    using that by (induction xs) (auto simp: sorted_insert_slice)
  ultimately show ?thesis
    by (simp add: sorts_slices_def insertion_sort_def)
qed

text \<open>What a caller of \<open>sort.Slice\<close> may rely on.\<close>

locale slice_sorter =
  fixes srt :: "('a \<Rightarrow> 'a \<Rightarrow> bool) \<Rightarrow> 'a list \<Rightarrow> 'a list"
  assumes sorts: "sorts_slices srt"
begin

lemma set_srt: "strict_weak lt \<Longrightarrow> set (srt lt xs) = set xs"
  using sorts unfolding sorts_slices_def by (metis set_mset_mset)

lemma srt_eq_Nil: "strict_weak lt \<Longrightarrow> srt lt xs = [] \<longleftrightarrow> xs = []"
  using set_srt [of lt xs] by (metis set_empty)

lemma hd_srt_in: "strict_weak lt \<Longrightarrow> xs \<noteq> [] \<Longrightarrow> hd (srt lt xs) \<in> set xs"
  using set_srt srt_eq_Nil by (metis list.set_sel(1))

lemma hd_srt_least:
  assumes "strict_weak lt" and "y \<in> set xs"
  shows "\<not> lt y (hd (srt lt xs))"
proof -
  have y: "y \<in> set (srt lt xs)"
    using assms set_srt by blast
  then obtain h t where ht: "srt lt xs = h # t"
    by (cases "srt lt xs") auto
  have "sorted_wrt (\<lambda>x y. \<not> lt y x) (h # t)"
    using sorts assms(1) ht unfolding sorts_slices_def by metis
  moreover have "\<not> lt h h"
    using assms(1) by (simp add: strict_weak_def)
  ultimately show ?thesis
    using y ht by auto
qed

end

interpretation isort: slice_sorter insertion_sort
  by unfold_locales (rule insertion_sort_sorts)

end
