(* ===== verification/GoNet.thy ===== *)
theory GoNet
  imports Prelude
begin

text \<open>
  IP addresses: what the sources use of Go's package \<open>net\<close> (Go 1.21). The repository's own
  wrapper \<open>pkg/util/net\<close> is in \<open>CNet\<close>.

  A \<open>net.IP\<close> is its byte slice; the nil IP is the empty list. Addresses are compared and counted
  as unbounded integers (\<open>big.Int\<close>), so the model has no word size here except where the source
  converts back with \<open>Int64\<close>.

  \<^item> \<open>net_ParseIP\<close>, \<open>IP_String\<close>, \<open>To4\<close>, \<open>To16\<close>, \<open>net_ParseCIDR\<close>, \<open>IPNet_Contains\<close> follow
    the standard library; \<open>net_ParseIP_String\<close> shows that printing and parsing are inverse.
  \<^item> \<open>SetBytes\<close> reads an address as a number; \<open>SetBytes_masked\<close> shows what a network mask
    does to that number.
\<close>

unbundle bit_operations_syntax

section \<open>Addresses as bytes\<close>

type_synonym IP = "8 word list"

definition v4InV6Prefix :: "8 word list" where
  "v4InV6Prefix = [0, 0, 0, 0, 0, 0, 0, 0, 0, 0, 255, 255]"

definition To4 :: "IP \<Rightarrow> IP" where
  "To4 ip =
     (if length ip = 4 then ip
      else if length ip = 16 \<and> take 12 ip = v4InV6Prefix then drop 12 ip
      else [])"

definition To16 :: "IP \<Rightarrow> IP" where
  "To16 ip =
     (if length ip = 4 then v4InV6Prefix @ ip else if length ip = 16 then ip else [])"

text \<open>\<open>big.Int.SetBytes\<close>: the bytes as a big-endian number.\<close>

definition SetBytes :: "8 word list \<Rightarrow> int" where
  "SetBytes bs = foldl (\<lambda>a b. a * 256 + uint b) 0 bs"

fun int_bytes :: "nat \<Rightarrow> int \<Rightarrow> 8 word list" where
  "int_bytes 0 x = []"
| "int_bytes (Suc n) x = int_bytes n (x div 256) @ [word_of_int x]"

text \<open>
  \<open>big.Int.FillBytes\<close> writes the absolute value and panics when it does not fit the buffer.
\<close>

definition FillBytes :: "nat \<Rightarrow> int \<Rightarrow> (8 word list) res" where
  "FillBytes n x =
     (if \<bar>x\<bar> < 256 ^ n then Ok (int_bytes n \<bar>x\<bar>)
      else Panic ''math/big: buffer too small to fit value'')"

section \<open>Printing\<close>

definition hex_char :: "nat \<Rightarrow> char" where
  "hex_char n = (if n < 10 then char_of (48 + n) else char_of (87 + n))"

definition append_hex :: "nat \<Rightarrow> string" where
  "append_hex x =
     (if 4096 \<le> x then [hex_char (x div 4096)] else []) @
     (if 256 \<le> x then [hex_char (x div 256 mod 16)] else []) @
     (if 16 \<le> x then [hex_char (x div 16 mod 16)] else []) @
     [hex_char (x mod 16)]"

fun v6_groups :: "8 word list \<Rightarrow> nat list" where
  "v6_groups (a # b # bs) = (256 * unat a + unat b) # v6_groups bs"
| "v6_groups _ = []"

definition zero_run :: "nat list \<Rightarrow> nat" where
  "zero_run gs = length (takeWhile (\<lambda>g. g = 0) gs)"

text \<open>The first longest run of at least two zero groups, as the half-open interval of its indices.\<close>

fun best_run :: "nat \<Rightarrow> nat list \<Rightarrow> nat \<times> nat \<Rightarrow> nat \<times> nat" where
  "best_run i [] z = z"
| "best_run i (g # gs) z =
     best_run (Suc i) gs
       (let l = zero_run (g # gs) in if 2 \<le> l \<and> snd z - fst z < l then (i, i + l) else z)"

definition v6_string :: "nat list \<Rightarrow> string" where
  "v6_string gs =
     (let z = best_run 0 gs (255, 255) in
      if fst z = 255 then Join (map append_hex gs) '':''
      else Join (map append_hex (take (fst z) gs)) '':'' @ ''::'' @
           Join (map append_hex (drop (snd z) gs)) '':'')"

definition v4_string :: "8 word list \<Rightarrow> string" where
  "v4_string bs = Join (map (\<lambda>b. nat_dec (unat b)) bs) ''.''"

definition hexString :: "8 word list \<Rightarrow> string" where
  "hexString bs = concat (map (\<lambda>b. [hex_char (unat b div 16), hex_char (unat b mod 16)]) bs)"

definition IP_String :: "IP \<Rightarrow> string" where
  "IP_String ip =
     (if ip = [] then ''<nil>''
      else if length ip \<noteq> 4 \<and> length ip \<noteq> 16 then CHR ''?'' # hexString ip
      else if To4 ip \<noteq> [] then v4_string (To4 ip)
      else v6_string (v6_groups ip))"

section \<open>Parsing\<close>

definition is_digit :: "char \<Rightarrow> bool" where
  "is_digit c \<longleftrightarrow> 48 \<le> (of_char c :: nat) \<and> (of_char c :: nat) \<le> 57"

definition digit_val :: "char \<Rightarrow> nat" where
  "digit_val c = of_char c - 48"

text \<open>
  The loop of \<open>netip.parseIPv4Fields\<close>: the current value, the number of digits of the current
  field and the fields read so far. A field without digits is one that begins the string or
  follows a dot.
\<close>

fun parseIPv4Fields :: "string \<Rightarrow> nat \<Rightarrow> nat \<Rightarrow> 8 word list \<Rightarrow> 8 word list option" where
  "parseIPv4Fields [] v digLen fields =
     (if length fields < 3 then None else Some (fields @ [of_nat v]))"
| "parseIPv4Fields (c # s) v digLen fields =
     (if is_digit c then
        (if digLen = 1 \<and> v = 0 then None
         else if v * 10 + digit_val c > 255 then None
         else parseIPv4Fields s (v * 10 + digit_val c) (Suc digLen) fields)
      else if c = CHR ''.'' then
        (if digLen = 0 \<or> s = [] then None
         else if length fields = 3 then None
         else parseIPv4Fields s 0 0 (fields @ [of_nat v]))
      else None)"

definition hex_val :: "char \<Rightarrow> nat option" where
  "hex_val c =
     (let n = of_char c :: nat in
      if 48 \<le> n \<and> n \<le> 57 then Some (n - 48)
      else if 97 \<le> n \<and> n \<le> 102 then Some (n - 87)
      else if 65 \<le> n \<and> n \<le> 70 then Some (n - 55)
      else None)"

definition is_hex :: "char \<Rightarrow> bool" where
  "is_hex c \<longleftrightarrow> hex_val c \<noteq> None"

definition hex_number :: "string \<Rightarrow> nat" where
  "hex_number s = foldl (\<lambda>a c. a * 16 + the (hex_val c)) 0 s"

text \<open>The end of \<open>netip.parseIPv6\<close>: expand the ellipsis, if any, to sixteen bytes.\<close>

definition v6_finish :: "8 word list \<Rightarrow> nat option \<Rightarrow> 8 word list option" where
  "v6_finish ip ellipsis =
     (case ellipsis of
        None \<Rightarrow> (if length ip < 16 then None else Some ip)
      | Some e \<Rightarrow>
          (if length ip < 16 then Some (take e ip @ replicate (16 - length ip) 0 @ drop e ip)
           else None))"

definition group_bytes :: "nat \<Rightarrow> 8 word list" where
  "group_bytes g = [of_nat (g div 256), of_nat g]"

lemma dropWhile_Cons_shorter: "c # r = dropWhile P s \<Longrightarrow> length r < length s"
  using length_dropWhile_le [of P s] by (metis Suc_le_eq length_Cons)

text \<open>The loop of \<open>netip.parseIPv6\<close>, one hexadecimal group of at most four digits per round.\<close>

function (sequential) parseIPv6_loop ::
    "string \<Rightarrow> 8 word list \<Rightarrow> nat option \<Rightarrow> 8 word list option" where
  "parseIPv6_loop s ip ellipsis =
     (let ds = takeWhile is_hex s; rest = dropWhile is_hex s;
          ip' = ip @ group_bytes (hex_number ds) in
      if 16 \<le> length ip then None
      else if ds = [] \<or> 4 < length ds then None
      else case rest of
        [] \<Rightarrow> v6_finish ip' ellipsis
      | c # r \<Rightarrow>
          if c = CHR ''.'' then
            (if ellipsis = None \<and> length ip \<noteq> 12 then None
             else if 16 < length ip + 4 then None
             else (case parseIPv4Fields s 0 0 [] of
                     None \<Rightarrow> None
                   | Some f \<Rightarrow> v6_finish (ip @ f) ellipsis))
          else if c \<noteq> CHR '':'' then None
          else (case r of
                  [] \<Rightarrow> None
                | c' # r' \<Rightarrow>
                    if c' = CHR '':'' then
                      (if ellipsis \<noteq> None then None
                       else if r' = [] then v6_finish ip' (Some (length ip'))
                       else parseIPv6_loop r' ip' (Some (length ip')))
                    else parseIPv6_loop r ip' ellipsis))"
  by pat_completeness auto
termination
  by (relation "measure (\<lambda>(s, _, _). length s)")
    (auto dest: dropWhile_Cons_shorter)

declare parseIPv6_loop.simps [simp del]

definition parseIPv6 :: "string \<Rightarrow> 8 word list option" where
  "parseIPv6 s =
     (if take 2 s = ''::'' then
        (if drop 2 s = [] then Some (replicate 16 0)
         else parseIPv6_loop (drop 2 s) [] (Some 0))
      else parseIPv6_loop s [] None)"

text \<open>
  \<open>netip.ParseAddr\<close> restricted to addresses without a zone, the only ones the callers accept:
  the bytes (four or sixteen) of the address.
\<close>

definition ParseAddr :: "string \<Rightarrow> 8 word list option" where
  "ParseAddr s =
     (case find (\<lambda>c. c = CHR ''.'' \<or> c = CHR '':'' \<or> c = CHR ''%'') s of
        None \<Rightarrow> None
      | Some c \<Rightarrow>
          if c = CHR ''.'' then parseIPv4Fields s 0 0 []
          else if c = CHR '':'' then (if CHR ''%'' \<in> set s then None else parseIPv6 s)
          else None)"

definition net_ParseIP :: "string \<Rightarrow> IP" where
  "net_ParseIP s = (case ParseAddr s of None \<Rightarrow> [] | Some b \<Rightarrow> To16 b)"

section \<open>Networks\<close>

record IPNet =
  net_IP :: IP
  net_Mask :: "8 word list"

text \<open>\<open>net.CIDRMask\<close>: the bytes of a mask with the given number of leading ones.\<close>

fun CIDRMask_bytes :: "nat \<Rightarrow> nat \<Rightarrow> 8 word list" where
  "CIDRMask_bytes ones 0 = []"
| "CIDRMask_bytes ones (Suc l) =
     (if 8 \<le> ones then 255 # CIDRMask_bytes (ones - 8) l
      else NOT (drop_bit ones 255) # CIDRMask_bytes 0 l)"

definition CIDRMask :: "nat \<Rightarrow> nat \<Rightarrow> 8 word list" where
  "CIDRMask ones bits = CIDRMask_bytes ones (bits div 8)"

text \<open>\<open>net.simpleMaskLength\<close>: the number of leading ones of a canonical mask.\<close>

definition byte_ones :: "8 word \<Rightarrow> nat option" where
  "byte_ones v = find (\<lambda>n. v = NOT (drop_bit n 255)) [0..<8]"

fun simpleMaskLength :: "8 word list \<Rightarrow> nat option" where
  "simpleMaskLength [] = Some 0"
| "simpleMaskLength (v # vs) =
     (if v = 255 then map_option ((+) 8) (simpleMaskLength vs)
      else (case byte_ones v of
              None \<Rightarrow> None
            | Some n \<Rightarrow> if list_all (\<lambda>x. x = 0) vs then Some n else None))"

definition Mask_Size :: "8 word list \<Rightarrow> nat \<times> nat" where
  "Mask_Size m =
     (case simpleMaskLength m of None \<Rightarrow> (0, 0) | Some n \<Rightarrow> (n, 8 * length m))"

definition IP_Mask :: "IP \<Rightarrow> 8 word list \<Rightarrow> IP" where
  "IP_Mask ip msk =
     (let msk' = (if length msk = 16 \<and> length ip = 4 \<and> list_all (\<lambda>x. x = 255) (take 12 msk)
                   then drop 12 msk else msk);
          ip' = (if length msk' = 4 \<and> length ip = 16 \<and> take 12 ip = v4InV6Prefix
                 then drop 12 ip else ip)
      in if length ip' \<noteq> length msk' then [] else map2 (AND) ip' msk')"

text \<open>The decimal prefix length of a CIDR string: digits only, at least one.\<close>

definition dtoi :: "string \<Rightarrow> nat option" where
  "dtoi s =
     (if s = [] \<or> \<not> list_all is_digit s then None
      else Some (foldl (\<lambda>a c. a * 10 + digit_val c) 0 s))"

definition net_ParseCIDR :: "string \<Rightarrow> (IP \<times> IPNet) option" where
  "net_ParseCIDR s =
     (case SplitN2 s CHR ''/'' of
        [addr, msk] \<Rightarrow>
          (case ParseAddr addr of
             None \<Rightarrow> None
           | Some b \<Rightarrow>
               (case dtoi msk of
                  None \<Rightarrow> None
                | Some n \<Rightarrow>
                    if 8 * length b < n then None
                    else
                      (let m = CIDRMask n (8 * length b) in
                       Some (To16 b, \<lparr>net_IP = IP_Mask (To16 b) m, net_Mask = m\<rparr>))))
      | _ \<Rightarrow> None)"

definition networkNumberAndMask :: "IPNet \<Rightarrow> (IP \<times> 8 word list) option" where
  "networkNumberAndMask n =
     (let ip = (if To4 (net_IP n) \<noteq> [] then To4 (net_IP n) else net_IP n);
          m = net_Mask n in
      if length ip \<noteq> 4 \<and> length ip \<noteq> 16 then None
      else if length m = 4 then (if length ip \<noteq> 4 then None else Some (ip, m))
      else if length m = 16 then Some (ip, if length ip = 4 then drop 12 m else m)
      else None)"

definition IPNet_Contains :: "IPNet \<Rightarrow> IP \<Rightarrow> bool" where
  "IPNet_Contains n ip =
     (case networkNumberAndMask n of
        None \<Rightarrow> ip = []
      | Some (nn, m) \<Rightarrow>
          (let x = (if To4 ip \<noteq> [] then To4 ip else ip) in
           length x = length nn \<and> map2 (AND) nn m = map2 (AND) x m))"

definition IPNet_String_net :: "IPNet \<Rightarrow> string" where
  "IPNet_String_net n =
     (case networkNumberAndMask n of
        None \<Rightarrow> ''<nil>''
      | Some (nn, m) \<Rightarrow>
          (case simpleMaskLength m of
             None \<Rightarrow> IP_String nn @ ''/'' @ hexString m
           | Some l \<Rightarrow> IP_String nn @ ''/'' @ nat_dec l))"

section \<open>Arithmetic of byte strings\<close>

lemma SetBytes_Nil [simp]: "SetBytes [] = 0"
  by (simp add: SetBytes_def)

lemma SetBytes_snoc [simp]: "SetBytes (bs @ [b]) = SetBytes bs * 256 + uint b"
  by (simp add: SetBytes_def)

lemma SetBytes_nonneg [simp]: "0 \<le> SetBytes bs"
  by (induction bs rule: rev_induct) auto

lemma uint_byte_less: "uint (b :: 8 word) < 256"
  using uint_lt2p [of b] by simp

lemma SetBytes_less: "SetBytes bs < 256 ^ length bs"
proof (induction bs rule: rev_induct)
  case (snoc b bs)
  then have "SetBytes bs * 256 + uint b < 256 * 256 ^ length bs"
    using uint_byte_less [of b] by linarith
  then show ?case by simp
qed simp

lemma length_int_bytes [simp]: "length (int_bytes n x) = n"
  by (induction n arbitrary: x) auto

lemma SetBytes_int_bytes: "SetBytes (int_bytes n x) = x mod 256 ^ n"
proof (induction n arbitrary: x)
  case (Suc n)
  have "SetBytes (int_bytes (Suc n) x) = (x div 256 mod 256 ^ n) * 256 + x mod 256"
    by (simp add: Suc uint_word_of_int)
  also have "\<dots> = x mod (256 * 256 ^ n)"
    by (simp add: zmod_zmult2_eq)
  finally show ?case by simp
qed simp

lemma int_bytes_SetBytes: "int_bytes (length bs) (SetBytes bs) = bs"
proof (induction bs rule: rev_induct)
  case (snoc b bs)
  have "(SetBytes bs * 256 + uint b) div 256 = SetBytes bs"
    using uint_byte_less [of b] by simp
  moreover have "uint (word_of_int (SetBytes bs * 256 + uint b) :: 8 word) = uint b"
    using uint_byte_less [of b] by (simp only: uint_word_of_int) simp
  then have "(word_of_int (SetBytes bs * 256 + uint b) :: 8 word) = b"
    by (rule word_uint_eqI)
  ultimately show ?case
    using snoc by simp
qed simp

lemma SetBytes_inject: "length a = length b \<Longrightarrow> SetBytes a = SetBytes b \<longleftrightarrow> a = b"
  using int_bytes_SetBytes by metis

lemma SetBytes_append: "SetBytes (a @ b) = SetBytes a * 256 ^ length b + SetBytes b"
  by (induction b rule: rev_induct)
    (simp_all add: append_assoc [symmetric] algebra_simps del: append_assoc)

section \<open>Four-byte and sixteen-byte forms\<close>

lemma length_v4InV6Prefix [simp]: "length v4InV6Prefix = 12"
  by (simp add: v4InV6Prefix_def)

lemma length_To4: "To4 ip \<noteq> [] \<Longrightarrow> length (To4 ip) = 4"
  by (auto simp: To4_def split: if_splits)

lemma To4_Nil [simp]: "To4 [] = []"
  by (simp add: To4_def)

lemma To16_Nil [simp]: "To16 [] = []"
  by (simp add: To16_def)

lemma To4_len4 [simp]: "length ip = 4 \<Longrightarrow> To4 ip = ip"
  by (simp add: To4_def)

lemma To16_len16 [simp]: "length ip = 16 \<Longrightarrow> To16 ip = ip"
  by (simp add: To16_def)

lemma length_To16: "length ip = 4 \<or> length ip = 16 \<Longrightarrow> length (To16 ip) = 16"
  by (auto simp: To16_def)

lemma To4_To16: "length ip = 4 \<or> length ip = 16 \<Longrightarrow> To4 (To16 ip) = To4 ip"
  by (auto simp: To4_def To16_def)

lemma To4_idem [simp]: "To4 (To4 ip) = To4 ip"
  by (auto simp: To4_def)

lemma To16_To4: "To4 ip \<noteq> [] \<Longrightarrow> To16 (To4 ip) = To16 ip"
  by (auto simp: To4_def To16_def split: if_splits) (metis append_take_drop_id)

section \<open>Parsing a printed address\<close>

lemma of_char_digit_char: "n < 10 \<Longrightarrow> of_char (digit_char n) = (48 + n :: nat)"
  by (simp add: digit_char_def)

lemma is_digit_digit_char [simp]: "n < 10 \<Longrightarrow> is_digit (digit_char n)"
  by (simp add: is_digit_def of_char_digit_char)

lemma digit_val_digit_char [simp]: "n < 10 \<Longrightarrow> digit_val (digit_char n) = n"
  by (simp add: digit_val_def of_char_digit_char)

lemma nat_dec_1: "n < 10 \<Longrightarrow> nat_dec n = [digit_char n]"
  by (subst nat_dec.simps) simp

lemma nat_dec_2: "10 \<le> n \<Longrightarrow> n < 100 \<Longrightarrow> nat_dec n = [digit_char (n div 10), digit_char (n mod 10)]"
  by (subst nat_dec.simps) (simp add: nat_dec_1)

lemma nat_dec_3:
  "100 \<le> n \<Longrightarrow> n < 1000 \<Longrightarrow>
   nat_dec n = [digit_char (n div 100), digit_char (n div 10 mod 10), digit_char (n mod 10)]"
  by (subst nat_dec.simps) (simp add: nat_dec_2 div_mult2_eq [symmetric])

lemma byte_digits_cases:
  assumes "n < (256 :: nat)"
  obtains (one) "n < 10" "nat_dec n = [digit_char n]"
  | (two) "10 \<le> n" "n < 100" "nat_dec n = [digit_char (n div 10), digit_char (n mod 10)]"
  | (three) "100 \<le> n" "n < 256"
      "nat_dec n = [digit_char (n div 100), digit_char (n div 10 mod 10), digit_char (n mod 10)]"
proof -
  consider "n < 10" | "10 \<le> n" "n < 100" | "100 \<le> n" "n < 256"
    using assms by linarith
  then show thesis
    using that nat_dec_1 nat_dec_2 nat_dec_3 by cases auto
qed

lemma parse_byte:
  assumes "n < 256"
  shows "parseIPv4Fields (nat_dec n @ s) 0 0 fs = parseIPv4Fields s n (length (nat_dec n)) fs"
  using assms
proof (cases rule: byte_digits_cases)
  case one
  then show ?thesis by simp
next
  case two
  have "n div 10 * 10 + n mod 10 = n" "0 < n div 10" "n div 10 < 10"
    using two(1,2) by presburger+
  with two show ?thesis by simp
next
  case three
  have m: "n div 100 = n div 10 div 10"
    by (simp add: div_mult2_eq [symmetric])
  have mid: "n div 100 * 10 + n div 10 mod 10 = n div 10"
    unfolding m by (rule div_mult_mod_eq)
  have last: "n div 10 * 10 + n mod 10 = n"
    by (rule div_mult_mod_eq)
  have le: "n div 100 \<le> 255 div 100" "n div 10 \<le> 255 div 10"
    using three(2) by (intro div_le_mono; simp)+
  have pos: "0 < n div 100"
    using three(1) by (simp add: div_greater_zero_iff)
  have "n div 100 < 10" and nle: "(255 < n div 10) = False"
    using le by simp_all
  then show ?thesis
    using three(2,3) pos by (simp add: mid last nle)
qed

lemma not_is_digit_dot [simp]: "\<not> is_digit CHR ''.''"
  by (simp add: is_digit_def)

lemma length_nat_dec_pos: "0 < length (nat_dec n)"
  by (subst nat_dec.simps) simp

lemma unat_byte_less: "unat (x :: 8 word) < 256"
proof -
  have "unat x < 2 ^ LENGTH(8)" by (rule unsigned_less)
  then show ?thesis by simp
qed

lemma parse_v4_string:
  assumes "length bs = 4"
  shows "parseIPv4Fields (v4_string bs) 0 0 [] = Some bs"
proof -
  obtain a b c d where bs: "bs = [a, b, c, d]"
    using assms by (auto simp: eval_nat_numeral length_Suc_conv)
  note lt = unat_byte_less
  have dot: "parseIPv4Fields (CHR ''.'' # s) v (length (nat_dec m)) fs =
      (if s = [] then None else if length fs = 3 then None
       else parseIPv4Fields s 0 0 (fs @ [of_nat v]))" for s v m fs
    using length_nat_dec_pos [of m] by simp
  have ne: "nat_dec m @ s \<noteq> []" for m s
    using length_nat_dec_pos [of m] by auto
  have ne': "nat_dec m \<noteq> []" for m
    using length_nat_dec_pos [of m] by auto
  show ?thesis
    using parse_byte [OF lt, of d "[]" "[a, b, c]"]
    by (simp add: bs v4_string_def parse_byte [OF lt] dot ne ne')
qed

lemma find_only:
  assumes "c \<in> set s" and "P c" and "\<And>x. x \<in> set s \<Longrightarrow> P x \<Longrightarrow> x = c"
  shows "find P s = Some c"
  using assms
proof (induction s)
  case (Cons x s)
  show ?case
  proof (cases "P x")
    case True
    with Cons.prems(3) [of x] show ?thesis by simp
  next
    case False
    with Cons.prems(1,2) have "c \<in> set s" by auto
    then have "find P s = Some c"
      using Cons.prems(2,3) by (intro Cons.IH) simp_all
    with False show ?thesis by simp
  qed
qed simp

lemma set_nat_dec: "c \<in> set (nat_dec n) \<Longrightarrow> is_digit c"
proof (induction n rule: nat_dec.induct)
  case (1 n)
  then show ?case
    by (subst (asm) nat_dec.simps) (auto split: if_splits)
qed

lemma set_Join: "set (Join xs sep) \<subseteq> (\<Union>x\<in>set xs. set x) \<union> set sep"
  by (induction xs sep rule: Join.induct) auto

lemma in_set_JoinD: "c \<in> set (Join xs sep) \<Longrightarrow> (\<exists>x\<in>set xs. c \<in> set x) \<or> c \<in> set sep"
  using set_Join by fastforce

lemma sep_in_Join: "2 \<le> length xs \<Longrightarrow> sep \<noteq> [] \<Longrightarrow> set sep \<subseteq> set (Join xs sep)"
  by (cases xs rule: remdups_adj.cases) auto

lemma ParseAddr_v4_string:
  assumes "length bs = 4"
  shows "ParseAddr (v4_string bs) = Some bs"
proof -
  have dot: "CHR ''.'' \<in> set (v4_string bs)"
    using sep_in_Join [of "map (\<lambda>b. nat_dec (unat b)) bs" "''.''"] assms
    by (auto simp: v4_string_def)
  have "find (\<lambda>c. c = CHR ''.'' \<or> c = CHR '':'' \<or> c = CHR ''%'') (v4_string bs) = Some CHR ''.''"
  proof (rule find_only [OF dot])
    fix c
    assume "c \<in> set (v4_string bs)" and c: "c = CHR ''.'' \<or> c = CHR '':'' \<or> c = CHR ''%''"
    then have "is_digit c \<or> c = CHR ''.''"
      unfolding v4_string_def by (auto dest!: in_set_JoinD set_nat_dec)
    with c show "c = CHR ''.''"
      by (auto simp: is_digit_def)
  qed simp
  then show ?thesis
    using assms by (simp add: ParseAddr_def parse_v4_string)
qed

section \<open>Parsing a printed IPv6 address\<close>

lemma hex_val_hex_char [simp]: "n < 16 \<Longrightarrow> hex_val (hex_char n) = Some n"
  by (auto simp: hex_val_def hex_char_def Let_def)

lemma is_hex_hex_char [simp]: "n < 16 \<Longrightarrow> is_hex (hex_char n)"
  by (simp add: is_hex_def)

lemma not_is_hex [simp]: "\<not> is_hex CHR '':''" "\<not> is_hex CHR ''.''" "\<not> is_hex CHR ''%''"
  by (simp_all add: is_hex_def hex_val_def Let_def)

lemma append_hex_props:
  assumes "g < 65536"
  shows "list_all is_hex (append_hex g)" "append_hex g \<noteq> []" "length (append_hex g) \<le> 4"
    "hex_number (append_hex g) = g"
proof -
  have top: "g div 4096 < 16"
    using assms by (simp add: div_less_iff_less_mult)
  show "list_all is_hex (append_hex g)" "append_hex g \<noteq> []" "length (append_hex g) \<le> 4"
    using top by (auto simp: append_hex_def)
  have e1: "g div 16 * 16 + g mod 16 = g"
    by (rule div_mult_mod_eq)
  have "g div 16 div 16 = g div 256"
    by (simp add: div_mult2_eq [symmetric])
  then have e2: "g div 256 * 16 + g div 16 mod 16 = g div 16"
    using div_mult_mod_eq [of "g div 16" 16] by simp
  have "g div 256 div 16 = g div 4096"
    by (simp add: div_mult2_eq [symmetric])
  then have e3: "g div 4096 * 16 + g div 256 mod 16 = g div 256"
    using div_mult_mod_eq [of "g div 256" 16] by simp
  have z: "g < 4096 \<Longrightarrow> g div 4096 = 0" "g < 256 \<Longrightarrow> g div 256 = 0" "g < 16 \<Longrightarrow> g div 16 = 0"
    by simp_all
  show "hex_number (append_hex g) = g"
    using top z by (auto simp: append_hex_def hex_number_def; use e1 e2 e3 in linarith)
qed

lemma span_append_hex:
  assumes "g < 65536" and "\<And>c r'. r = c # r' \<Longrightarrow> \<not> is_hex c"
  shows "takeWhile is_hex (append_hex g @ r) = append_hex g"
    and "dropWhile is_hex (append_hex g @ r) = r"
proof -
  have "takeWhile is_hex r = []" "dropWhile is_hex r = r"
    using assms(2) by (cases r; simp)+
  then show "takeWhile is_hex (append_hex g @ r) = append_hex g"
    and "dropWhile is_hex (append_hex g @ r) = r"
    using append_hex_props(1) [OF assms(1)] by (simp_all add: list_all_iff)
qed

lemma span_colon:
  assumes "g < 65536"
  shows "takeWhile is_hex (append_hex g @ CHR '':'' # r) = append_hex g"
    and "dropWhile is_hex (append_hex g @ CHR '':'' # r) = CHR '':'' # r"
  by (rule span_append_hex [OF assms]; simp)+

lemma loop_last:
  assumes "g < 65536" and "length ip < 16"
  shows "parseIPv6_loop (append_hex g) ip ell = v6_finish (ip @ group_bytes g) ell"
proof -
  have "takeWhile is_hex (append_hex g) = append_hex g" "dropWhile is_hex (append_hex g) = []"
    using span_append_hex [OF assms(1), of "[]"] by simp_all
  then show ?thesis
    using assms(2) append_hex_props(2,3) [OF assms(1)]
    by (subst parseIPv6_loop.simps) (simp only: Let_def append_hex_props(4) [OF assms(1)], simp)
qed

lemma loop_colon:
  assumes "g < 65536" and "length ip < 16" and "c \<noteq> CHR '':''"
  shows "parseIPv6_loop (append_hex g @ CHR '':'' # c # r) ip ell =
    parseIPv6_loop (c # r) (ip @ group_bytes g) ell"
  using assms(2,3) append_hex_props(2,3) [OF assms(1)]
  by (subst parseIPv6_loop.simps)
    (simp add: Let_def span_colon [OF assms(1)] append_hex_props(4) [OF assms(1)])

lemma loop_ellipsis:
  assumes "g < 65536" and "length ip < 16"
  shows "parseIPv6_loop (append_hex g @ ''::'' @ r) ip None =
    (let ip' = ip @ group_bytes g in
     if r = [] then v6_finish ip' (Some (length ip'))
     else parseIPv6_loop r ip' (Some (length ip')))"
  using assms(2) append_hex_props(2,3) [OF assms(1)]
  by (subst parseIPv6_loop.simps)
    (simp add: Let_def span_colon [OF assms(1)] append_hex_props(4) [OF assms(1)])

lemma append_hex_head:
  assumes "g < 65536"
  obtains c r where "append_hex g = c # r" "is_hex c" "c \<noteq> CHR '':''"
proof -
  obtain c r where cr: "append_hex g = c # r"
    using append_hex_props(2) [OF assms] by (cases "append_hex g") auto
  moreover have "is_hex c"
    using append_hex_props(1) [OF assms] cr by simp
  moreover from this have "c \<noteq> CHR '':''"
    by auto
  ultimately show thesis
    using that by blast
qed

abbreviation hex_groups :: "nat list \<Rightarrow> string" where
  "hex_groups gs \<equiv> Join (map append_hex gs) '':''"

abbreviation groups_bytes :: "nat list \<Rightarrow> 8 word list" where
  "groups_bytes gs \<equiv> concat (map group_bytes gs)"

lemma length_group_bytes [simp]: "length (group_bytes g) = 2"
  by (simp add: group_bytes_def)

lemma length_groups_bytes [simp]: "length (groups_bytes gs) = 2 * length gs"
  by (induction gs) (auto simp: group_bytes_def)

lemma hex_groups_head:
  assumes "gs \<noteq> []" and "\<forall>g\<in>set gs. g < 65536"
  obtains c r where "hex_groups gs = c # r" "is_hex c" "c \<noteq> CHR '':''"
proof -
  obtain g gs' where gs: "gs = g # gs'"
    using assms(1) by (cases gs) auto
  obtain c r where cr: "append_hex g = c # r" "is_hex c" "c \<noteq> CHR '':''"
    using append_hex_head assms(2) gs by auto
  show thesis
    using that [of c "r @ (if gs' = [] then [] else CHR '':'' # hex_groups gs')"] cr gs
    by (cases gs') (auto simp: Join_Cons)
qed

lemma loop_groups:
  assumes "\<forall>g\<in>set (g # gs). g < 65536" and "length ip + 2 * length (g # gs) \<le> 16"
  shows "parseIPv6_loop (hex_groups (g # gs)) ip ell =
    v6_finish (ip @ groups_bytes (g # gs)) ell"
  using assms
proof (induction gs arbitrary: g ip)
  case Nil
  then show ?case by (simp add: loop_last)
next
  case (Cons h gs)
  obtain c r where cr: "hex_groups (h # gs) = c # r" "c \<noteq> CHR '':''"
    by (rule hex_groups_head [of "h # gs"]) (use Cons.prems in auto)
  have "parseIPv6_loop (hex_groups (g # h # gs)) ip ell =
      parseIPv6_loop (hex_groups (h # gs)) (ip @ group_bytes g) ell"
    using Cons.prems cr loop_colon [of g ip c r ell] by simp
  also have "\<dots> = v6_finish ((ip @ group_bytes g) @ groups_bytes (h # gs)) ell"
    using Cons.prems by (intro Cons.IH) (auto simp: group_bytes_def)
  finally show ?case by simp
qed

lemma loop_groups_ellipsis:
  assumes "\<forall>g\<in>set (g # gs). g < 65536" and "length ip + 2 * length (g # gs) \<le> 16"
  shows "parseIPv6_loop (hex_groups (g # gs) @ ''::'' @ t) ip None =
    (let ip' = ip @ groups_bytes (g # gs) in
     if t = [] then v6_finish ip' (Some (length ip'))
     else parseIPv6_loop t ip' (Some (length ip')))"
  using assms
proof (induction gs arbitrary: g ip)
  case Nil
  then show ?case using loop_ellipsis [of g ip t] by (simp add: Let_def)
next
  case (Cons h gs)
  obtain c r where cr: "hex_groups (h # gs) = c # r" "c \<noteq> CHR '':''"
    by (rule hex_groups_head [of "h # gs"]) (use Cons.prems in auto)
  have "parseIPv6_loop (hex_groups (g # h # gs) @ ''::'' @ t) ip None =
      parseIPv6_loop (hex_groups (h # gs) @ ''::'' @ t) (ip @ group_bytes g) None"
    using Cons.prems cr loop_colon [of g ip c "r @ ''::'' @ t" None] by simp
  also have "\<dots> = (let ip' = (ip @ group_bytes g) @ groups_bytes (h # gs) in
     if t = [] then v6_finish ip' (Some (length ip'))
     else parseIPv6_loop t ip' (Some (length ip')))"
    using Cons.prems by (intro Cons.IH) (auto simp: group_bytes_def)
  finally show ?case by simp
qed

text \<open>The run of zero groups that the printer elides lies inside the list and is all zero.\<close>

definition good_run :: "nat list \<Rightarrow> nat \<times> nat \<Rightarrow> bool" where
  "good_run gs z \<longleftrightarrow>
     z = (255, 255) \<or>
     (fst z + 2 \<le> snd z \<and> snd z \<le> length gs \<and> (\<forall>j. fst z \<le> j \<and> j < snd z \<longrightarrow> gs ! j = 0))"

lemma zero_run_nth: "j < zero_run gs \<Longrightarrow> gs ! j = 0"
proof -
  assume j: "j < zero_run gs"
  then have "takeWhile (\<lambda>g. g = 0) gs ! j \<in> set (takeWhile (\<lambda>g. g = 0) gs)"
    by (intro nth_mem) (simp add: zero_run_def)
  then have "takeWhile (\<lambda>g. g = 0) gs ! j = 0"
    by (auto dest: set_takeWhileD)
  with j show "gs ! j = 0"
    by (simp add: zero_run_def takeWhile_nth)
qed

lemma zero_run_le: "zero_run gs \<le> length gs"
  by (simp add: zero_run_def length_takeWhile_le)

lemma best_run_good:
  "good_run (pre @ gs) z \<Longrightarrow> good_run (pre @ gs) (best_run (length pre) gs z)"
proof (induction gs arbitrary: pre z)
  case (Cons g gs)
  let ?l = "zero_run (g # gs)"
  have zero: "(pre @ g # gs) ! j = 0" if "length pre \<le> j" "j < length pre + ?l" for j
    using zero_run_nth [of "j - length pre" "g # gs"] that by (simp add: nth_append)
  have "good_run (pre @ g # gs)
      (if 2 \<le> ?l \<and> snd z - fst z < ?l then (length pre, length pre + ?l) else z)"
    using Cons.prems zero zero_run_le [of "g # gs"] by (auto simp: good_run_def)
  with Cons.IH [of "pre @ [g]"] show ?case
    by (simp add: Let_def)
qed simp

lemma elide_run:
  assumes "good_run gs z" and "z \<noteq> (255, 255)"
  shows "gs = take (fst z) gs @ replicate (snd z - fst z) 0 @ drop (snd z) gs"
proof (rule nth_equalityI)
  show "length gs = length (take (fst z) gs @ replicate (snd z - fst z) 0 @ drop (snd z) gs)"
    using assms by (auto simp: good_run_def)
  fix i
  assume "i < length gs"
  then show "gs ! i = (take (fst z) gs @ replicate (snd z - fst z) 0 @ drop (snd z) gs) ! i"
    using assms by (auto simp: good_run_def nth_append)
qed

lemma groups_bytes_replicate_0: "concat (replicate n (group_bytes 0)) = replicate (2 * n) 0"
  by (induction n) (auto simp: group_bytes_def)


lemma parseIPv6_elided:
  assumes left: "\<forall>g\<in>set ls. g < 65536" and right: "\<forall>g\<in>set rs. g < 65536"
    and len: "length ls + length rs < 8"
  shows "parseIPv6 (hex_groups ls @ ''::'' @ hex_groups rs) =
    Some (groups_bytes ls @ replicate (16 - 2 * (length ls + length rs)) 0 @ groups_bytes rs)"
proof (cases ls)
  case Nil
  show ?thesis
  proof (cases rs)
    case Nil
    with \<open>ls = []\<close> show ?thesis by (simp add: parseIPv6_def)
  next
    case (Cons r rs')
    obtain c t where "hex_groups rs = c # t"
      by (rule hex_groups_head [of rs]) (use Cons right in auto)
    then show ?thesis
      using \<open>ls = []\<close> Cons right len loop_groups [of r rs' "[]" "Some 0"]
      by (simp add: parseIPv6_def v6_finish_def)
  qed
next
  case (Cons l ls')
  obtain c t where ct: "hex_groups ls = c # t" "c \<noteq> CHR '':''"
    by (rule hex_groups_head [of ls]) (use Cons left in auto)
  have loop: "parseIPv6_loop (hex_groups ls @ ''::'' @ hex_groups rs) [] None =
      (let ip' = groups_bytes ls in
       if hex_groups rs = [] then v6_finish ip' (Some (length ip'))
       else parseIPv6_loop (hex_groups rs) ip' (Some (length ip')))"
    using loop_groups_ellipsis [of l ls' "[]" "hex_groups rs"] Cons left len by simp
  have start: "parseIPv6 (hex_groups ls @ ''::'' @ hex_groups rs) =
      parseIPv6_loop (hex_groups ls @ ''::'' @ hex_groups rs) [] None"
    using ct by (simp add: parseIPv6_def)
  show ?thesis
  proof (cases rs)
    case Nil
    then show ?thesis
      unfolding start loop using len by (simp add: v6_finish_def)
  next
    case (Cons r rs')
    obtain c t where "hex_groups rs = c # t"
      by (rule hex_groups_head [of rs]) (use Cons right in auto)
    moreover have "parseIPv6_loop (hex_groups rs) (groups_bytes ls) (Some (length (groups_bytes ls))) =
        v6_finish (groups_bytes ls @ groups_bytes rs) (Some (length (groups_bytes ls)))"
      using loop_groups [of r rs' "groups_bytes ls"] Cons right len by simp
    ultimately show ?thesis
      unfolding start loop using len by (simp add: v6_finish_def)
  qed
qed

lemma parse_v6_string:
  assumes len: "length gs = 8" and small: "\<forall>g\<in>set gs. g < 65536"
  shows "parseIPv6 (v6_string gs) = Some (groups_bytes gs)"
proof -
  let ?z = "best_run 0 gs (255, 255)"
  have good: "good_run gs ?z"
    using best_run_good [of "[]" gs "(255, 255)"] by (simp add: good_run_def)
  show ?thesis
  proof (cases "?z = (255, 255)")
    case True
    obtain g gs' where gs: "gs = g # gs'"
      using len by (cases gs) auto
    obtain c t where ct: "hex_groups gs = c # t" "c \<noteq> CHR '':''"
      by (rule hex_groups_head [of gs]) (use gs small in auto)
    have "parseIPv6_loop (hex_groups gs) [] None = v6_finish (groups_bytes gs) None"
      using loop_groups [of g gs' "[]" None] gs small len by simp
    with True ct len show ?thesis
      by (simp add: v6_string_def parseIPv6_def v6_finish_def)
  next
    case False
    with good have z: "fst ?z + 2 \<le> snd ?z" "snd ?z \<le> 8" and "fst ?z \<noteq> 255"
      using len by (auto simp: good_run_def)
    let ?ls = "take (fst ?z) gs" and ?rs = "drop (snd ?z) gs"
    have gs: "groups_bytes gs =
        groups_bytes ?ls @ replicate (2 * (snd ?z - fst ?z)) 0 @ groups_bytes ?rs"
      using arg_cong [OF elide_run [OF good False], of groups_bytes]
      by (simp add: groups_bytes_replicate_0 del: append_take_drop_id)
    have "parseIPv6 (hex_groups ?ls @ ''::'' @ hex_groups ?rs) =
        Some (groups_bytes ?ls @ replicate (16 - 2 * (length ?ls + length ?rs)) 0 @ groups_bytes ?rs)"
      using small z len
      by (intro parseIPv6_elided) (auto dest: in_set_takeD in_set_dropD)
    moreover have "16 - 2 * (length ?ls + length ?rs) = 2 * (snd ?z - fst ?z)"
      using z len by simp
    ultimately show ?thesis
      using \<open>fst ?z \<noteq> 255\<close> gs by (simp add: v6_string_def Let_def)
  qed
qed

lemma v6_string_chars:
  assumes "\<forall>g\<in>set gs. g < 65536" and "c \<in> set (v6_string gs)"
  shows "is_hex c \<or> c = CHR '':''"
proof -
  have *: "is_hex x \<or> x = CHR '':''"
    if "x \<in> set (hex_groups hs)" "set hs \<subseteq> set gs" for x hs
    using that assms(1) append_hex_props(1) by (fastforce dest!: in_set_JoinD simp: list_all_iff)
  show ?thesis
    using assms(2) unfolding v6_string_def Let_def
    by (auto split: if_splits
        dest!: * [OF _ set_take_subset] * [OF _ set_drop_subset] * [OF _ subset_refl])
qed

lemma colon_in_v6_string: "2 \<le> length gs \<Longrightarrow> CHR '':'' \<in> set (v6_string gs)"
  using sep_in_Join [of "map append_hex gs" "'':''"] by (simp add: v6_string_def Let_def)

lemma ParseAddr_v6_string:
  assumes "length gs = 8" and "\<forall>g\<in>set gs. g < 65536"
  shows "ParseAddr (v6_string gs) = Some (groups_bytes gs)"
proof -
  have "find (\<lambda>c. c = CHR ''.'' \<or> c = CHR '':'' \<or> c = CHR ''%'') (v6_string gs) = Some CHR '':''"
  proof (rule find_only)
    show "CHR '':'' \<in> set (v6_string gs)"
      using assms(1) by (simp add: colon_in_v6_string)
  qed (auto dest!: v6_string_chars [OF assms(2)])
  moreover have "CHR ''%'' \<notin> set (v6_string gs)"
    using assms v6_string_chars [of gs "CHR ''%''"] by auto
  ultimately show ?thesis
    using assms by (simp add: ParseAddr_def parse_v6_string)
qed

lemma v6_groups_props:
  assumes "even (length bs)"
  shows "length (v6_groups bs) = length bs div 2" "\<forall>g\<in>set (v6_groups bs). g < 65536"
    "groups_bytes (v6_groups bs) = bs"
proof -
  have lt: "256 * unat a + unat b < 65536" for a b :: "8 word"
    using unat_byte_less [of a] unat_byte_less [of b] by simp
  have gb: "group_bytes (256 * unat a + unat b) = [a, b]" for a b :: "8 word"
  proof -
    have "(256 * unat a + unat b) div 256 = unat a"
      using unat_byte_less [of b] by simp
    moreover have "unat (of_nat (256 * unat a + unat b) :: 8 word) = unat b"
      using unat_byte_less [of b] by (simp only: unat_of_nat) simp
    then have "(of_nat (256 * unat a + unat b) :: 8 word) = b"
      by (rule unsigned_word_eqI)
    ultimately show ?thesis by (simp add: group_bytes_def)
  qed
  show "length (v6_groups bs) = length bs div 2"
    using assms by (induction bs rule: v6_groups.induct) auto
  show "\<forall>g\<in>set (v6_groups bs). g < 65536"
    by (induction bs rule: v6_groups.induct) (auto simp: lt)
  show "groups_bytes (v6_groups bs) = bs"
    using assms by (induction bs rule: v6_groups.induct) (auto simp: gb)
qed

text \<open>Printing and parsing are inverse: \<open>ParseIP\<close> returns the sixteen-byte form.\<close>

lemma net_ParseIP_String:
  assumes "length ip = 4 \<or> length ip = 16"
  shows "net_ParseIP (IP_String ip) = To16 ip"
proof -
  have ne: "ip \<noteq> []" using assms by auto
  show ?thesis
  proof (cases "To4 ip = []")
    case True
    then have "length ip = 16"
      using assms ne by (auto simp: To4_def)
    then show ?thesis
      using True ne v6_groups_props [of ip]
      by (simp add: IP_String_def net_ParseIP_def ParseAddr_v6_string)
  next
    case False
    then show ?thesis
      using assms ne length_To4 [OF False]
      by (auto simp: IP_String_def net_ParseIP_def ParseAddr_v4_string To16_To4)
  qed
qed

lemma IP_String_inject:
  assumes "length a = 4 \<or> length a = 16" and "length b = 4 \<or> length b = 16"
  shows "IP_String a = IP_String b \<longleftrightarrow> To16 a = To16 b"
proof
  assume "IP_String a = IP_String b"
  then show "To16 a = To16 b"
    using net_ParseIP_String assms by metis
next
  assume eq: "To16 a = To16 b"
  have "IP_String ip = IP_String (To16 ip)" if "length ip = 4 \<or> length ip = 16" for ip
    using that To4_To16 [OF that] by (auto simp: IP_String_def To16_def)
  then show "IP_String a = IP_String b"
    using assms eq by metis
qed

section \<open>Networks as ranges of numbers\<close>

lemma SetBytes_Cons: "SetBytes (b # bs) = uint b * 256 ^ length bs + SetBytes bs"
  using SetBytes_append [of "[b]" bs] by (simp add: SetBytes_def)

lemma length_CIDRMask_bytes [simp]: "length (CIDRMask_bytes n l) = l"
  by (induction l arbitrary: n) auto

lemma byte_ones_mask:
  assumes "n < 8"
  shows "byte_ones (NOT (drop_bit n 255)) = Some n" and "NOT (drop_bit n 255) \<noteq> (255 :: 8 word)"
proof -
  have "n \<in> {0, 1, 2, 3, 4, 5, 6, 7}" using assms by auto
  then show "byte_ones (NOT (drop_bit n 255)) = Some n" "NOT (drop_bit n 255) \<noteq> (255 :: 8 word)"
    by (auto simp: byte_ones_def upt_rec drop_bit_eq_div)
qed

lemma CIDRMask_bytes_0: "CIDRMask_bytes 0 l = replicate l 0"
  by (induction l) auto

lemma simpleMaskLength_CIDRMask: "n \<le> 8 * l \<Longrightarrow> simpleMaskLength (CIDRMask_bytes n l) = Some n"
proof (induction l arbitrary: n)
  case (Suc l)
  show ?case
  proof (cases "8 \<le> n")
    case True
    with Suc show ?thesis by simp
  next
    case False
    then show ?thesis
      using byte_ones_mask [of n] by (simp add: CIDRMask_bytes_0 list_all_iff)
  qed
qed simp

lemma uint_masked_byte:
  assumes "n < 8"
  shows "uint ((b :: 8 word) AND NOT (drop_bit n 255)) = uint b - uint b mod 2 ^ (8 - n)"
proof -
  have "n \<in> {0, 1, 2, 3, 4, 5, 6, 7}" using assms by auto
  then have m: "drop_bit n 255 = (mask (8 - n) :: 8 word)"
    by (auto simp: drop_bit_eq_div mask_eq_exp_minus_1)
  have "b AND NOT (drop_bit n 255) = b - take_bit (8 - n) b"
  proof -
    have "NOT b AND take_bit (8 - n) b = 0"
      by (auto simp: bit_eq_iff bit_simps)
    then have "b - take_bit (8 - n) b = b AND NOT (take_bit (8 - n) b)"
      by (rule disjunctive_diff_eq_and_not)
    also have "\<dots> = b AND NOT (mask (8 - n))"
      by (auto simp: bit_eq_iff bit_simps)
    finally show ?thesis by (simp add: m)
  qed
  also have "uint \<dots> = uint b - uint (take_bit (8 - n) b)"
  proof -
    have "uint (take_bit (8 - n) b) \<le> uint b"
      by (simp add: unsigned_take_bit_eq take_bit_int_less_eq_self_iff)
    then show ?thesis by (simp only: uint_sub_lem)
  qed
  also have "uint (take_bit (8 - n) b) = uint b mod 2 ^ (8 - n)"
    by (simp only: unsigned_take_bit_eq take_bit_eq_mod [of _ "uint b"])
  finally show ?thesis .
qed

lemma map2_AND_replicate_0: "map2 (AND) bs (replicate (length bs) 0) = replicate (length bs) (0 :: 8 word)"
  by (induction bs) auto

lemma SetBytes_replicate_0 [simp]: "SetBytes (replicate n 0) = 0"
  by (induction n) (auto simp: SetBytes_Cons)

lemma SetBytes_masked:
  "n \<le> 8 * length bs \<Longrightarrow>
   SetBytes (map2 (AND) bs (CIDRMask_bytes n (length bs))) =
     SetBytes bs - SetBytes bs mod 2 ^ (8 * length bs - n)"
proof (induction bs arbitrary: n)
  case (Cons b bs)
  let ?l = "length bs"
  show ?case
  proof (cases "8 \<le> n")
    case True
    have b255: "b AND 255 = b"
    proof -
      have "(255 :: 8 word) = - 1" by simp
      then show ?thesis by (simp only: and.right_neutral)
    qed
    have "(256 :: int) ^ ?l = 2 ^ (8 * ?l)"
      by (simp add: power_mult)
    then have "(2 :: int) ^ (8 * ?l - (n - 8)) dvd 256 ^ ?l"
      by (simp add: le_imp_power_dvd)
    then have "(uint b * 256 ^ ?l + SetBytes bs) mod 2 ^ (8 * ?l - (n - 8)) =
        SetBytes bs mod 2 ^ (8 * ?l - (n - 8))"
      by (metis dvd_mult mod_add_left_eq add_0 dvd_imp_mod_0)
    then show ?thesis
      using True Cons.IH [of "n - 8"] Cons.prems b255 by (simp add: SetBytes_Cons add.commute)
  next
    case False
    let ?k = "8 - n"
    have e: "(2 :: int) ^ (8 * Suc ?l - n) = 256 ^ ?l * 2 ^ ?k"
    proof -
      have "8 * Suc ?l - n = 8 * ?l + ?k" using False by simp
      then show ?thesis by (simp only: power_add power_mult) simp
    qed
    have "(uint b * 256 ^ ?l + SetBytes bs) mod (256 ^ ?l * 2 ^ ?k) =
        256 ^ ?l * ((uint b * 256 ^ ?l + SetBytes bs) div 256 ^ ?l mod 2 ^ ?k) +
        (uint b * 256 ^ ?l + SetBytes bs) mod 256 ^ ?l"
      by (rule zmod_zmult2_eq) simp
    also have "\<dots> = 256 ^ ?l * (uint b mod 2 ^ ?k) + SetBytes bs"
      using SetBytes_less [of bs] by simp
    finally show ?thesis
      using False e by (simp add: SetBytes_Cons CIDRMask_bytes_0 map2_AND_replicate_0 uint_masked_byte algebra_simps)
  qed
qed simp

section \<open>What the address parser returns\<close>

lemma length_parseIPv4Fields:
  "length fs \<le> 3 \<Longrightarrow> parseIPv4Fields s v d fs = Some b \<Longrightarrow> length b = 4"
  by (induction s v d fs rule: parseIPv4Fields.induct) (auto split: if_splits)

lemma length_v6_finish: "v6_finish ip e = Some b \<Longrightarrow> length ip \<le> 16 \<Longrightarrow> length b = 16"
  by (auto simp: v6_finish_def split: option.splits if_splits)

lemma length_parseIPv6_loop:
  assumes "even (length ip)" and "parseIPv6_loop s ip e = Some b"
  shows "length b = 16"
  using assms
proof (induction s ip e rule: parseIPv6_loop.induct)
  case (1 s ip e)
  have le: "length (ip @ group_bytes g) \<le> 16" if "length ip < 16" for g
    using that "1.prems"(1) by (auto elim: evenE)
  let ?ds = "takeWhile is_hex s"
  let ?ip = "ip @ group_bytes (hex_number ?ds)"
  have ev: "even (length ?ip)" using "1.prems"(1) by simp
  note p = "1.prems"(2) [unfolded parseIPv6_loop.simps [of s ip e] Let_def]
  have u1: "\<not> 16 \<le> length ip"
    using p by (rule contrapos_pn) simp
  have u2: "\<not> (?ds = [] \<or> 4 < length ?ds)"
    using p by (rule contrapos_pn) simp
  have r: "(case dropWhile is_hex s of
        [] \<Rightarrow> v6_finish ?ip e
      | c # r \<Rightarrow>
          if c = CHR ''.'' then
            (if e = None \<and> length ip \<noteq> 12 then None
             else if 16 < length ip + 4 then None
             else (case parseIPv4Fields s 0 0 [] of
                     None \<Rightarrow> None | Some f \<Rightarrow> v6_finish (ip @ f) e))
          else if c \<noteq> CHR '':'' then None
          else (case r of
                  [] \<Rightarrow> None
                | c' # r' \<Rightarrow>
                    if c' = CHR '':'' then
                      (if e \<noteq> None then None
                       else if r' = [] then v6_finish ?ip (Some (length ?ip))
                       else parseIPv6_loop r' ?ip (Some (length ?ip)))
                    else parseIPv6_loop r ?ip e)) = Some b"
    using p by (simp only: if_not_P [OF u1] if_not_P [OF u2])
  note u = u1 [unfolded not_le] u2
  note ih = "1.IH" [OF refl refl refl]
  show ?case
  proof (cases "dropWhile is_hex s")
    case Nil
    have "v6_finish ?ip e = Some b" using r by (simp only: Nil list.case)
    then show ?thesis by (rule length_v6_finish [OF _ le [OF u(1)]])
  next
    case (Cons c cs)
    show ?thesis
    proof (cases "c = CHR ''.''")
      case True
      then show ?thesis
        using r Cons by (auto split: if_splits option.splits dest!: length_v6_finish length_parseIPv4Fields [rotated])
    next
      case False
      then obtain c' r' where cs: "c = CHR '':''" "cs = c' # r'"
        using r Cons by (auto split: if_splits list.splits)
      show ?thesis
        using r Cons cs ih(1) [OF u1 u2 Cons False _ cs(2)] ih(2) [OF u1 u2 Cons False _ cs(2)] ev u(1)
          le [OF u(1)]
        by (auto split: if_splits dest: length_v6_finish)
    qed
  qed
qed

lemma length_ParseAddr: "ParseAddr s = Some b \<Longrightarrow> length b = 4 \<or> length b = 16"
  by (auto simp: ParseAddr_def parseIPv6_def split: option.splits if_splits
      dest: length_parseIPv4Fields [rotated] length_parseIPv6_loop [rotated])

end
