(* ===== verification/CNet.thy ===== *)
theory CNet
  imports GoNet
begin

text \<open>
  The repository's address library \<open>pkg/util/net\<close> (imported as \<open>cnet\<close>): \<open>ip.go\<close> and \<open>ipnet.go\<close>.

  A \<open>cnet.IP\<close> wraps a \<open>net.IP\<close> and is its byte slice; a \<open>cnet.IPNet\<close> wraps a \<open>net.IPNet\<close>; a
  pointer to either is an \<open>option\<close>. The lemmas show that \<open>IncrementIP\<close> is addition on the
  number of an address with the panic of \<open>FillBytes\<close> exactly where the sum leaves the family,
  and that \<open>IsNetOverlap\<close> and \<open>Covers\<close> decide intersection and inclusion of networks.
  The JSON methods (\<open>MarshalJSON\<close>, \<open>UnmarshalJSON\<close>) are not modelled.
\<close>

section \<open>Addresses (\<open>ip.go\<close>)\<close>

definition ParseIP :: "string \<Rightarrow> IP option" where
  "ParseIP ip =
     (let addr = net_ParseIP ip in
      if addr = [] then None
      else if To4 addr \<noteq> [] then Some (To4 addr) else Some addr)"

definition IP_Version :: "IP \<Rightarrow> int" where
  "IP_Version i = (if To4 i \<noteq> [] then 4 else if length i = 16 then 6 else 0)"

definition IP_Network :: "IP \<Rightarrow> IPNet" where
  "IP_Network i =
     (if To4 i \<noteq> [] then \<lparr>net_IP = To4 i, net_Mask = CIDRMask 32 32\<rparr>
      else \<lparr>net_IP = i, net_Mask = CIDRMask 128 128\<rparr>)"

text \<open>\<open>net.IP.UnmarshalText\<close>: the empty text is the nil address.\<close>

definition UnmarshalText :: "string \<Rightarrow> IP res" where
  "UnmarshalText s =
     (if s = [] then Ok []
      else if net_ParseIP s = [] then Err (Errorf (''invalid IP address: '' @ s))
      else Ok (net_ParseIP s))"

definition MustParseIP :: "string \<Rightarrow> IP res" where
  "MustParseIP i =
     (case UnmarshalText i of
        Ok ip \<Rightarrow> Ok (if To4 ip \<noteq> [] then To4 ip else ip)
      | Err e \<Rightarrow> Panic (error_text e)
      | Panic s \<Rightarrow> Panic s)"

definition IPToBigInt :: "IP \<Rightarrow> int" where
  "IPToBigInt ip = (if To4 ip \<noteq> [] then SetBytes (To4 ip) else SetBytes (To16 ip))"

definition BigIntToIP :: "int \<Rightarrow> bool \<Rightarrow> IP res" where
  "BigIntToIP ipInt v6 = (if v6 then FillBytes 16 ipInt else FillBytes 4 ipInt)"

definition IncrementIP :: "IP \<Rightarrow> int \<Rightarrow> IP res" where
  "IncrementIP ip increment =
     (let expectingV6 = (To4 ip = []); sum = IPToBigInt ip + increment in
      BigIntToIP sum expectingV6)"

section \<open>Networks (\<open>ipnet.go\<close>)\<close>

definition IPNet_Version :: "IPNet \<Rightarrow> int" where
  "IPNet_Version i =
     (if To4 (net_IP i) \<noteq> [] then 4 else if length (net_IP i) = 16 then 6 else 0)"

definition IsNetOverlap :: "IPNet \<Rightarrow> IPNet \<Rightarrow> bool" where
  "IsNetOverlap i n \<longleftrightarrow> IPNet_Contains n (net_IP i) \<or> IPNet_Contains i (net_IP n)"

definition Covers :: "IPNet \<Rightarrow> IPNet \<Rightarrow> bool" where
  "Covers i n \<longleftrightarrow>
     (if \<not> IPNet_Contains i (net_IP n) then False
      else fst (Mask_Size (net_Mask i)) \<le> fst (Mask_Size (net_Mask n)))"

definition NthIP :: "IPNet \<Rightarrow> int \<Rightarrow> IP res" where
  "NthIP i n = IncrementIP (net_IP i) n"

definition ParseCIDR :: "string \<Rightarrow> (IP \<times> IPNet) res" where
  "ParseCIDR c =
     (case net_ParseCIDR c of
        None \<Rightarrow> Err (Errorf (''invalid CIDR address: '' @ c))
      | Some (ip, ipnet) \<Rightarrow> Ok (if To4 ip \<noteq> [] then To4 ip else ip, ipnet))"

definition IPNet_String :: "IPNet \<Rightarrow> string" where
  "IPNet_String i = IPNet_String_net i"

definition IPNet_Network :: "IPNet \<Rightarrow> IPNet option" where
  "IPNet_Network i =
     (case ParseCIDR (IPNet_String i) of Ok (_, n) \<Rightarrow> Some n | _ \<Rightarrow> None)"

definition ParseCIDROrIP :: "string \<Rightarrow> (IP \<times> IPNet) res" where
  "ParseCIDROrIP c =
     (case ParseCIDR c of
        Err e \<Rightarrow>
          (case UnmarshalText c of
             Ok ip \<Rightarrow>
               (let ip' = (if To4 ip \<noteq> [] then To4 ip else ip) in Ok (ip', IP_Network ip'))
           | _ \<Rightarrow> Err e)
      | r \<Rightarrow> r)"

definition NumAddrs :: "IPNet \<Rightarrow> int" where
  "NumAddrs i = (let (ones, bits) = Mask_Size (net_Mask i); zeros = bits - ones in 2 ^ zeros)"

definition MustParseNetwork :: "string \<Rightarrow> IPNet res" where
  "MustParseNetwork c =
     (case ParseCIDR c of
        Ok (_, cidr) \<Rightarrow> Ok cidr | Err e \<Rightarrow> Panic (error_text e) | Panic s \<Rightarrow> Panic s)"

definition MustParseCIDR :: "string \<Rightarrow> IPNet res" where
  "MustParseCIDR c =
     (case ParseCIDR c of
        Ok (ip, cidr) \<Rightarrow> Ok \<lparr>net_IP = ip, net_Mask = net_Mask cidr\<rparr>
      | Err e \<Rightarrow> Panic (error_text e) | Panic s \<Rightarrow> Panic s)"

section \<open>Addresses are numbers\<close>

text \<open>
  The well-formed addresses, the length of the family an address is counted in, and its
  canonical bytes.
\<close>

definition valid_ip :: "IP \<Rightarrow> bool" where
  "valid_ip ip \<longleftrightarrow> length ip = 4 \<or> length ip = 16"

definition ip_len :: "IP \<Rightarrow> nat" where
  "ip_len ip = (if To4 ip = [] then 16 else 4)"

definition ip_norm :: "IP \<Rightarrow> IP" where
  "ip_norm ip = (if To4 ip \<noteq> [] then To4 ip else ip)"

lemma valid_ip_To4_Nil: "valid_ip ip \<Longrightarrow> To4 ip = [] \<Longrightarrow> length ip = 16"
  by (auto simp: valid_ip_def To4_def)

lemma length_ip_norm: "valid_ip ip \<Longrightarrow> length (ip_norm ip) = ip_len ip"
  by (auto simp: ip_norm_def ip_len_def length_To4 valid_ip_To4_Nil)

lemma valid_ip_norm [simp]: "valid_ip ip \<Longrightarrow> valid_ip (ip_norm ip)"
  using length_ip_norm [of ip] by (simp add: valid_ip_def ip_len_def split: if_splits)

lemma ip_norm_idem [simp]: "ip_norm (ip_norm ip) = ip_norm ip"
  by (simp add: ip_norm_def)

lemma ip_len_norm [simp]: "ip_len (ip_norm ip) = ip_len ip"
  by (simp add: ip_norm_def ip_len_def)

lemma IPToBigInt_norm: "valid_ip ip \<Longrightarrow> IPToBigInt ip = SetBytes (ip_norm ip)"
  by (auto simp: IPToBigInt_def ip_norm_def valid_ip_To4_Nil)

lemma IPToBigInt_range:
  assumes "valid_ip ip"
  shows "0 \<le> IPToBigInt ip" and "IPToBigInt ip < 256 ^ ip_len ip"
  using assms SetBytes_less [of "ip_norm ip"] by (auto simp: IPToBigInt_norm length_ip_norm)

lemma To16_norm: "valid_ip ip \<Longrightarrow> To16 (ip_norm ip) = To16 ip"
  by (auto simp: ip_norm_def To16_To4 valid_ip_To4_Nil)

lemma ip_norm_To16 [simp]: "valid_ip ip \<Longrightarrow> ip_norm (To16 ip) = ip_norm ip"
  by (auto simp: ip_norm_def To4_To16 valid_ip_def)

lemma ip_norm_inject:
  assumes "valid_ip a" and "valid_ip b"
  shows "ip_norm a = ip_norm b \<longleftrightarrow> To16 a = To16 b"
proof
  assume "ip_norm a = ip_norm b"
  then show "To16 a = To16 b" using assms by (metis To16_norm)
next
  assume "To16 a = To16 b"
  then show "ip_norm a = ip_norm b" using assms by (metis ip_norm_To16)
qed

lemma IPToBigInt_inject:
  assumes "valid_ip a" and "valid_ip b" and "ip_len a = ip_len b"
  shows "IPToBigInt a = IPToBigInt b \<longleftrightarrow> To16 a = To16 b"
  using assms by (simp add: IPToBigInt_norm SetBytes_inject length_ip_norm ip_norm_inject)

lemma BigIntToIP_Ok:
  assumes "0 \<le> x" and "x < 256 ^ (if v6 then 16 else 4)"
  shows "BigIntToIP x v6 = Ok (int_bytes (if v6 then 16 else 4) x)"
  using assms by (cases v6) (simp_all add: BigIntToIP_def FillBytes_def)

lemma IncrementIP_Ok:
  assumes "0 \<le> IPToBigInt ip + n" and "IPToBigInt ip + n < 256 ^ ip_len ip"
  shows "IncrementIP ip n = Ok (int_bytes (ip_len ip) (IPToBigInt ip + n))"
  using assms BigIntToIP_Ok [of "IPToBigInt ip + n" "To4 ip = []"]
  by (auto simp: IncrementIP_def Let_def ip_len_def)

lemma IncrementIP_Panic:
  assumes "256 ^ ip_len ip \<le> IPToBigInt ip + n"
  shows "IncrementIP ip n = Panic ''math/big: buffer too small to fit value''"
proof -
  have "\<bar>IPToBigInt ip + n\<bar> = IPToBigInt ip + n"
    using assms zero_le_power [of "256 :: int" "ip_len ip"] by linarith
  then show ?thesis
    using assms
    by (cases "To4 ip = []") (simp_all add: IncrementIP_def Let_def BigIntToIP_def FillBytes_def ip_len_def)
qed

lemma SetBytes_int_bytes_id: "0 \<le> x \<Longrightarrow> x < 256 ^ n \<Longrightarrow> SetBytes (int_bytes n x) = x"
  by (simp add: SetBytes_int_bytes)

lemma IPToBigInt_v4 [simp]: "length ip = 4 \<Longrightarrow> IPToBigInt ip = SetBytes ip"
  by (cases ip) (auto simp: IPToBigInt_def)

lemma valid_ip_int_bytes: "valid_ip (int_bytes (ip_len ip) x)"
  by (simp add: valid_ip_def ip_len_def)

text \<open>The number of a sixteen-byte address outside the IPv4-mapped block is that of its bytes.\<close>

lemma IPToBigInt_v6: "length ip = 16 \<Longrightarrow> To4 ip = [] \<Longrightarrow> IPToBigInt ip = SetBytes ip"
  by (simp add: IPToBigInt_def)

section \<open>Networks are aligned intervals\<close>

text \<open>A network of one family whose mask has \<open>k\<close> leading ones.\<close>

definition net_ok :: "IPNet \<Rightarrow> nat \<Rightarrow> bool" where
  "net_ok n k \<longleftrightarrow>
     (length (net_IP n) = 4 \<or> length (net_IP n) = 16 \<and> To4 (net_IP n) = []) \<and>
     k \<le> 8 * length (net_IP n) \<and> net_Mask n = CIDRMask_bytes k (length (net_IP n))"

abbreviation net_bits :: "IPNet \<Rightarrow> nat" where
  "net_bits n \<equiv> 8 * length (net_IP n)"

lemma net_ok_number:
  assumes "net_ok n k"
  shows "networkNumberAndMask n = Some (net_IP n, net_Mask n)"
proof -
  have "To4 (net_IP n) = net_IP n \<or> To4 (net_IP n) = []"
    using assms by (auto simp: net_ok_def)
  then show ?thesis
    using assms by (auto simp: net_ok_def networkNumberAndMask_def Let_def)
qed

lemma net_ok_Mask_Size: "net_ok n k \<Longrightarrow> Mask_Size (net_Mask n) = (k, net_bits n)"
  by (simp add: net_ok_def Mask_Size_def simpleMaskLength_CIDRMask)

lemma minus_mod_eq_iff: "(a :: int) - a mod m = b - b mod m \<longleftrightarrow> a div m = b div m"
  by (cases "m = 0") (simp_all add: minus_mod_eq_mult_div)

lemma net_Contains_iff:
  assumes "net_ok n k"
  shows "IPNet_Contains n ip \<longleftrightarrow>
    length (ip_norm ip) = length (net_IP n) \<and>
    SetBytes (ip_norm ip) div 2 ^ (net_bits n - k) = SetBytes (net_IP n) div 2 ^ (net_bits n - k)"
proof -
  have "map2 (AND) (net_IP n) (net_Mask n) = map2 (AND) x (net_Mask n) \<longleftrightarrow>
      SetBytes x div 2 ^ (net_bits n - k) = SetBytes (net_IP n) div 2 ^ (net_bits n - k)"
    if "length x = length (net_IP n)" for x
  proof -
    have "map2 (AND) (net_IP n) (net_Mask n) = map2 (AND) x (net_Mask n) \<longleftrightarrow>
        SetBytes (map2 (AND) (net_IP n) (net_Mask n)) = SetBytes (map2 (AND) x (net_Mask n))"
      using that assms by (subst SetBytes_inject) (auto simp: net_ok_def)
    also have "\<dots> \<longleftrightarrow> SetBytes x div 2 ^ (net_bits n - k) = SetBytes (net_IP n) div 2 ^ (net_bits n - k)"
      using that assms SetBytes_masked [of k "net_IP n"] SetBytes_masked [of k x]
      by (auto simp: net_ok_def minus_mod_eq_iff)
    finally show ?thesis .
  qed
  then show ?thesis
    using net_ok_number [OF assms] by (auto simp: IPNet_Contains_def ip_norm_def Let_def)
qed

lemma div_coarser: "(a :: int) div 2 ^ j = b div 2 ^ j \<Longrightarrow> j \<le> i \<Longrightarrow> a div 2 ^ i = b div 2 ^ i"
proof -
  assume eq: "a div 2 ^ j = b div 2 ^ j" and "j \<le> i"
  then have p: "(2 :: int) ^ i = 2 ^ j * 2 ^ (i - j)"
    by (simp add: power_add [symmetric])
  then show ?thesis
    using eq by (simp only: p zdiv_zmult2_eq zero_le_power zero_le_numeral)
qed

lemma net_ok_norm: "net_ok n k \<Longrightarrow> ip_norm (net_IP n) = net_IP n"
  by (auto simp: net_ok_def ip_norm_def)

lemma net_Contains_self: "net_ok n k \<Longrightarrow> IPNet_Contains n (net_IP n)"
  by (simp add: net_Contains_iff net_ok_norm)

text \<open>Two networks that share an address: the wider one contains the other's base.\<close>

lemma nets_nested:
  assumes "net_ok i ki" and "net_ok n kn" and "IPNet_Contains i x" and "IPNet_Contains n x"
    and "ki \<le> kn"
  shows "IPNet_Contains n y \<Longrightarrow> IPNet_Contains i y"
proof -
  assume y: "IPNet_Contains n y"
  have len: "length (net_IP n) = length (net_IP i)"
    using assms(1-4) by (simp add: net_Contains_iff)
  have "SetBytes (ip_norm y) div 2 ^ (net_bits n - kn) = SetBytes (ip_norm x) div 2 ^ (net_bits n - kn)"
    using assms y by (simp add: net_Contains_iff)
  then have "SetBytes (ip_norm y) div 2 ^ (net_bits i - ki) = SetBytes (ip_norm x) div 2 ^ (net_bits i - ki)"
    by (rule div_coarser) (use assms(5) len in simp)
  then show ?thesis
    using assms(1,2,3) y len by (simp add: net_Contains_iff)
qed

text \<open>
  (C15) \<open>IsNetOverlap\<close> decides whether two networks have a common address, although it only looks at
  the two base addresses.
\<close>

theorem IsNetOverlap_iff:
  assumes "net_ok i ki" and "net_ok n kn"
  shows "IsNetOverlap i n \<longleftrightarrow> (\<exists>ip. IPNet_Contains i ip \<and> IPNet_Contains n ip)"
proof
  assume "IsNetOverlap i n"
  then show "\<exists>ip. IPNet_Contains i ip \<and> IPNet_Contains n ip"
    using assms net_Contains_self by (auto simp: IsNetOverlap_def)
next
  assume "\<exists>ip. IPNet_Contains i ip \<and> IPNet_Contains n ip"
  then obtain ip where ip: "IPNet_Contains i ip" "IPNet_Contains n ip" by blast
  show "IsNetOverlap i n"
  proof (cases "ki \<le> kn")
    case True
    then show ?thesis
      using nets_nested [OF assms ip] net_Contains_self [OF assms(2)] by (simp add: IsNetOverlap_def)
  next
    case False
    then show ?thesis
      using nets_nested [OF assms(2,1) ip(2,1)] net_Contains_self [OF assms(1)]
      by (simp add: IsNetOverlap_def)
  qed
qed

theorem IsNetOverlap_iff_witness:
  "IsNetOverlap \<lparr>net_IP = [10, 0, 0, 0], net_Mask = CIDRMask_bytes 8 4\<rparr>
     \<lparr>net_IP = [10, 1, 0, 0], net_Mask = CIDRMask_bytes 16 4\<rparr> =
   (\<exists>ip. IPNet_Contains \<lparr>net_IP = [10, 0, 0, 0], net_Mask = CIDRMask_bytes 8 4\<rparr> ip \<and>
         IPNet_Contains \<lparr>net_IP = [10, 1, 0, 0], net_Mask = CIDRMask_bytes 16 4\<rparr> ip)"
  by (rule IsNetOverlap_iff [of _ 8 _ 16]) (simp_all add: net_ok_def eval_nat_numeral)

lemma Covers_subset:
  assumes "net_ok i ki" and "net_ok n kn" and "Covers i n" and "IPNet_Contains n ip"
  shows "IPNet_Contains i ip"
proof -
  have "IPNet_Contains i (net_IP n)" and "ki \<le> kn"
    using assms(1-3) by (auto simp: Covers_def net_ok_Mask_Size split: if_splits)
  then show ?thesis
    using nets_nested [OF assms(1,2) _ net_Contains_self [OF assms(2)]] assms(4) by blast
qed

section \<open>Printing and parsing networks\<close>

lemma dtoi_nat_dec: "dtoi (nat_dec k) = Some k"
proof -
  have "foldl (\<lambda>a c. a * 10 + digit_val c) 0 (nat_dec k) = k"
  proof (induction k rule: nat_dec.induct)
    case (1 n)
    then show ?case by (subst nat_dec.simps) auto
  qed
  then show ?thesis
    using length_nat_dec_pos [of k] by (auto simp: dtoi_def list_all_iff set_nat_dec)
qed

lemma SplitN2_cut: "c \<notin> set a \<Longrightarrow> SplitN2 (a @ c # b) c = [a, b]"
  by (induction a) auto

lemma IP_String_no_slash:
  assumes "valid_ip ip"
  shows "CHR ''/'' \<notin> set (IP_String ip)"
proof (cases "To4 ip = []")
  case True
  then have "length ip = 16" by (rule valid_ip_To4_Nil [OF assms])
  then show ?thesis
    using True v6_string_chars [OF v6_groups_props(2) [of ip], of "CHR ''/''"]
    by (auto simp: IP_String_def is_hex_def hex_val_def)
next
  case False
  have "CHR ''/'' \<notin> set (v4_string bs)" for bs
    unfolding v4_string_def
    by (auto simp: is_digit_def dest!: in_set_JoinD set_nat_dec)
  then show ?thesis
    using False assms by (auto simp: IP_String_def valid_ip_def)
qed

lemma ParseAddr_String:
  assumes "valid_ip ip"
  shows "ParseAddr (IP_String ip) = Some (ip_norm ip)"
proof (cases "To4 ip = []")
  case True
  then have "length ip = 16" by (rule valid_ip_To4_Nil [OF assms])
  then show ?thesis
    using True v6_groups_props [of ip]
    by (auto simp: IP_String_def ip_norm_def ParseAddr_v6_string)
next
  case False
  then show ?thesis
    using assms length_To4 [OF False]
    by (auto simp: IP_String_def ip_norm_def ParseAddr_v4_string valid_ip_def)
qed

lemma ParseIP_IP_String: "valid_ip ip \<Longrightarrow> ParseIP (IP_String ip) = Some (ip_norm ip)"
  using length_To16 [of ip] ip_norm_To16 [of ip]
  by (auto simp: ParseIP_def net_ParseIP_String valid_ip_def Let_def ip_norm_def)

lemma IP_Mask_To16:
  assumes "valid_ip b" and "ip_norm b = b" and "k \<le> 8 * length b"
  shows "IP_Mask (To16 b) (CIDRMask k (8 * length b)) = map2 (AND) b (CIDRMask_bytes k (length b))"
  using assms by (auto simp: IP_Mask_def CIDRMask_def valid_ip_def To16_def)

lemma map2_AND_idem: "length bs = length ms \<Longrightarrow> map2 (AND) (map2 (AND) bs ms) ms = map2 (AND) bs (ms :: 8 word list)"
  by (induction bs ms rule: list_induct2) auto

text \<open>
  \<open>cnet.ParseCIDR\<close> reads back the printed form of every masked network.
\<close>

theorem ParseCIDR_String:
  assumes "net_ok n k" and "map2 (AND) (net_IP n) (net_Mask n) = net_IP n"
  shows "ParseCIDR (IPNet_String n) = Ok (net_IP n, n)"
proof -
  have v: "valid_ip (net_IP n)" and nm: "ip_norm (net_IP n) = net_IP n"
    using assms(1) by (auto simp: net_ok_def valid_ip_def net_ok_norm)
  have s: "IPNet_String n = IP_String (net_IP n) @ CHR ''/'' # nat_dec k"
    using assms(1) by (simp add: IPNet_String_def IPNet_String_net_def net_ok_number)
      (simp add: net_ok_def simpleMaskLength_CIDRMask)
  have "SplitN2 (IPNet_String n) CHR ''/'' = [IP_String (net_IP n), nat_dec k]"
    unfolding s by (rule SplitN2_cut [OF IP_String_no_slash [OF v]])
  then have "net_ParseCIDR (IPNet_String n) = Some (To16 (net_IP n), n)"
    using assms v nm IP_Mask_To16 [OF v nm, of k]
    by (simp add: net_ParseCIDR_def ParseAddr_String dtoi_nat_dec Let_def net_ok_def CIDRMask_def)
  moreover have "(if To4 (To16 (net_IP n)) \<noteq> [] then To4 (To16 (net_IP n)) else To16 (net_IP n)) = net_IP n"
    using ip_norm_To16 [OF v] nm by (simp add: ip_norm_def)
  ultimately show ?thesis by (simp add: ParseCIDR_def)
qed

theorem ParseCIDR_String_witness:
  "ParseCIDR (IPNet_String \<lparr>net_IP = [10, 1, 0, 0], net_Mask = CIDRMask_bytes 16 4\<rparr>) =
     Ok ([10, 1, 0, 0], \<lparr>net_IP = [10, 1, 0, 0], net_Mask = CIDRMask_bytes 16 4\<rparr>)"
  using ParseCIDR_String [of "\<lparr>net_IP = [10, 1, 0, 0], net_Mask = CIDRMask_bytes 16 4\<rparr>" 16]
  by (simp add: net_ok_def eval_nat_numeral)

end
