(* ===== verification/IPRange.thy ===== *)
theory IPRange
  imports CNet
begin

text \<open>
  Ranges of addresses: \<open>pkg/util/iprange\<close> (\<open>range.go\<close>, \<open>parse.go\<close>, \<open>pool.go\<close>).

  The interface \<open>Range\<close> and its two implementations are the datatype \<open>Range\<close>; a nil interface
  value is \<open>None\<close>. The dependency \<open>cidr.AddressRange\<close> (\<open>github.com/apparentlymart/go-cidr\<close>) is
  the parameter \<open>AR\<close> of the parsers; \<open>address_range AR\<close> states what its documentation promises,
  the first and the last address of a network.

  The locale \<open>ip_range\<close> is the contract of the interface: its clients \<open>Pool\<close> count and search
  through it. It is interpreted for the methods of both implementations. The parser lemmas
  show which addresses the accepted strings denote: a CIDR range is the whole network.
\<close>

section \<open>\<open>range.go\<close>\<close>

datatype Family = V4Family | V6Family

datatype Range =
    v4Range (r_start: IP) (r_end: IP)
  | v6Range (r_start: IP) (r_end: IP)

text \<open>\<open>bytes.Compare\<close>: lexicographic, a proper prefix is less.\<close>

fun bytes_Compare :: "8 word list \<Rightarrow> 8 word list \<Rightarrow> int" where
  "bytes_Compare [] [] = 0"
| "bytes_Compare [] (_ # _) = - 1"
| "bytes_Compare (_ # _) [] = 1"
| "bytes_Compare (a # as) (b # bs) =
     (if a < b then - 1 else if b < a then 1 else bytes_Compare as bs)"

definition isV4IP :: "IP \<Rightarrow> bool" where
  "isV4IP ip \<longleftrightarrow> To4 ip \<noteq> []"

definition isV6IP :: "IP \<Rightarrow> bool" where
  "isV6IP ip \<longleftrightarrow> \<not> isV4IP ip \<and> To16 ip \<noteq> []"

definition isV4RangeValid :: "IP \<Rightarrow> IP \<Rightarrow> bool" where
  "isV4RangeValid s e \<longleftrightarrow> isV4IP s \<and> isV4IP e \<and> bytes_Compare e s \<ge> 0"

definition isV6RangeValid :: "IP \<Rightarrow> IP \<Rightarrow> bool" where
  "isV6RangeValid s e \<longleftrightarrow> isV6IP s \<and> isV6IP e \<and> bytes_Compare e s \<ge> 0"

definition New :: "IP \<Rightarrow> IP \<Rightarrow> Range option" where
  "New s e =
     (if isV4RangeValid s e then Some (v4Range s e)
      else if isV6RangeValid s e then Some (v6Range s e)
      else None)"

text \<open>The methods of the two implementations, and the dynamic dispatch of the interface.\<close>

definition v4Range_Contains :: "IP \<Rightarrow> IP \<Rightarrow> IP \<Rightarrow> bool" where
  [simp]: "v4Range_Contains s e ip \<longleftrightarrow> bytes_Compare ip s \<ge> 0 \<and> bytes_Compare ip e \<le> 0"

definition v6Range_Contains :: "IP \<Rightarrow> IP \<Rightarrow> IP \<Rightarrow> bool" where
  [simp]: "v6Range_Contains s e ip \<longleftrightarrow> bytes_Compare ip s \<ge> 0 \<and> bytes_Compare ip e \<le> 0"

text \<open>The index expressions panic on an address that is not IPv4.\<close>

definition v4ToInt :: "IP \<Rightarrow> int res" where
  "v4ToInt ip =
     (case To4 ip of
        [a, b, c, d] \<Rightarrow>
          Ok (push_bit 24 (uint a) OR push_bit 16 (uint b) OR push_bit 8 (uint c) OR uint d)
      | _ \<Rightarrow> Panic ''index out of range'')"

definition v4Range_Size :: "IP \<Rightarrow> IP \<Rightarrow> int res" where
  [simp]: "v4Range_Size s e =
     bind_res (v4ToInt e) (\<lambda>y. bind_res (v4ToInt s) (\<lambda>x. Ok (y - x + 1)))"

definition v6Range_Size :: "IP \<Rightarrow> IP \<Rightarrow> int res" where
  [simp]: "v6Range_Size s e = Ok (0 + SetBytes e - SetBytes s + 1)"

definition v4Range_String :: "IP \<Rightarrow> IP \<Rightarrow> string" where
  [simp]: "v4Range_String s e = IP_String s @ ''-'' @ IP_String e"

definition v6Range_String :: "IP \<Rightarrow> IP \<Rightarrow> string" where
  [simp]: "v6Range_String s e = IP_String s @ ''-'' @ IP_String e"

fun Range_Family :: "Range \<Rightarrow> Family" where
  "Range_Family (v4Range _ _) = V4Family"
| "Range_Family (v6Range _ _) = V6Family"

fun Range_Contains :: "Range \<Rightarrow> IP \<Rightarrow> bool" where
  "Range_Contains (v4Range s e) ip = v4Range_Contains s e ip"
| "Range_Contains (v6Range s e) ip = v6Range_Contains s e ip"

fun Range_Size :: "Range \<Rightarrow> int res" where
  "Range_Size (v4Range s e) = v4Range_Size s e"
| "Range_Size (v6Range s e) = v6Range_Size s e"

fun Range_String :: "Range \<Rightarrow> string" where
  "Range_String (v4Range s e) = v4Range_String s e"
| "Range_String (v6Range s e) = v6Range_String s e"

section \<open>\<open>parse.go\<close>\<close>

definition re_addr_char :: "char \<Rightarrow> bool" where
  "re_addr_char c \<longleftrightarrow>
     is_digit c \<or> (97 \<le> (of_char c :: nat) \<and> (of_char c :: nat) \<le> 102) \<or> c = CHR ''.'' \<or> c = CHR '':''"

definition reRange :: "string \<Rightarrow> bool" where
  "reRange s \<longleftrightarrow> s \<noteq> [] \<and> list_all (\<lambda>c. re_addr_char c \<or> c = CHR ''-'') s"

definition reCIDR :: "string \<Rightarrow> bool" where
  "reCIDR s \<longleftrightarrow>
     (case Split s CHR ''/'' of
        [a, m] \<Rightarrow> a \<noteq> [] \<and> list_all re_addr_char a \<and>
                  1 \<le> length m \<and> length m \<le> 3 \<and> list_all is_digit m
      | _ \<Rightarrow> False)"

definition reSubnetMask :: "string \<Rightarrow> bool" where
  "reSubnetMask s \<longleftrightarrow>
     (case Split s CHR ''/'' of
        [a, m] \<Rightarrow> a \<noteq> [] \<and> list_all (\<lambda>c. is_digit c \<or> c = CHR ''.'') a \<and>
                  7 \<le> length m \<and> list_all (\<lambda>c. is_digit c \<or> c = CHR ''.'') m
      | _ \<Rightarrow> False)"

definition parseRange :: "string \<Rightarrow> Range option" where
  "parseRange s =
     (case SplitN2 s CHR ''-'' of
        [a, b] \<Rightarrow> New (net_ParseIP a) (net_ParseIP b)
      | _ \<Rightarrow> New (net_ParseIP s) (net_ParseIP s))"

definition parseCIDR :: "(IPNet \<Rightarrow> IP \<times> IP) \<Rightarrow> string \<Rightarrow> Range option" where
  "parseCIDR AR s =
     (case net_ParseCIDR s of
        None \<Rightarrow> None
      | Some (_, network) \<Rightarrow>
          (let (s', e') = AR network in parseRange (IP_String s' @ ''-'' @ IP_String e')))"

text \<open>\<open>strings.LastIndexByte(s, '/')\<close> and the two slices around it.\<close>

definition cut_last :: "string \<Rightarrow> char \<Rightarrow> (string \<times> string) option" where
  "cut_last s c =
     (if c \<in> set s
      then Some (Join (butlast (Split s c)) [c], last (Split s c)) else None)"

definition parseSubnetMask :: "(IPNet \<Rightarrow> IP \<times> IP) \<Rightarrow> string \<Rightarrow> Range option" where
  "parseSubnetMask AR s =
     (case cut_last s CHR ''/'' of
        None \<Rightarrow> None
      | Some (address, msk) \<Rightarrow>
          (let ip = To4 (net_ParseIP msk) in
           if ip = [] then None
           else
             (let (prefixLen, bits) = Mask_Size ip in
              if prefixLen + bits = 0 then None
              else parseCIDR AR (address @ ''/'' @ nat_dec prefixLen))))"

definition ParseRange :: "(IPNet \<Rightarrow> IP \<times> IP) \<Rightarrow> string \<Rightarrow> Range option res" where
  "ParseRange AR s0 =
     (let s = ToLower s0 in
      if s = [] then Ok None
      else
        (let r = (if reRange s then parseRange s
                  else if reCIDR s then parseCIDR AR s
                  else if reSubnetMask s then parseSubnetMask AR s
                  else None) in
         case r of
           None \<Rightarrow> Err (Errorf (''ip range ('' @ s @ '') invalid syntax''))
         | Some x \<Rightarrow> Ok (Some x)))"

text \<open>\<open>strings.Fields\<close> on ASCII.\<close>

definition is_space :: "char \<Rightarrow> bool" where
  "is_space c \<longleftrightarrow> (of_char c :: nat) \<in> {9, 10, 11, 12, 13, 32}"

fun Fields_acc :: "string \<Rightarrow> string \<Rightarrow> string list" where
  "Fields_acc [] w = (if w = [] then [] else [rev w])"
| "Fields_acc (c # s) w =
     (if is_space c then (if w = [] then Fields_acc s [] else rev w # Fields_acc s [])
      else Fields_acc s (c # w))"

definition Fields :: "string \<Rightarrow> string list" where
  "Fields s = Fields_acc s []"

fun ParseRanges_loop ::
    "(IPNet \<Rightarrow> IP \<times> IP) \<Rightarrow> string list \<Rightarrow> Range list \<Rightarrow> Range list res" where
  "ParseRanges_loop AR [] ranges = Ok ranges"
| "ParseRanges_loop AR (v # parts) ranges =
     (case ParseRange AR v of
        Ok None \<Rightarrow> ParseRanges_loop AR parts ranges
      | Ok (Some r) \<Rightarrow> ParseRanges_loop AR parts (ranges @ [r])
      | Err e \<Rightarrow> Err e
      | Panic p \<Rightarrow> Panic p)"

definition ParseRanges :: "(IPNet \<Rightarrow> IP \<times> IP) \<Rightarrow> string \<Rightarrow> Range list res" where
  "ParseRanges AR s = ParseRanges_loop AR (Fields s) []"

section \<open>\<open>pool.go\<close>\<close>

type_synonym Pool = "Range list"

definition TrimSpace :: "string \<Rightarrow> string" where
  "TrimSpace s = rev (dropWhile is_space (rev (dropWhile is_space s)))"

definition Pool_String :: "Pool \<Rightarrow> string" where
  "Pool_String p = TrimSpace (concat (map (\<lambda>r. Range_String r @ '' '') p))"

fun Pool_Size_loop :: "Pool \<Rightarrow> int \<Rightarrow> int res" where
  "Pool_Size_loop [] sz = Ok sz"
| "Pool_Size_loop (r # p) sz = bind_res (Range_Size r) (\<lambda>n. Pool_Size_loop p (sz + n))"

definition Pool_Size :: "Pool \<Rightarrow> int res" where
  "Pool_Size p = Pool_Size_loop p 0"

fun Pool_Contains :: "Pool \<Rightarrow> IP \<Rightarrow> bool" where
  "Pool_Contains [] ip = False"
| "Pool_Contains (r # p) ip = (if Range_Contains r ip then True else Pool_Contains p ip)"

section \<open>Ranges are intervals of numbers\<close>

lemma bytes_Compare_sgn:
  "length a = length b \<Longrightarrow> bytes_Compare a b = sgn (SetBytes a - SetBytes b)"
proof (induction a b rule: list_induct2)
  case (Cons x xs y ys)
  have lt: "SetBytes (x # xs) < SetBytes (y # ys)"
    if "x < y" "length xs = length ys" for x y :: "8 word" and xs ys
  proof -
    have "uint x + 1 \<le> uint y" using that(1) by (simp add: word_less_def)
    then have "(uint x + 1) * 256 ^ length ys \<le> uint y * 256 ^ length ys"
      by (rule mult_right_mono) simp
    then show ?thesis
      using SetBytes_less [of xs] SetBytes_nonneg [of ys] that(2)
      by (simp only: SetBytes_Cons ring_distribs)
  qed
  show ?case
  proof (cases x y rule: linorder_cases)
    case less
    then have "SetBytes (x # xs) < SetBytes (y # ys)" using Cons(1) by (rule lt)
    then show ?thesis using less by simp
  next
    case equal
    then show ?thesis using Cons by (simp add: SetBytes_Cons)
  next
    case greater
    then have "SetBytes (y # ys) < SetBytes (x # xs)" using Cons(1) [symmetric] by (rule lt)
    then show ?thesis using greater by simp
  qed
qed simp

lemma push_bits_disjoint: "8 + i \<le> j \<Longrightarrow> push_bit j x AND push_bit i (uint (b :: 8 word)) = 0"
proof -
  assume le: "8 + i \<le> j"
  have "\<not> bit b (n - i)" if "j \<le> n" for n
    using le that by (intro impossible_bit) (simp add: not_less)
  then show ?thesis
    by (auto simp: bit_eq_iff bit_simps)
qed

lemma v4ToInt_SetBytes:
  assumes "To4 ip \<noteq> []"
  shows "v4ToInt ip = Ok (SetBytes (To4 ip))"
proof -
  obtain a b c d where l: "To4 ip = [a, b, c, d]"
    using length_To4 [OF assms] by (auto simp: numeral_eq_Suc length_Suc_conv)
  have "push_bit 24 (uint a) OR push_bit 16 (uint b) OR push_bit 8 (uint c) OR uint d =
      push_bit 24 (uint a) + (push_bit 16 (uint b) + (push_bit 8 (uint c) + uint d))"
  proof -
    have "push_bit 8 (uint c) OR uint d = push_bit 8 (uint c) + uint d"
      using push_bits_disjoint [of 0 8 "uint c" d] by (simp add: disjunctive_add_eq_or)
    moreover have "push_bit 16 (uint b) AND (push_bit 8 (uint c) OR uint d) = 0"
      using push_bits_disjoint [of 0 16 "uint b" d] push_bits_disjoint [of 8 16 "uint b" c]
      by (simp add: bit.conj_disj_distrib)
    moreover have "push_bit 24 (uint a) AND (push_bit 16 (uint b) OR push_bit 8 (uint c) OR uint d) = 0"
      using push_bits_disjoint [of 0 24 "uint a" d] push_bits_disjoint [of 8 24 "uint a" c]
        push_bits_disjoint [of 16 24 "uint a" b]
      by (simp add: bit.conj_disj_distrib)
    ultimately show ?thesis
      by (simp add: disjunctive_add_eq_or)
  qed
  then show ?thesis
    by (simp add: v4ToInt_def l SetBytes_def push_bit_eq_mult)
qed

fun range_wf :: "Range \<Rightarrow> bool" where
  "range_wf (v4Range s e) \<longleftrightarrow>
     length s = 16 \<and> length e = 16 \<and> To4 s \<noteq> [] \<and> To4 e \<noteq> [] \<and> SetBytes s \<le> SetBytes e"
| "range_wf (v6Range s e) \<longleftrightarrow>
     length s = 16 \<and> length e = 16 \<and> To4 s = [] \<and> To4 e = [] \<and> SetBytes s \<le> SetBytes e"

lemma To4_mapped: "length ip = 16 \<Longrightarrow> To4 ip \<noteq> [] \<Longrightarrow> ip = v4InV6Prefix @ To4 ip"
  by (auto simp: To4_def split: if_splits) (metis append_take_drop_id)

lemma SetBytes_mapped_diff:
  assumes "length a = 16" "To4 a \<noteq> []" "length b = 16" "To4 b \<noteq> []"
  shows "SetBytes (To4 a) - SetBytes (To4 b) = SetBytes a - SetBytes b"
  using To4_mapped [OF assms(1,2)] To4_mapped [OF assms(3,4)] assms
  by (metis SetBytes_append add_diff_cancel_left length_To4)

definition addrs :: "('r \<Rightarrow> IP \<Rightarrow> bool) \<Rightarrow> 'r \<Rightarrow> IP set" where
  "addrs contains r = {ip. length ip = 16 \<and> contains r ip}"

text \<open>
  The contract of the interface \<open>Range\<close>, on the sixteen-byte addresses that \<open>net.ParseIP\<close> returns.
\<close>

locale ip_range =
  fixes first :: "'r \<Rightarrow> IP"
    and final :: "'r \<Rightarrow> IP"
    and contains :: "'r \<Rightarrow> IP \<Rightarrow> bool"
    and sz :: "'r \<Rightarrow> int res"
    and wf :: "'r \<Rightarrow> bool"
  assumes len: "wf r \<Longrightarrow> length (first r) = 16 \<and> length (final r) = 16"
    and ordered: "wf r \<Longrightarrow> SetBytes (first r) \<le> SetBytes (final r)"
    and contains_iff: "wf r \<Longrightarrow> length ip = 16 \<Longrightarrow>
          contains r ip \<longleftrightarrow> SetBytes (first r) \<le> SetBytes ip \<and> SetBytes ip \<le> SetBytes (final r)"
    and sz: "wf r \<Longrightarrow> sz r = Ok (SetBytes (final r) - SetBytes (first r) + 1)"
begin

lemma image_addrs:
  assumes "wf r"
  shows "SetBytes ` addrs contains r = {SetBytes (first r)..SetBytes (final r)}"
proof (intro set_eqI iffI)
  fix x
  assume x: "x \<in> {SetBytes (first r)..SetBytes (final r)}"
  have "0 \<le> x" using x order_trans [OF SetBytes_nonneg [of "first r"]] by simp
  moreover have "x < 256 ^ 16"
    using x SetBytes_less [of "final r"] len [OF assms] by auto
  ultimately have "SetBytes (int_bytes 16 x) = x"
    by (rule SetBytes_int_bytes_id)
  then have "int_bytes 16 x \<in> addrs contains r"
    using x assms by (simp add: addrs_def contains_iff)
  with \<open>SetBytes (int_bytes 16 x) = x\<close> show "x \<in> SetBytes ` addrs contains r"
    by (metis imageI)
qed (use assms in \<open>auto simp: addrs_def contains_iff\<close>)

lemma inj_addrs: "inj_on SetBytes (addrs contains r)"
  by (auto intro!: inj_onI simp: addrs_def SetBytes_inject)

lemma finite_addrs: "wf r \<Longrightarrow> finite (addrs contains r)"
  using image_addrs inj_addrs by (metis finite_imageD finite_atLeastAtMost_int)

lemma sz_card: "wf r \<Longrightarrow> sz r = Ok (int (card (addrs contains r)))"
  using image_addrs [of r] card_image [OF inj_addrs, of r] ordered [of r]
  by (simp add: sz)

lemma ends_in: "wf r \<Longrightarrow> contains r (first r) \<and> contains r (final r)"
  by (simp add: contains_iff len ordered)

end

interpretation rng: ip_range r_start r_end Range_Contains Range_Size range_wf
proof
  fix r :: Range and ip :: IP
  assume wf: "range_wf r"
  show "length (r_start r) = 16 \<and> length (r_end r) = 16" "SetBytes (r_start r) \<le> SetBytes (r_end r)"
    using wf by (cases r; simp)+
  show "Range_Size r = Ok (SetBytes (r_end r) - SetBytes (r_start r) + 1)"
    using wf by (cases r) (simp_all add: v4ToInt_SetBytes SetBytes_mapped_diff)
  assume "length ip = 16"
  with wf show "Range_Contains r ip \<longleftrightarrow> SetBytes (r_start r) \<le> SetBytes ip \<and> SetBytes ip \<le> SetBytes (r_end r)"
    by (cases r) (auto simp: bytes_Compare_sgn sgn_if)
qed

lemma New_Some:
  assumes "New s e = Some r" and "length s = 16" and "length e = 16"
  shows "range_wf r \<and> r_start r = s \<and> r_end r = e"
  using assms
  by (auto simp: New_def isV4RangeValid_def isV6RangeValid_def isV4IP_def isV6IP_def
      bytes_Compare_sgn sgn_if split: if_splits)

lemma New_total:
  assumes "length s = 16" and "length e = 16" and "(To4 s = []) = (To4 e = [])"
    and "SetBytes s \<le> SetBytes e"
  shows "\<exists>r. New s e = Some r"
proof -
  have "To16 s \<noteq> []" "To16 e \<noteq> []" using assms(1,2) by auto
  then show ?thesis
    using assms
    by (auto simp: New_def isV4RangeValid_def isV6RangeValid_def isV4IP_def isV6IP_def
      bytes_Compare_sgn sgn_if)
qed

lemma length_net_ParseIP: "net_ParseIP s = [] \<or> length (net_ParseIP s) = 16"
  by (auto simp: net_ParseIP_def To16_def split: option.splits)

lemma New_nil [simp]: "New [] e = None" "New s [] = None"
  by (auto simp: New_def isV4RangeValid_def isV6RangeValid_def isV4IP_def isV6IP_def)

lemma New_ParseIP_wf: "New (net_ParseIP a) (net_ParseIP b) = Some r \<Longrightarrow> range_wf r"
  using length_net_ParseIP [of a] length_net_ParseIP [of b] New_Some [of "net_ParseIP a" "net_ParseIP b" r]
  by auto

lemma parseRange_wf: "parseRange s = Some r \<Longrightarrow> range_wf r"
  by (auto simp: parseRange_def split: list.splits intro: New_ParseIP_wf)

lemma parseCIDR_wf: "parseCIDR AR s = Some r \<Longrightarrow> range_wf r"
  by (auto simp: parseCIDR_def Let_def split: option.splits prod.splits intro: parseRange_wf)

lemma parseSubnetMask_wf: "parseSubnetMask AR s = Some r \<Longrightarrow> range_wf r"
  by (auto simp: parseSubnetMask_def Let_def split: option.splits prod.splits if_splits
      intro: parseCIDR_wf)

lemma ParseRange_wf: "ParseRange AR s = Ok (Some r) \<Longrightarrow> range_wf r"
  by (auto simp: ParseRange_def Let_def split: option.splits if_splits
      intro: parseRange_wf parseCIDR_wf parseSubnetMask_wf)

lemma ParseRange_no_Panic: "ParseRange AR s \<noteq> Panic p"
  by (simp add: ParseRange_def Let_def split: option.split)

lemma ParseRange_None: "ParseRange AR s = Ok None \<longleftrightarrow> s = []"
  by (auto simp: ParseRange_def Let_def ToLower_def split: option.split)

section \<open>What the parsers accept\<close>

text \<open>
  \<open>cidr.AddressRange\<close> returns the first and the last address of a network.
\<close>

definition net_masked :: "IPNet \<Rightarrow> bool" where
  "net_masked n \<longleftrightarrow> map2 (AND) (net_IP n) (net_Mask n) = net_IP n"

definition address_range :: "(IPNet \<Rightarrow> IP \<times> IP) \<Rightarrow> bool" where
  "address_range AR \<longleftrightarrow>
     (\<forall>n k. net_ok n k \<longrightarrow> net_masked n \<longrightarrow>
        (case AR n of (a, b) \<Rightarrow>
           a = net_IP n \<and> length b = length (net_IP n) \<and>
           SetBytes b = SetBytes (net_IP n) + 2 ^ (net_bits n - k) - 1))"

lemma SplitN2_none: "c \<notin> set s \<Longrightarrow> SplitN2 s c = [s]"
  by (induction s) auto

lemma IP_String_no_dash:
  assumes "valid_ip ip"
  shows "CHR ''-'' \<notin> set (IP_String ip)"
proof (cases "To4 ip = []")
  case True
  then have "length ip = 16" by (rule valid_ip_To4_Nil [OF assms])
  then show ?thesis
    using True v6_string_chars [OF v6_groups_props(2) [of ip], of "CHR ''-''"]
    by (auto simp: IP_String_def is_hex_def hex_val_def)
next
  case False
  have "CHR ''-'' \<notin> set (v4_string bs)" for bs
    unfolding v4_string_def
    by (auto simp: is_digit_def dest!: in_set_JoinD set_nat_dec)
  then show ?thesis
    using False assms by (auto simp: IP_String_def valid_ip_def)
qed

lemma parseRange_dash:
  assumes "valid_ip a" and "valid_ip b"
  shows "parseRange (IP_String a @ ''-'' @ IP_String b) = New (To16 a) (To16 b)"
  using assms SplitN2_cut [OF IP_String_no_dash [OF assms(1)], of "IP_String b"]
  by (simp add: parseRange_def net_ParseIP_String valid_ip_def)

lemma parseRange_single:
  assumes "valid_ip a"
  shows "parseRange (IP_String a) = New (To16 a) (To16 a)"
  using assms SplitN2_none [OF IP_String_no_dash [OF assms]]
  by (simp add: parseRange_def net_ParseIP_String valid_ip_def)

text \<open>
  (C16) Parsing the printed form of a range, IPv4 or IPv6, gives the range back.
\<close>

theorem parseRange_String:
  assumes "range_wf r"
  shows "parseRange (Range_String r) = Some r"
  using assms parseRange_dash [of "r_start r" "r_end r"]
  by (cases r)
    (auto simp: valid_ip_def New_def isV4RangeValid_def isV6RangeValid_def
      isV4IP_def isV6IP_def bytes_Compare_sgn sgn_if)

theorem parseRange_String_witness:
  "parseRange (Range_String (v4Range (v4InV6Prefix @ [10, 0, 0, 1]) (v4InV6Prefix @ [10, 0, 0, 9]))) =
     Some (v4Range (v4InV6Prefix @ [10, 0, 0, 1]) (v4InV6Prefix @ [10, 0, 0, 9]))"
  by (rule parseRange_String) (simp add: To4_def SetBytes_def v4InV6Prefix_def)

lemma map2_AND_CIDR_idem: "map2 (AND) (map2 (AND) bs (CIDRMask_bytes k (length bs))) (CIDRMask_bytes k (length bs))
   = map2 (AND) bs (CIDRMask_bytes k (length bs))"
  by (rule map2_AND_idem) simp

lemma net_ParseCIDR_network:
  assumes "net_ParseCIDR s = Some (ip, n)" and "length (net_IP n) = 4 \<or> To4 (net_IP n) = []"
  shows "\<exists>k. net_ok n k \<and> net_masked n"
proof -
  obtain b k where b: "length b = 4 \<or> length b = 16" "k \<le> 8 * length b"
    and n: "n = \<lparr>net_IP = IP_Mask (To16 b) (CIDRMask k (8 * length b)),
                net_Mask = CIDRMask k (8 * length b)\<rparr>"
    using assms(1)
    by (auto simp: net_ParseCIDR_def Let_def not_less dest: length_ParseAddr
        split: list.splits option.splits if_splits)
  then have "n = \<lparr>net_IP = map2 (AND) b (CIDRMask_bytes k (length b)),
                  net_Mask = CIDRMask_bytes k (length b)\<rparr>"
    by (auto simp: IP_Mask_def To16_def CIDRMask_def)
  then have "net_ok n k \<and> net_masked n"
    using b assms(2) by (auto simp: net_ok_def net_masked_def map2_AND_CIDR_idem)
  then show ?thesis by blast
qed

lemma SetBytes_To16_diff:
  assumes "length a = length b" and "valid_ip a"
  shows "SetBytes (To16 a) - SetBytes (To16 b) = SetBytes a - SetBytes b"
  using assms by (auto simp: valid_ip_def To16_def SetBytes_append)

lemma net_masked_dvd:
  assumes "net_ok n k" and "net_masked n"
  shows "2 ^ (net_bits n - k) dvd SetBytes (net_IP n)"
proof -
  have "SetBytes (net_IP n) = SetBytes (net_IP n) - SetBytes (net_IP n) mod 2 ^ (net_bits n - k)"
    using SetBytes_masked [of k "net_IP n"] assms by (simp add: net_ok_def net_masked_def)
  then have "SetBytes (net_IP n) mod 2 ^ (net_bits n - k) = 0" by linarith
  then show ?thesis by (rule dvd_eq_mod_eq_0 [THEN iffD2])
qed

lemma div_aligned_iff:
  assumes "(d :: int) dvd a" and "0 < d"
  shows "x div d = a div d \<longleftrightarrow> a \<le> x \<and> x \<le> a + d - 1"
proof -
  obtain q where q: "a = d * q" using assms(1) by blast
  have "x div d = q \<longleftrightarrow> d * q \<le> x \<and> x \<le> d * q + d - 1"
  proof
    assume "x div d = q"
    then have "d * q + x mod d = x" by (metis mult_div_mod_eq)
    then show "d * q \<le> x \<and> x \<le> d * q + d - 1"
      using pos_mod_bound [OF assms(2), of x] pos_mod_sign [OF assms(2), of x] by linarith
  next
    assume "d * q \<le> x \<and> x \<le> d * q + d - 1"
    then show "x div d = q"
      by (intro int_div_pos_eq [of x d q "x - d * q"]) auto
  qed
  then show ?thesis using q assms(2) by simp
qed

text \<open>The range \<open>parseCIDR\<close> returns is the network.\<close>

lemma parseCIDR_range:
  assumes "address_range AR" and "net_ParseCIDR s = Some (ip, n)"
    and "length (net_IP n) = 4 \<or> To4 (net_IP n) = [] \<and> To4 (snd (AR n)) = []"
  shows "\<exists>r. parseCIDR AR s = Some r \<and> Range_Size r = Ok (NumAddrs n) \<and>
    (\<forall>x. length x = 16 \<longrightarrow> ip_len x = length (net_IP n) \<longrightarrow> Range_Contains r x = IPNet_Contains n x)"
proof -
  obtain k where n: "net_ok n k" "net_masked n"
    using net_ParseCIDR_network [OF assms(2)] assms(3) by blast
  obtain a b where AR: "AR n = (a, b)" by force
  have ab: "a = net_IP n" "length b = length (net_IP n)"
      "SetBytes b = SetBytes (net_IP n) + 2 ^ (net_bits n - k) - 1"
    using assms(1) n AR unfolding address_range_def by fastforce+
  have v: "valid_ip a" "valid_ip b"
    using n(1) ab by (auto simp: net_ok_def valid_ip_def)
  have "(1 :: int) \<le> 2 ^ (net_bits n - k)" by simp
  then have le: "SetBytes (To16 a) \<le> SetBytes (To16 b)"
    using SetBytes_To16_diff [OF ab(2) v(2)] ab(3) unfolding ab(1) by linarith
  have "(To4 (To16 a) = []) = (To4 (To16 b) = [])"
  proof (cases "length (net_IP n) = 4")
    case True
    then have "length b = 4" "length (net_IP n) = 4" using ab by simp_all
    then show ?thesis using ab To4_To16 [of a] To4_To16 [of b] by auto
  next
    case False
    then show ?thesis
      using assms(3) ab AR v To4_To16 [of a] To4_To16 [of b] by (simp add: valid_ip_def)
  qed
  then obtain r where r: "New (To16 a) (To16 b) = Some r"
    using New_total [of "To16 a" "To16 b"] le v length_To16 by (auto simp: valid_ip_def)
  then have rw: "range_wf r" "r_start r = To16 a" "r_end r = To16 b"
    using New_Some [OF r] v length_To16 by (auto simp: valid_ip_def)
  have "parseCIDR AR s = Some r"
    using assms(2) AR r v by (simp add: parseCIDR_def parseRange_dash del: append.simps)
  moreover have "Range_Size r = Ok (NumAddrs n)"
    using rng.sz [OF rw(1)] rw SetBytes_To16_diff [of b a] ab v net_ok_Mask_Size [OF n(1)]
    by (simp add: NumAddrs_def)
  moreover have "Range_Contains r x = IPNet_Contains n x"
    if x: "length x = 16" "ip_len x = length (net_IP n)" for x
  proof -
    have nx: "length (ip_norm x) = length (net_IP n)" and tx: "To16 (ip_norm x) = x"
      using x length_ip_norm [of x] To16_norm [of x] by (simp_all add: valid_ip_def)
    have "Range_Contains r x \<longleftrightarrow>
        SetBytes (net_IP n) \<le> SetBytes (ip_norm x) \<and>
        SetBytes (ip_norm x) \<le> SetBytes (net_IP n) + 2 ^ (net_bits n - k) - 1"
      using rng.contains_iff [OF rw(1) x(1)] rw(2,3) ab v nx tx
        SetBytes_To16_diff [of "ip_norm x" a] SetBytes_To16_diff [of b "ip_norm x"]
      by (simp add: valid_ip_def) linarith
    also have "\<dots> \<longleftrightarrow> IPNet_Contains n x"
      using net_Contains_iff [OF n(1)] div_aligned_iff [OF net_masked_dvd [OF n]] nx by simp
    finally show ?thesis .
  qed
  ultimately show ?thesis by blast
qed

lemma net_Contains_number:
  assumes "net_ParseCIDR s = Some (ip, n)" and "length (net_IP n) = 4 \<or> To4 (net_IP n) = []"
    and "length x = 16" and "ip_len x = length (net_IP n)"
  shows "IPNet_Contains n x \<longleftrightarrow>
    IPToBigInt (net_IP n) \<le> IPToBigInt x \<and> IPToBigInt x < IPToBigInt (net_IP n) + NumAddrs n"
proof -
  obtain k where n: "net_ok n k" "net_masked n"
    using net_ParseCIDR_network [OF assms(1)] assms(2) by blast
  have "length (net_IP n) = 4 \<or> length (net_IP n) = 16" using n(1) by (auto simp: net_ok_def)
  then have b: "IPToBigInt (net_IP n) = SetBytes (net_IP n)" using assms(2) by (auto simp: IPToBigInt_v6)
  have v: "valid_ip x" using assms(3) by (simp add: valid_ip_def)
  have "NumAddrs n = 2 ^ (net_bits n - k)" using net_ok_Mask_Size [OF n(1)] by (simp add: NumAddrs_def)
  then show ?thesis
    using net_Contains_iff [OF n(1)] div_aligned_iff [OF net_masked_dvd [OF n]] assms(4) b IPToBigInt_norm [OF v]
      length_ip_norm [OF v] by auto
qed

text \<open>
  The addresses that the comments of \<open>ParseRanges\<close> and \<open>ParseRange\<close> and the README promise for a CIDR: those
  of the network without the network and the broadcast address.
\<close>

definition promised :: "IPNet \<Rightarrow> IP \<Rightarrow> bool" where
  "promised n x \<longleftrightarrow>
     IPNet_Contains n x \<and> IPToBigInt x \<noteq> IPToBigInt (net_IP n) \<and>
     IPToBigInt x \<noteq> IPToBigInt (net_IP n) + NumAddrs n - 1"

text \<open>
  (C17) A divergence from the documentation, recorded as a finding: the comments say that the range of a CIDR
  leaves out the network and the broadcast address, but the range \<open>parseCIDR\<close> returns has the promised addresses
  and in addition exactly these two; its size is the number of addresses of the network. The address asked for
  is of the family of the network, and the two ends of an IPv6 network are not IPv4 addresses in IPv6 form.
\<close>

theorem parseCIDR_network:
  assumes "address_range AR" and "net_ParseCIDR s = Some (ip, n)"
    and "length (net_IP n) = 4 \<or> To4 (net_IP n) = [] \<and> To4 (snd (AR n)) = []"
  shows "\<exists>r. parseCIDR AR s = Some r \<and> Range_Size r = Ok (NumAddrs n) \<and>
    (\<forall>x. length x = 16 \<longrightarrow> ip_len x = length (net_IP n) \<longrightarrow>
       Range_Contains r x = (promised n x \<or> IPToBigInt x = IPToBigInt (net_IP n) \<or>
         IPToBigInt x = IPToBigInt (net_IP n) + NumAddrs n - 1))"
proof -
  obtain r where r: "parseCIDR AR s = Some r" "Range_Size r = Ok (NumAddrs n)"
    and c: "\<And>x. length x = 16 \<Longrightarrow> ip_len x = length (net_IP n) \<Longrightarrow> Range_Contains r x = IPNet_Contains n x"
    using parseCIDR_range [OF assms] by blast
  have "0 < NumAddrs n" by (simp add: NumAddrs_def split_beta)
  then have "Range_Contains r x = (promised n x \<or> IPToBigInt x = IPToBigInt (net_IP n) \<or>
      IPToBigInt x = IPToBigInt (net_IP n) + NumAddrs n - 1)" if "length x = 16" "ip_len x = length (net_IP n)" for x
    using net_Contains_number [OF assms(2) _ that] assms(3) c [OF that] by (auto simp: promised_def)
  then show ?thesis using r by blast
qed

text \<open>A function that meets the contract of \<open>cidr.AddressRange\<close>.\<close>

definition net_ends :: "IPNet \<Rightarrow> IP \<times> IP" where
  "net_ends n =
     (net_IP n,
      int_bytes (length (net_IP n))
        (SetBytes (net_IP n) + 2 ^ (net_bits n - fst (Mask_Size (net_Mask n))) - 1))"

lemma address_range_net_ends: "address_range net_ends"
proof -
  have lt: "SetBytes (net_IP n) + 2 ^ (net_bits n - k) - 1 < 256 ^ length (net_IP n)"
    if n: "net_ok n k" "net_masked n" for n k
  proof -
    obtain q where q: "SetBytes (net_IP n) = 2 ^ (net_bits n - k) * q"
      using net_masked_dvd [OF n] by blast
    have pw: "(256 :: int) ^ length (net_IP n) = 2 ^ (net_bits n - k) * 2 ^ k"
      using n(1) by (simp add: net_ok_def power_add [symmetric] power_mult)
    have "2 ^ (net_bits n - k) * q < 2 ^ (net_bits n - k) * 2 ^ k"
      using SetBytes_less [of "net_IP n"] q pw by simp
    then have "q + 1 \<le> 2 ^ k" by simp
    then have "(2 :: int) ^ (net_bits n - k) * (q + 1) \<le> 2 ^ (net_bits n - k) * 2 ^ k"
      by (rule mult_left_mono) simp
    then show ?thesis using q pw by (simp add: ring_distribs)
  qed
  have ge: "0 \<le> SetBytes (net_IP n) + 2 ^ j - 1" for n j
    using SetBytes_nonneg [of "net_IP n"] one_le_power [of "2 :: int" j] by linarith
  show ?thesis
    unfolding address_range_def net_ends_def
    using SetBytes_int_bytes_id [OF ge lt] by (auto simp: net_ok_Mask_Size)
qed

lemma sample_cidr:
  "net_ParseCIDR ''10.0.0.8/29'' =
     Some (v4InV6Prefix @ [10, 0, 0, 8], \<lparr>net_IP = [10, 0, 0, 8], net_Mask = CIDRMask_bytes 29 4\<rparr>)"
  by code_simp

theorem parseCIDR_network_witness:
  "\<exists>r. parseCIDR net_ends ''10.0.0.8/29'' = Some r \<and> Range_Contains r (v4InV6Prefix @ [10, 0, 0, 8]) \<and>
     Range_Contains r (v4InV6Prefix @ [10, 0, 0, 15])"
proof -
  let ?n = "\<lparr>net_IP = [10, 0, 0, 8], net_Mask = CIDRMask_bytes 29 4\<rparr>"
  let ?a = "v4InV6Prefix @ [10, 0, 0, 8]" and ?b = "v4InV6Prefix @ [10, 0, 0, 15]"
  have "IPToBigInt ?a = IPToBigInt (net_IP ?n)" "IPToBigInt ?b = IPToBigInt (net_IP ?n) + NumAddrs ?n - 1"
    "ip_len ?a = length (net_IP ?n)" "ip_len ?b = length (net_IP ?n)" "length ?a = 16" "length ?b = 16"
    by code_simp+
  then show ?thesis
    using parseCIDR_network [OF address_range_net_ends sample_cidr] by fastforce
qed

section \<open>Pools\<close>

lemma Pool_Contains_iff: "Pool_Contains p ip \<longleftrightarrow> (\<exists>r\<in>set p. Range_Contains r ip)"
  by (induction p) auto

lemma Pool_Size_loop_sum:
  "(\<And>r. r \<in> set p \<Longrightarrow> range_wf r) \<Longrightarrow>
   Pool_Size_loop p z = Ok (z + (\<Sum>r\<leftarrow>p. int (card (addrs Range_Contains r))))"
  by (induction p arbitrary: z) (auto simp: rng.sz_card)

text \<open>The size of a pool of disjoint ranges is the number of addresses it contains.\<close>

lemma Pool_Size_card:
  assumes "\<And>r. r \<in> set p \<Longrightarrow> range_wf r" and "distinct p"
    and "\<And>r r'. r \<in> set p \<Longrightarrow> r' \<in> set p \<Longrightarrow> r \<noteq> r' \<Longrightarrow>
           addrs Range_Contains r \<inter> addrs Range_Contains r' = {}"
  shows "Pool_Size p = Ok (int (card {ip. length ip = 16 \<and> Pool_Contains p ip}))"
proof -
  have "{ip. length ip = 16 \<and> Pool_Contains p ip} = (\<Union>r\<in>set p. addrs Range_Contains r)"
    by (auto simp: addrs_def Pool_Contains_iff)
  moreover have "card (\<Union>r\<in>set p. addrs Range_Contains r) = (\<Sum>r\<in>set p. card (addrs Range_Contains r))"
    using assms by (intro card_UN_disjoint) (auto simp: rng.finite_addrs)
  moreover have "(\<Sum>r\<in>set p. card (addrs Range_Contains r)) = (\<Sum>r\<leftarrow>p. card (addrs Range_Contains r))"
    using assms(2) by (simp add: sum_list_distinct_conv_sum_set)
  moreover have "(\<Sum>r\<leftarrow>rs. int (card (addrs Range_Contains r))) =
      int (\<Sum>r\<leftarrow>rs. card (addrs Range_Contains r))" for rs
    by (induction rs) auto
  ultimately show ?thesis
    using Pool_Size_loop_sum [OF assms(1), of p 0] by (simp add: Pool_Size_def)
qed

end
