(* ===== verification/K8s.thy ===== *)
theory K8s
  imports IPRange
begin

text \<open>
  The objects the controllers read and write, and the calls they make.

  \<^item> \<open>Eip\<close> with \<open>EipSpec\<close> and \<open>EipStatus\<close> is the custom resource of \<open>api/v1alpha2/eip_types.go\<close>;
    \<open>Service\<close>, \<open>Node\<close>, \<open>Endpoints\<close>, \<open>Namespace\<close> and \<open>ObjectMeta\<close> hold the fields of the
    Kubernetes types that the sources use. A field of map type is nilable; the ingress list of a
    service is too, since \<open>reflect.DeepEqual\<close> tells a nil slice from an empty one.
  \<^item> \<open>client\<close> is the record of what the code calls outside the repository: the API server through
    \<open>client.Client\<close>, the event recorder, the label selector of \<open>apimachinery\<close>, the choice
    \<open>sort.Slice\<close> makes between equal elements, the process environment and \<open>cidr.AddressRange\<close>.
    Every call takes and returns a world of an arbitrary type, so a read may see the effect
    of anybody's writes and every call may fail.
\<close>

section \<open>Objects\<close>

record ObjectMeta =
  m_name :: string
  m_namespace :: string
  m_labels :: "(string, string) gomap option"
  m_annotations :: "(string, string) gomap option"
  m_finalizers :: "string list"
  m_deletionTimestamp :: "nat option"
  m_resourceVersion :: nat

record EipSpec =
  Address :: string
  Protocol :: string
  Interface :: string
  Disable :: bool
  UsingKnownIPs :: bool
  Priority :: int
  Namespaces :: "string list"
  NamespaceSelector :: "(string, string) gomap option"

record EipStatus =
  Occupied :: bool
  Usage :: int
  PoolSize :: int
  Used :: "(string, string) gomap option"
  FirstIP :: string
  LastIP :: string
  Ready :: bool
  V4 :: bool

record Eip =
  e_meta :: ObjectMeta
  e_spec :: EipSpec
  e_status :: EipStatus

record LoadBalancerIngress =
  ing_IP :: string
  ing_Hostname :: string

record ServicePort =
  sp_name :: string
  sp_protocol :: string
  sp_port :: int

record Service =
  s_meta :: ObjectMeta
  s_type :: string
  s_loadBalancerIP :: string
  s_ipFamilies :: "string list"
  s_externalTrafficPolicy :: string
  s_clusterIP :: string
  s_ports :: "ServicePort list"
  s_ingress :: "LoadBalancerIngress list option"

record NodeAddress =
  na_type :: string
  na_address :: string

record NodeCondition =
  nc_type :: string
  nc_status :: string

record Node =
  n_meta :: ObjectMeta
  n_addresses :: "NodeAddress list"
  n_conditions :: "NodeCondition list"

text \<open>Of the addresses of an endpoint subset only the name of the node, a pointer, is used.\<close>

record Endpoints =
  ep_meta :: ObjectMeta
  ep_subsets :: "string option list list"

record Namespace =
  ns_meta :: ObjectMeta

record Pod =
  po_meta :: ObjectMeta
  po_phase :: string
  po_hostIP :: string

text \<open>
  Deployments and daemon sets, with what the node proxy fills in. Both have the same fields there,
  so one record with the kind stands for the two types.
\<close>

datatype WorkloadKind = Deployment | DaemonSet

record ContainerPort =
  cp_containerPort :: int
  cp_hostPort :: int
  cp_name :: string
  cp_protocol :: string

record EnvVar =
  ev_name :: string
  ev_value :: string

record Container =
  c_name :: string
  c_image :: string
  c_ports :: "ContainerPort list"
  c_env :: "EnvVar list"
  c_capabilities_add :: "string list"
  c_privileged :: "bool option"

record NodeSelectorRequirement =
  req_key :: string
  req_operator :: string

record Toleration =
  tol_key :: string
  tol_operator :: string
  tol_effect :: string

record PodTemplateSpec =
  t_labels :: "(string, string) gomap"
  t_containers :: "Container list"
  t_initContainers :: "Container list"
  t_required :: "NodeSelectorRequirement list list"
  t_preferred :: "(int \<times> NodeSelectorRequirement list) list"
  t_tolerations :: "Toleration list"

record Workload =
  wl_kind :: WorkloadKind
  wl_meta :: ObjectMeta
  wl_matchLabels :: "(string, string) gomap"
  wl_template :: PodTemplateSpec

text \<open>\<open>metav1.Time.IsZero\<close> of a pointer: nil, or the zero time.\<close>

definition IsZero :: "nat option \<Rightarrow> bool" where
  "IsZero t \<longleftrightarrow> t = None \<or> t = Some 0"

abbreviation e_name :: "Eip \<Rightarrow> string" where
  "e_name e \<equiv> m_name (e_meta e)"

abbreviation e_deleting :: "Eip \<Rightarrow> bool" where
  "e_deleting e \<equiv> \<not> IsZero (m_deletionTimestamp (e_meta e))"

abbreviation s_deleting :: "Service \<Rightarrow> bool" where
  "s_deleting s \<equiv> \<not> IsZero (m_deletionTimestamp (s_meta s))"

text \<open>Zero values, what \<open>&networkv1alpha2.Eip{}\<close> allocates.\<close>

definition zero_meta :: ObjectMeta where
  "zero_meta = \<lparr>m_name = [], m_namespace = [], m_labels = None, m_annotations = None,
     m_finalizers = [], m_deletionTimestamp = None, m_resourceVersion = 0\<rparr>"

definition zero_EipStatus :: EipStatus where
  "zero_EipStatus = \<lparr>Occupied = False, Usage = 0, PoolSize = 0, Used = None, FirstIP = [],
     LastIP = [], Ready = False, V4 = False\<rparr>"

definition zero_EipSpec :: EipSpec where
  "zero_EipSpec = \<lparr>Address = [], Protocol = [], Interface = [], Disable = False,
     UsingKnownIPs = False, Priority = 0, Namespaces = [], NamespaceSelector = None\<rparr>"

definition zero_Eip :: Eip where
  "zero_Eip = \<lparr>e_meta = zero_meta, e_spec = zero_EipSpec, e_status = zero_EipStatus\<rparr>"

section \<open>\<open>reflect.DeepEqual\<close>\<close>

definition DeepEqual_meta :: "ObjectMeta \<Rightarrow> ObjectMeta \<Rightarrow> bool" where
  "DeepEqual_meta a b \<longleftrightarrow>
     m_name a = m_name b \<and> m_namespace a = m_namespace b \<and>
     DeepEqualMap (m_labels a) (m_labels b) \<and> DeepEqualMap (m_annotations a) (m_annotations b) \<and>
     m_finalizers a = m_finalizers b \<and> m_deletionTimestamp a = m_deletionTimestamp b \<and>
     m_resourceVersion a = m_resourceVersion b"

definition DeepEqual_spec :: "EipSpec \<Rightarrow> EipSpec \<Rightarrow> bool" where
  "DeepEqual_spec a b \<longleftrightarrow>
     Address a = Address b \<and> Protocol a = Protocol b \<and> Interface a = Interface b \<and>
     Disable a = Disable b \<and> UsingKnownIPs a = UsingKnownIPs b \<and> Priority a = Priority b \<and>
     Namespaces a = Namespaces b \<and> DeepEqualMap (NamespaceSelector a) (NamespaceSelector b)"

definition DeepEqual_status :: "EipStatus \<Rightarrow> EipStatus \<Rightarrow> bool" where
  "DeepEqual_status a b \<longleftrightarrow>
     Occupied a = Occupied b \<and> Usage a = Usage b \<and> PoolSize a = PoolSize b \<and>
     DeepEqualMap (Used a) (Used b) \<and> FirstIP a = FirstIP b \<and> LastIP a = LastIP b \<and>
     Ready a = Ready b \<and> V4 a = V4 b"

definition DeepEqual_Eip :: "Eip \<Rightarrow> Eip \<Rightarrow> bool" where
  "DeepEqual_Eip a b \<longleftrightarrow>
     DeepEqual_meta (e_meta a) (e_meta b) \<and> DeepEqual_spec (e_spec a) (e_spec b) \<and>
     DeepEqual_status (e_status a) (e_status b)"

lemma DeepEqual_meta_refl [simp]: "DeepEqual_meta a a"
  by (simp add: DeepEqual_meta_def)

lemma DeepEqual_spec_refl [simp]: "DeepEqual_spec a a"
  by (simp add: DeepEqual_spec_def)

lemma DeepEqual_status_refl [simp]: "DeepEqual_status a a"
  by (simp add: DeepEqual_status_def)

lemma DeepEqual_Eip_refl [simp]: "DeepEqual_Eip a a"
  by (simp add: DeepEqual_Eip_def)

section \<open>Calls outside the repository\<close>

datatype obj_ref = EipRef string | ServiceRef string string | NodeRef string

record 'w client =
  cGetEip :: "string \<Rightarrow> 'w \<Rightarrow> Eip res \<times> 'w"
  cListEips :: "'w \<Rightarrow> Eip list res \<times> 'w"
  cUpdateEip :: "Eip \<Rightarrow> 'w \<Rightarrow> Eip res \<times> 'w"
  cUpdateEipStatus :: "Eip \<Rightarrow> 'w \<Rightarrow> Eip res \<times> 'w"
  cGetService :: "string \<Rightarrow> string \<Rightarrow> 'w \<Rightarrow> Service res \<times> 'w"
  cListServices :: "'w \<Rightarrow> Service list res \<times> 'w"
  cListServicesByLabel :: "string \<Rightarrow> string \<Rightarrow> 'w \<Rightarrow> Service list res \<times> 'w"
  cUpdateService :: "Service \<Rightarrow> 'w \<Rightarrow> Service res \<times> 'w"
  cUpdateServiceStatus :: "Service \<Rightarrow> 'w \<Rightarrow> Service res \<times> 'w"
  cGetNamespace :: "string \<Rightarrow> 'w \<Rightarrow> Namespace res \<times> 'w"
  cListNodes :: "'w \<Rightarrow> Node list res \<times> 'w"
  cGetEndpoints :: "string \<Rightarrow> string \<Rightarrow> 'w \<Rightarrow> Endpoints res \<times> 'w"
  cEvent :: "obj_ref \<Rightarrow> string \<Rightarrow> string \<Rightarrow> string \<Rightarrow> 'w \<Rightarrow> 'w"
  cSelectorMatches :: "(string, string) gomap \<Rightarrow> (string, string) gomap \<Rightarrow> bool res"
  cSortEips :: "(Eip \<Rightarrow> Eip \<Rightarrow> bool) \<Rightarrow> Eip list \<Rightarrow> Eip list"
  cGetenv :: "string \<Rightarrow> string"
  cAddressRange :: "IPNet \<Rightarrow> IP \<times> IP"

text \<open>
  \<open>andThen r k\<close> continues with \<open>k\<close> when the call succeeded and returns its error otherwise, the
  shape \<open>if err != nil { return err }\<close> of the sources.
\<close>

definition andThen :: "'a res \<times> 'w \<Rightarrow> ('a \<Rightarrow> 'w \<Rightarrow> 'b res \<times> 'w) \<Rightarrow> 'b res \<times> 'w" where
  "andThen r k =
     (case r of (Ok a, w) \<Rightarrow> k a w | (Err e, w) \<Rightarrow> (Err e, w) | (Panic s, w) \<Rightarrow> (Panic s, w))"

lemma andThen_simps [simp]:
  "andThen (Ok a, w) k = k a w" "andThen (Err e, w) k = (Err e, w)" "andThen (Panic s, w) k = (Panic s, w)"
  by (simp_all add: andThen_def)

lemma andThen_Ok_iff [res_simps]:
  "andThen r k = (Ok b, w') \<longleftrightarrow> (\<exists>a w. r = (Ok a, w) \<and> k a w = (Ok b, w'))"
  by (cases r; cases "fst r") auto

end
