(* ===== verification/Util.thy ===== *)
theory Util
  imports K8s
begin

text \<open>
  The constants of \<open>pkg/constant/constant.go\<close> that the modelled code uses, the helpers of
  \<open>pkg/util/util.go\<close> and the annotation checks of \<open>pkg/validate/validate.go\<close>.
\<close>

named_theorems const_defs "the string constants of the repository"

section \<open>Constants\<close>

definition FinalizerName :: string where
  [const_defs]: "FinalizerName = ''finalizer.lb.kubesphere.io/v1alpha1''"

definition IPAMFinalizerName :: string where
  [const_defs]: "IPAMFinalizerName = ''finalizer.ipam.kubesphere.io/v1alpha1''"

definition OpenELBAnnotationKey :: string where
  [const_defs]: "OpenELBAnnotationKey = ''lb.kubesphere.io/v1alpha1''"

definition OpenELBAnnotationValue :: string where
  [const_defs]: "OpenELBAnnotationValue = ''openelb''"

definition NodeProxyTypeAnnotationKey :: string where
  [const_defs]: "NodeProxyTypeAnnotationKey = ''node-proxy.openelb.kubesphere.io/type''"

definition NodeProxyTypeDeployment :: string where
  [const_defs]: "NodeProxyTypeDeployment = ''deployment''"

definition NodeProxyTypeDaemonSet :: string where
  [const_defs]: "NodeProxyTypeDaemonSet = ''daemonset''"

definition OpenELBEIPAnnotationKey :: string where
  [const_defs]: "OpenELBEIPAnnotationKey = ''eip.openelb.kubesphere.io/v1alpha1''"

definition OpenELBEIPAnnotationKeyV1Alpha2 :: string where
  [const_defs]: "OpenELBEIPAnnotationKeyV1Alpha2 = ''eip.openelb.kubesphere.io/v1alpha2''"

definition OpenELBEIPAnnotationDefaultPool :: string where
  [const_defs]: "OpenELBEIPAnnotationDefaultPool = ''eip.openelb.kubesphere.io/is-default-eip''"

definition OpenELBCNI :: string where
  [const_defs]: "OpenELBCNI = ''openelb.kubesphere.io/cni''"

definition OpenELBProtocolBGP :: string where
  [const_defs]: "OpenELBProtocolBGP = ''bgp''"

definition OpenELBProtocolLayer2 :: string where
  [const_defs]: "OpenELBProtocolLayer2 = ''layer2''"

definition OpenELBProtocolDummy :: string where
  [const_defs]: "OpenELBProtocolDummy = ''dummy''"

definition OpenELBProtocolVip :: string where
  [const_defs]: "OpenELBProtocolVip = ''vip''"

definition EnvOpenELBNamespace :: string where
  [const_defs]: "EnvOpenELBNamespace = ''OPENELB_NAMESPACE''"

definition EnvDaemonsetName_key :: string where
  [const_defs]: "EnvDaemonsetName_key = ''OPENELB_DSNAME''"

definition EnvNodeName :: string where
  [const_defs]: "EnvNodeName = ''NODE_NAME''"

definition EnvSecretName :: string where
  [const_defs]: "EnvSecretName = ''MEMBER_LIST_SECRET''"

definition OpenELBNamespace :: string where
  [const_defs]: "OpenELBNamespace = ''openelb-system''"

definition OpenELBSpeakerName :: string where
  [const_defs]: "OpenELBSpeakerName = ''openelb-speaker''"

definition OpenELBLayer2Annotation :: string where
  [const_defs]: "OpenELBLayer2Annotation = ''layer2.openelb.kubesphere.io/v1alpha1''"

definition LabelNodeProxyExternalIPPreffered :: string where
  [const_defs]: "LabelNodeProxyExternalIPPreffered = ''node-proxy.openelb.kubesphere.io/external-ip-preffered''"

definition LabelNodeProxyExcludeNode :: string where
  [const_defs]: "LabelNodeProxyExcludeNode = ''node-proxy.openelb.kubesphere.io/exclude-node''"

definition NodeProxyExternalIPAnnotationKey :: string where
  [const_defs]: "NodeProxyExternalIPAnnotationKey = ''node-proxy.openelb.kubesphere.io/external-ip''"

definition NodeProxyInternalIPAnnotationKey :: string where
  [const_defs]: "NodeProxyInternalIPAnnotationKey = ''node-proxy.openelb.kubesphere.io/internal-ip''"

definition NameSeparator :: string where
  [const_defs]: "NameSeparator = ''-''"

definition IPSeparator :: string where
  [const_defs]: "IPSeparator = '',''"

definition EnvArgSplitter :: string where
  [const_defs]: "EnvArgSplitter = '' ''"

definition NodeProxyWorkloadPrefix :: string where
  [const_defs]: "NodeProxyWorkloadPrefix = ''node-proxy-''"

definition NodeProxyFinalizerName :: string where
  [const_defs]: "NodeProxyFinalizerName = ''node-proxy.openelb.kubesphere.io/finalizer''"

definition KubernetesMasterLabel :: string where
  [const_defs]: "KubernetesMasterLabel = ''node-role.kubernetes.io/master''"

definition OpenELBNodeRack :: string where
  [const_defs]: "OpenELBNodeRack = ''openelb.kubesphere.io/rack''"

definition OpenELBCNICalico :: string where
  [const_defs]: "OpenELBCNICalico = ''calico''"

definition OpenELBImagesConfigMap :: string where
  [const_defs]: "OpenELBImagesConfigMap = ''openelb-images''"

definition NodeProxyConfigMapForwardImage :: string where
  [const_defs]: "NodeProxyConfigMapForwardImage = ''forward-image''"

definition NodeProxyConfigMapProxyImage :: string where
  [const_defs]: "NodeProxyConfigMapProxyImage = ''proxy-image''"

definition NodeProxyDefaultForwardImage :: string where
  [const_defs]: "NodeProxyDefaultForwardImage = ''kubesphere/openelb-forward:master''"

definition NodeProxyDefaultProxyImage :: string where
  [const_defs]: "NodeProxyDefaultProxyImage = ''kubesphere/openelb-proxy:master''"

definition Layer2MemberlistDefaultSecret :: string where
  [const_defs]: "Layer2MemberlistDefaultSecret = ''openelb-speakers''"

definition Layer2ReloadEIPName :: string where
  [const_defs]: "Layer2ReloadEIPName = ''reload''"

definition Layer2ReloadEIPNamespace :: string where
  [const_defs]: "Layer2ReloadEIPNamespace = ''openelb-layer2-eip-reload''"

text \<open>Values of the Kubernetes API types.\<close>

abbreviation ServiceTypeLoadBalancer :: string where
  "ServiceTypeLoadBalancer \<equiv> ''LoadBalancer''"

abbreviation EventTypeWarning :: string where
  "EventTypeWarning \<equiv> ''Warning''"

abbreviation EventTypeNormal :: string where
  "EventTypeNormal \<equiv> ''Normal''"

text \<open>\<open>sort.Strings\<close> and \<open><\<close> order strings by bytes.\<close>

fun bytes_less :: "string \<Rightarrow> string \<Rightarrow> bool" where
  "bytes_less _ [] = False"
| "bytes_less [] (_ # _) = True"
| "bytes_less (a # as) (b # bs) =
     (if a = b then bytes_less as bs else (of_char a :: nat) < of_char b)"

section \<open>\<open>pkg/util/util.go\<close>\<close>

fun ContainsString :: "string list \<Rightarrow> string \<Rightarrow> bool" where
  "ContainsString [] s = False"
| "ContainsString (item # items) s = (if item = s then True else ContainsString items s)"

fun RemoveString :: "string list \<Rightarrow> string \<Rightarrow> string list" where
  "RemoveString [] s = []"
| "RemoveString (item # items) s =
     (if item = s then RemoveString items s else item # RemoveString items s)"

definition IsDeletionCandidate :: "ObjectMeta \<Rightarrow> string \<Rightarrow> bool" where
  "IsDeletionCandidate obj finalizer \<longleftrightarrow>
     \<not> IsZero (m_deletionTimestamp obj) \<and> ContainsString (m_finalizers obj) finalizer"

definition NeedToAddFinalizer :: "ObjectMeta \<Rightarrow> string \<Rightarrow> bool" where
  "NeedToAddFinalizer obj finalizer \<longleftrightarrow>
     IsZero (m_deletionTimestamp obj) \<and> \<not> ContainsString (m_finalizers obj) finalizer"

fun GetNodeIP_loop :: "NodeAddress list \<Rightarrow> IP" where
  "GetNodeIP_loop [] = []"
| "GetNodeIP_loop (address # as) =
     (if na_type address = ''InternalIP'' then net_ParseIP (na_address address)
      else GetNodeIP_loop as)"

definition GetNodeIP :: "Node \<Rightarrow> IP" where
  "GetNodeIP node = GetNodeIP_loop (n_addresses node)"

definition GetNodeName :: "'w client \<Rightarrow> string" where
  "GetNodeName C = cGetenv C EnvNodeName"

definition GetSecret :: "'w client \<Rightarrow> string" where
  "GetSecret C = cGetenv C EnvSecretName"

definition DutyOfCNI :: "ObjectMeta option \<Rightarrow> ObjectMeta \<Rightarrow> bool" where
  "DutyOfCNI metaOld metaNew =
     (let okNew = (mget (nmap (m_labels metaNew)) OpenELBCNI \<noteq> None) in
      case metaOld of
        None \<Rightarrow> okNew
      | Some old \<Rightarrow>
          (let okOld = (mget (nmap (m_labels old)) OpenELBCNI \<noteq> None) in
           if okOld = okNew \<and> okOld then True else False))"

definition EnvNamespace :: "'w client \<Rightarrow> string" where
  "EnvNamespace C =
     (let ns = cGetenv C EnvOpenELBNamespace in if ns = [] then OpenELBNamespace else ns)"

definition EnvDaemonsetName :: "'w client \<Rightarrow> string" where
  "EnvDaemonsetName C =
     (let name = cGetenv C EnvDaemonsetName_key in
      if name = [] then OpenELBSpeakerName
      else (let strs = Split name CHR ''-'' in Join (take (length strs - 1) strs) ''-''))"

fun NodeReady_loop :: "NodeCondition list \<Rightarrow> bool" where
  "NodeReady_loop [] = True"
| "NodeReady_loop (con # cs) =
     (if nc_type con = ''Ready'' \<and> nc_status con \<noteq> ''True'' then False
      else if nc_type con = ''NetworkUnavailable'' \<and> nc_status con \<noteq> ''False'' then False
      else NodeReady_loop cs)"

definition NodeReady :: "Node \<Rightarrow> bool" where
  "NodeReady node = NodeReady_loop (n_conditions node)"

text \<open>The two loops of \<open>DiffMaps\<close>: the entries of one map whose key is not in the other.\<close>

definition only_in ::
    "(string, string) gomap \<Rightarrow> (string, string) gomap option \<Rightarrow> (string, string) gomap" where
  "only_in m other =
     foldl (\<lambda>acc (k, v). if mget (nmap other) k = None then mset_at k v acc else acc) [] m"

definition DiffMaps ::
    "(string, string) gomap option \<Rightarrow> (string, string) gomap option \<Rightarrow>
     (string, string) gomap \<times> (string, string) gomap" where
  "DiffMaps old new = (only_in (nmap new) old, only_in (nmap old) new)"

text \<open>The object is filled by \<open>get\<close> before \<open>f\<close> looks at it, and prepared by \<open>f\<close> before it is created.\<close>

definition util_Check :: "('w \<Rightarrow> 'o res \<times> 'w) \<Rightarrow> ('o \<Rightarrow> 'w \<Rightarrow> bool res \<times> 'w) \<Rightarrow> 'w \<Rightarrow> bool res \<times> 'w" where
  "util_Check get f w =
     (case get w of
        (Err e, w) \<Rightarrow> (Ok False, w)
      | (Panic p, w) \<Rightarrow> (Panic p, w)
      | (Ok obj, w) \<Rightarrow> f obj w)"

definition util_Create ::
    "('o \<Rightarrow> 'w \<Rightarrow> unit res \<times> 'w) \<Rightarrow> 'o \<Rightarrow> ('o \<Rightarrow> 'w \<Rightarrow> 'o res \<times> 'w) \<Rightarrow> 'w \<Rightarrow> unit res \<times> 'w" where
  "util_Create create obj f w = andThen (f obj w) (\<lambda>obj w. create obj w)"

text \<open>\<open>controllerutil.AddFinalizer\<close> and \<open>RemoveFinalizer\<close>, on the list of finalizers.\<close>

definition AddFinalizer :: "string \<Rightarrow> ObjectMeta \<Rightarrow> ObjectMeta" where
  "AddFinalizer f m =
     (if f \<in> set (m_finalizers m) then m else m\<lparr>m_finalizers := m_finalizers m @ [f]\<rparr>)"

definition RemoveFinalizer :: "string \<Rightarrow> ObjectMeta \<Rightarrow> ObjectMeta" where
  "RemoveFinalizer f m = m\<lparr>m_finalizers := filter (\<lambda>x. x \<noteq> f) (m_finalizers m)\<rparr>"

section \<open>\<open>pkg/validate/validate.go\<close>\<close>

definition HasOpenELBAnnotation :: "(string, string) gomap option \<Rightarrow> bool" where
  "HasOpenELBAnnotation annotation =
     (case mget (nmap annotation) OpenELBAnnotationKey of
        Some value \<Rightarrow> (if value = OpenELBAnnotationValue then True else False)
      | None \<Rightarrow> False)"

definition HasOpenELBNPAnnotation :: "(string, string) gomap option \<Rightarrow> bool" where
  "HasOpenELBNPAnnotation annotation =
     (case mget (nmap annotation) NodeProxyTypeAnnotationKey of
        Some value \<Rightarrow>
          (if value = NodeProxyTypeDeployment \<or> value = NodeProxyTypeDaemonSet then True else False)
      | None \<Rightarrow> False)"

definition IsTypeLoadBalancer :: "Service \<Rightarrow> bool" where
  "IsTypeLoadBalancer svc \<longleftrightarrow> s_type svc = ServiceTypeLoadBalancer"

definition HasOpenELBDefaultEipAnnotation :: "(string, string) gomap option \<Rightarrow> bool" where
  "HasOpenELBDefaultEipAnnotation annotation =
     (case annotation of
        None \<Rightarrow> False
      | Some a \<Rightarrow>
          (case mget a OpenELBEIPAnnotationDefaultPool of
             Some value \<Rightarrow> ToLower value = ''true''
           | None \<Rightarrow> False))"

section \<open>Lemmas\<close>

lemma ContainsString_iff [simp]: "ContainsString xs s \<longleftrightarrow> s \<in> set xs"
  by (induction xs) auto

lemma RemoveString_filter: "RemoveString xs s = filter (\<lambda>x. x \<noteq> s) xs"
  by (induction xs) auto

lemma set_RemoveString [simp]: "set (RemoveString xs s) = set xs - {s}"
  by (induction xs) auto

lemma AddFinalizer_props [simp]:
  "set (m_finalizers (AddFinalizer f m)) = insert f (set (m_finalizers m))"
  "m_name (AddFinalizer f m) = m_name m"
  "m_namespace (AddFinalizer f m) = m_namespace m"
  "m_labels (AddFinalizer f m) = m_labels m"
  "m_annotations (AddFinalizer f m) = m_annotations m"
  "m_deletionTimestamp (AddFinalizer f m) = m_deletionTimestamp m"
  by (auto simp: AddFinalizer_def)

lemma RemoveFinalizer_props [simp]:
  "set (m_finalizers (RemoveFinalizer f m)) = set (m_finalizers m) - {f}"
  "m_name (RemoveFinalizer f m) = m_name m"
  "m_namespace (RemoveFinalizer f m) = m_namespace m"
  "m_labels (RemoveFinalizer f m) = m_labels m"
  "m_annotations (RemoveFinalizer f m) = m_annotations m"
  "m_deletionTimestamp (RemoveFinalizer f m) = m_deletionTimestamp m"
  by (auto simp: RemoveFinalizer_def)

text \<open>What \<open>DiffMaps\<close> returns, whatever the order of iteration.\<close>

lemma only_in_get:
  assumes "gomap_wf m"
  shows "mget (only_in m other) k = (if mget (nmap other) k = None then mget m k else None)"
    and "gomap_wf (only_in m other)"
proof -
  let ?f = "\<lambda>acc (k, v). if mget (nmap other) k = None then mset_at k v acc else acc"
  have g: "mget (foldl ?f acc m) k =
      (if mget (nmap other) k = None \<and> mget m k \<noteq> None then mget m k else mget acc k)"
    if "gomap_wf m" for acc m
    using that
  proof (induction m arbitrary: acc)
    case (Cons e m)
    obtain j v where e: "e = (j, v)" by force
    have "mget m j = None" using Cons.prems e by (simp add: mget_None_iff)
    then show ?case using Cons.prems by (auto simp: e Cons.IH gomap_simps)
  qed simp
  show "mget (only_in m other) k = (if mget (nmap other) k = None then mget m k else None)"
    using g [OF assms, of "[]"] by (auto simp: only_in_def)
  have "gomap_wf (foldl ?f acc m)" if "gomap_wf acc" for acc
    using that by (induction m arbitrary: acc) auto
  then show "gomap_wf (only_in m other)" by (simp add: only_in_def)
qed

end
