(* ===== verification/MemClient.thy ===== *)
theory MemClient
  imports K8s
begin

text \<open>
  An API server in memory, for the examples: the concrete instance of the record \<open>client\<close> on
  which the hypotheses about the API server are shown to hold together.

  It keeps the objects in lists, refuses an update whose resource version is not the stored one,
  counts the version up on every write, writes only the status through the status subresource and
  keeps the status on the other writes, as the API server documents. \<open>eip_store\<close> and
  \<open>service_store\<close> state what the theorems about whole reconciliations rely on: a read returns
  the stored object, a successful write stores the object it returns, and nobody else writes in
  between.
\<close>

record mem =
  mEips :: "Eip list"
  mServices :: "Service list"
  mNamespaces :: "Namespace list"
  mNodes :: "Node list"
  mEndpoints :: "Endpoints list"
  mWorkloads :: "Workload list"
  mPods :: "Pod list"
  mConfigMaps :: "(ObjectMeta \<times> (string, string) gomap option) list"
  mEvents :: "(obj_ref \<times> string \<times> string \<times> string) list"

definition empty_mem :: mem where
  "empty_mem = \<lparr>mEips = [], mServices = [], mNamespaces = [], mNodes = [], mEndpoints = [],
     mWorkloads = [], mPods = [], mConfigMaps = [], mEvents = []\<rparr>"

definition find_obj :: "string \<Rightarrow> ('a \<Rightarrow> bool) \<Rightarrow> 'a list \<Rightarrow> 'a res" where
  "find_obj what P xs = (case find P xs of Some x \<Rightarrow> Ok x | None \<Rightarrow> Err (NotFound (what @ '' not found'')))"

fun replace_first :: "('a \<Rightarrow> bool) \<Rightarrow> 'a \<Rightarrow> 'a list \<Rightarrow> 'a list" where
  "replace_first P y [] = []"
| "replace_first P y (x # xs) = (if P x then y # xs else x # replace_first P y xs)"

text \<open>The objects that reads can see: the first of each name.\<close>

fun uniq :: "('a \<Rightarrow> 'k) \<Rightarrow> 'a list \<Rightarrow> 'a list" where
  "uniq key [] = []"
| "uniq key (x # xs) = x # filter (\<lambda>y. key y \<noteq> key x) (uniq key xs)"

definition conflict :: error where
  "conflict = ApiError ''the object has been modified''"

definition bump :: "ObjectMeta \<Rightarrow> ObjectMeta" where
  "bump m = m\<lparr>m_resourceVersion := Suc (m_resourceVersion m)\<rparr>"

text \<open>An object that is being deleted goes away when its last finalizer does.\<close>

definition collected :: "ObjectMeta \<Rightarrow> bool" where
  "collected m \<longleftrightarrow> \<not> IsZero (m_deletionTimestamp m) \<and> m_finalizers m = []"

definition put_or_collect :: "('a \<Rightarrow> ObjectMeta) \<Rightarrow> ('a \<Rightarrow> bool) \<Rightarrow> 'a \<Rightarrow> 'a list \<Rightarrow> 'a list" where
  "put_or_collect meta P y xs = (if collected (meta y) then filter (\<lambda>x. \<not> P x) xs else replace_first P y xs)"

definition stored :: "('a \<Rightarrow> ObjectMeta) \<Rightarrow> 'a \<Rightarrow> 'a option" where
  "stored meta y = (if collected (meta y) then None else Some y)"

text \<open>The metadata after an update: what the client sent, with the server's version and deletion time.\<close>

definition server_meta :: "ObjectMeta \<Rightarrow> ObjectMeta \<Rightarrow> ObjectMeta" where
  "server_meta old new = (bump new)\<lparr>m_deletionTimestamp := m_deletionTimestamp old\<rparr>"

definition mem_put_eip ::
    "((Eip \<Rightarrow> bool) \<Rightarrow> Eip \<Rightarrow> Eip list \<Rightarrow> Eip list) \<Rightarrow> (Eip \<Rightarrow> Eip) \<Rightarrow> Eip \<Rightarrow> mem \<Rightarrow> Eip res \<times> mem" where
  "mem_put_eip put f e w =
     (let P = (\<lambda>x. e_name x = e_name e) in
      case find P (mEips w) of
        None \<Rightarrow> (Err (NotFound ''eip not found''), w)
      | Some old \<Rightarrow>
          if m_resourceVersion (e_meta old) \<noteq> m_resourceVersion (e_meta e) then (Err conflict, w)
          else (Ok (f old), w\<lparr>mEips := put P (f old) (mEips w)\<rparr>))"

abbreviation svc_key :: "Service \<Rightarrow> string \<times> string" where
  "svc_key s \<equiv> (m_namespace (s_meta s), m_name (s_meta s))"

definition same_svc :: "Service \<Rightarrow> Service \<Rightarrow> bool" where
  "same_svc a b \<longleftrightarrow>
     m_name (s_meta a) = m_name (s_meta b) \<and> m_namespace (s_meta a) = m_namespace (s_meta b)"

definition mem_put_service ::
    "((Service \<Rightarrow> bool) \<Rightarrow> Service \<Rightarrow> Service list \<Rightarrow> Service list) \<Rightarrow> (Service \<Rightarrow> Service) \<Rightarrow> Service \<Rightarrow>
     mem \<Rightarrow> Service res \<times> mem" where
  "mem_put_service put f s w =
     (let P = (\<lambda>x. same_svc x s) in
      case find P (mServices w) of
        None \<Rightarrow> (Err (NotFound ''service not found''), w)
      | Some old \<Rightarrow>
          if m_resourceVersion (s_meta old) \<noteq> m_resourceVersion (s_meta s) then (Err conflict, w)
          else (Ok (f old), w\<lparr>mServices := put P (f old) (mServices w)\<rparr>))"

definition mem_client :: "mem client" where
  "mem_client = \<lparr>
     cGetEip = \<lambda>n w. (find_obj ''eip'' (\<lambda>e. e_name e = n) (mEips w), w),
     cListEips = \<lambda>w. (Ok (uniq (\<lambda>e. e_name e) (mEips w)), w),
     cUpdateEip = \<lambda>e w.
       mem_put_eip (put_or_collect e_meta)
         (\<lambda>old. e\<lparr>e_meta := server_meta (e_meta old) (e_meta e), e_status := e_status old\<rparr>) e w,
     cUpdateEipStatus = \<lambda>e w.
       mem_put_eip replace_first (\<lambda>old. old\<lparr>e_meta := bump (e_meta old), e_status := e_status e\<rparr>) e w,
     cGetService = \<lambda>ns n w.
       (find_obj ''service'' (\<lambda>s. m_namespace (s_meta s) = ns \<and> m_name (s_meta s) = n) (mServices w), w),
     cListServices = \<lambda>w. (Ok (uniq (\<lambda>s. svc_key s) (mServices w)), w),
     cListServicesByLabel = \<lambda>k v w.
       (Ok (filter (\<lambda>s. mget (nmap (m_labels (s_meta s))) k = Some v) (uniq (\<lambda>s. svc_key s) (mServices w))), w),
     cUpdateService = \<lambda>s w.
       mem_put_service (put_or_collect s_meta)
         (\<lambda>old. s\<lparr>s_meta := server_meta (s_meta old) (s_meta s), s_ingress := s_ingress old\<rparr>) s w,
     cUpdateServiceStatus = \<lambda>s w.
       mem_put_service replace_first (\<lambda>old. old\<lparr>s_meta := bump (s_meta old), s_ingress := s_ingress s\<rparr>) s w,
     cGetNamespace = \<lambda>n w. (find_obj ''namespace'' (\<lambda>x. m_name (ns_meta x) = n) (mNamespaces w), w),
     cListNodes = \<lambda>w. (Ok (mNodes w), w),
     cGetEndpoints = \<lambda>ns n w.
       (find_obj ''endpoints'' (\<lambda>x. m_namespace (ep_meta x) = ns \<and> m_name (ep_meta x) = n) (mEndpoints w), w),
     cEvent = \<lambda>r t reason msg w. w\<lparr>mEvents := mEvents w @ [(r, t, reason, msg)]\<rparr>,
     cSelectorMatches = \<lambda>sel labels. Ok (list_all (\<lambda>(k, v). mget labels k = Some v) sel),
     cSortEips = insertion_sort,
     cGetenv = \<lambda>_. [],
     cAddressRange = net_ends \<rparr>"

section \<open>What a client may rely on while it is the only writer\<close>

text \<open>Metadata that differ in the version only.\<close>

definition same_meta :: "ObjectMeta \<Rightarrow> ObjectMeta \<Rightarrow> bool" where
  "same_meta m m' \<longleftrightarrow> m\<lparr>m_resourceVersion := 0\<rparr> = m'\<lparr>m_resourceVersion := 0\<rparr>"

text \<open>
  \<open>V\<close> reads the stored EIPs from a world. A read returns what is stored and changes nothing; a write
  of the status stores the object it returns, with the given status and the stored specification.
\<close>

definition eip_store :: "'w client \<Rightarrow> ('w \<Rightarrow> string \<Rightarrow> Eip option) \<Rightarrow> bool" where
  "eip_store C V \<longleftrightarrow>
     (\<forall>n w r w'. cGetEip C n w = (r, w') \<longrightarrow> V w' = V w \<and>
        (\<forall>e. r = Ok e \<longrightarrow> V w n = Some e \<and> e_name e = n) \<and>
        (\<forall>x. r = Err x \<and> IsNotFound x \<longrightarrow> V w n = None)) \<and>
     (\<forall>w r w'. cListEips C w = (r, w') \<longrightarrow> V w' = V w \<and>
        (\<forall>eips. r = Ok eips \<longrightarrow> distinct (map e_name eips) \<and>
           (\<forall>n. V w n = find (\<lambda>e. e_name e = n) eips))) \<and>
     (\<forall>e w e' w'. cUpdateEipStatus C e w = (Ok e', w') \<longrightarrow>
        V w' = (V w)(e_name e \<mapsto> e') \<and> e_name e' = e_name e \<and> e_status e' = e_status e \<and>
        (\<exists>old. V w (e_name e) = Some old \<and> e_spec e' = e_spec old \<and> same_meta (e_meta e') (e_meta old) \<and>
           m_deletionTimestamp (e_meta e') = m_deletionTimestamp (e_meta old))) \<and>
     (\<forall>e w e' w'. cUpdateEip C e w = (Ok e', w') \<longrightarrow>
        V w' = (V w)(e_name e := stored e_meta e') \<and> e_name e' = e_name e \<and> e_spec e' = e_spec e \<and>
        m_finalizers (e_meta e') = m_finalizers (e_meta e) \<and>
        (\<exists>old. V w (e_name e) = Some old \<and> e_status e' = e_status old \<and>
           m_deletionTimestamp (e_meta e') = m_deletionTimestamp (e_meta old)))"

text \<open>The rest of the specification of a service, which the writes here never change.\<close>

definition svc_rest :: "Service \<Rightarrow> string list \<times> string \<times> string \<times> ServicePort list" where
  "svc_rest s = (s_ipFamilies s, s_externalTrafficPolicy s, s_clusterIP s, s_ports s)"

definition service_store :: "'w client \<Rightarrow> ('w \<Rightarrow> string \<times> string \<Rightarrow> Service option) \<Rightarrow> bool" where
  "service_store C U \<longleftrightarrow>
     (\<forall>ns n w r w'. cGetService C ns n w = (r, w') \<longrightarrow> U w' = U w \<and>
        (\<forall>s. r = Ok s \<longrightarrow> U w (ns, n) = Some s \<and> m_namespace (s_meta s) = ns \<and> m_name (s_meta s) = n) \<and>
        (\<forall>x. r = Err x \<and> IsNotFound x \<longrightarrow> U w (ns, n) = None)) \<and>
     (\<forall>s w s' w'. cUpdateService C s w = (Ok s', w') \<longrightarrow>
        U w' = (U w)(svc_key s := stored s_meta s') \<and> svc_key s' = svc_key s \<and>
        m_labels (s_meta s') = m_labels (s_meta s) \<and> m_finalizers (s_meta s') = m_finalizers (s_meta s) \<and>
        m_annotations (s_meta s') = m_annotations (s_meta s) \<and>
        (\<exists>old. U w (svc_key s) = Some old \<and> s_ingress s' = s_ingress old \<and> s_type s' = s_type s \<and>
           s_loadBalancerIP s' = s_loadBalancerIP s \<and> (svc_rest s = svc_rest old \<longrightarrow> svc_rest s' = svc_rest old) \<and>
           m_deletionTimestamp (s_meta s') = m_deletionTimestamp (s_meta old))) \<and>
     (\<forall>k v w r w'. cListServicesByLabel C k v w = (r, w') \<longrightarrow> U w' = U w \<and>
        (\<forall>svcs. r = Ok svcs \<longrightarrow> distinct (map (\<lambda>s. svc_key s) svcs) \<and>
           (\<forall>s. s \<in> set svcs \<longleftrightarrow> U w (svc_key s) = Some s \<and> mget (nmap (m_labels (s_meta s))) k = Some v) \<and>
           (\<forall>j s. U w j = Some s \<longrightarrow> svc_key s = j))) \<and>
     (\<forall>s w s' w'. cUpdateServiceStatus C s w = (Ok s', w') \<longrightarrow>
        U w' = (U w)(svc_key s \<mapsto> s') \<and> svc_key s' = svc_key s \<and> s_ingress s' = s_ingress s \<and>
        (\<exists>old. U w (svc_key s) = Some old \<and>
           m_labels (s_meta s') = m_labels (s_meta old) \<and> m_finalizers (s_meta s') = m_finalizers (s_meta old) \<and>
           m_annotations (s_meta s') = m_annotations (s_meta old) \<and> s_type s' = s_type old \<and>
           s_loadBalancerIP s' = s_loadBalancerIP old \<and> svc_rest s' = svc_rest old \<and>
           m_deletionTimestamp (s_meta s') = m_deletionTimestamp (s_meta old)))"

text \<open>Operations on one kind of object leave the other kind alone, and events change neither.\<close>

definition stores_apart ::
    "'w client \<Rightarrow> ('w \<Rightarrow> string \<Rightarrow> Eip option) \<Rightarrow> ('w \<Rightarrow> string \<times> string \<Rightarrow> Service option) \<Rightarrow> bool" where
  "stores_apart C V U \<longleftrightarrow>
     (\<forall>n w. U (snd (cGetEip C n w)) = U w) \<and> (\<forall>w. U (snd (cListEips C w)) = U w) \<and>
     (\<forall>e w. U (snd (cUpdateEip C e w)) = U w) \<and> (\<forall>e w. U (snd (cUpdateEipStatus C e w)) = U w) \<and>
     (\<forall>k v w. V (snd (cListServicesByLabel C k v w)) = V w) \<and>
     (\<forall>ns n w. V (snd (cGetService C ns n w)) = V w) \<and>
     (\<forall>s w. V (snd (cUpdateService C s w)) = V w) \<and>
     (\<forall>s w. V (snd (cUpdateServiceStatus C s w)) = V w) \<and>
     (\<forall>n w. V (snd (cGetNamespace C n w)) = V w \<and> U (snd (cGetNamespace C n w)) = U w) \<and>
     (\<forall>o' t r m w. V (cEvent C o' t r m w) = V w \<and> U (cEvent C o' t r m w) = U w)"

definition api_laws ::
    "'w client \<Rightarrow> ('w \<Rightarrow> string \<Rightarrow> Eip option) \<Rightarrow> ('w \<Rightarrow> string \<times> string \<Rightarrow> Service option) \<Rightarrow> bool" where
  "api_laws C V U \<longleftrightarrow> eip_store C V \<and> service_store C U \<and> stores_apart C V U"

section \<open>The server in memory obeys the laws\<close>

definition mem_eip :: "mem \<Rightarrow> string \<Rightarrow> Eip option" where
  "mem_eip w n = find (\<lambda>e. e_name e = n) (mEips w)"

definition mem_service :: "mem \<Rightarrow> string \<times> string \<Rightarrow> Service option" where
  "mem_service w k = find (\<lambda>s. m_namespace (s_meta s) = fst k \<and> m_name (s_meta s) = snd k) (mServices w)"

lemma find_replace_first:
  assumes "find (\<lambda>x. key x = k) xs = Some x" and "key y = k"
  shows "find (\<lambda>x. key x = j) (replace_first (\<lambda>x. key x = k) y xs) =
    (if j = k then Some y else find (\<lambda>x. key x = j) xs)"
  using assms by (induction xs) (auto split: if_splits)

lemma find_filter_key: "find (\<lambda>x. key x = k) (filter (\<lambda>y. key y \<noteq> j) xs) = (if k = j then None else find (\<lambda>x. key x = k) xs)"
  by (induction xs) auto

lemma find_put_or_collect:
  assumes "find (\<lambda>x. key x = k) xs = Some x" and "key y = k"
  shows "find (\<lambda>x. key x = j) (put_or_collect meta (\<lambda>x. key x = k) y xs) =
    (if j = k then stored meta y else find (\<lambda>x. key x = j) xs)"
  using find_replace_first [OF assms] find_filter_key [of key j k xs]
  by (auto simp: put_or_collect_def stored_def)

text \<open>\<open>put\<close> replaces the object of a key by what \<open>g\<close> makes of the new one.\<close>

definition puts ::
    "('a \<Rightarrow> 'k) \<Rightarrow> (('a \<Rightarrow> bool) \<Rightarrow> 'a \<Rightarrow> 'a list \<Rightarrow> 'a list) \<Rightarrow> ('a \<Rightarrow> 'a option) \<Rightarrow> bool" where
  "puts key put g \<longleftrightarrow>
     (\<forall>k xs x y j. find (\<lambda>x. key x = k) xs = Some x \<longrightarrow> key y = k \<longrightarrow>
        find (\<lambda>x. key x = j) (put (\<lambda>x. key x = k) y xs) =
          (if j = k then g y else find (\<lambda>x. key x = j) xs))"

lemma puts_replace_first: "puts key replace_first Some"
  by (simp add: puts_def find_replace_first)

lemma puts_put_or_collect: "puts key (put_or_collect meta) (stored meta)"
  by (simp add: puts_def find_put_or_collect)

lemma putsD:
  assumes "puts key put g" and "find (\<lambda>x. key x = k) xs = Some x" and "key y = k"
  shows "find (\<lambda>x. key x = j) (put (\<lambda>x. key x = k) y xs) = (if j = k then g y else find (\<lambda>x. key x = j) xs)"
  using assms unfolding puts_def by blast

lemma find_Some_P: "find P xs = Some x \<Longrightarrow> P x"
  by (induction xs) (auto split: if_splits)

lemma mem_client_sel [simp]:
  "cGetEip mem_client n w = (find_obj ''eip'' (\<lambda>e. e_name e = n) (mEips w), w)"
  "cListEips mem_client w = (Ok (uniq (\<lambda>e. e_name e) (mEips w)), w)"
  "cUpdateEip mem_client e w =
     mem_put_eip (put_or_collect e_meta)
         (\<lambda>old. e\<lparr>e_meta := server_meta (e_meta old) (e_meta e), e_status := e_status old\<rparr>) e w"
  "cUpdateEipStatus mem_client e w =
     mem_put_eip replace_first (\<lambda>old. old\<lparr>e_meta := bump (e_meta old), e_status := e_status e\<rparr>) e w"
  "cGetService mem_client ns m w =
     (find_obj ''service'' (\<lambda>s. m_namespace (s_meta s) = ns \<and> m_name (s_meta s) = m) (mServices w), w)"
  "cUpdateService mem_client s w =
     mem_put_service (put_or_collect s_meta)
         (\<lambda>old. s\<lparr>s_meta := server_meta (s_meta old) (s_meta s), s_ingress := s_ingress old\<rparr>) s w"
  "cUpdateServiceStatus mem_client s w =
     mem_put_service replace_first (\<lambda>old. old\<lparr>s_meta := bump (s_meta old), s_ingress := s_ingress s\<rparr>) s w"
  "cGetNamespace mem_client m w =
     (find_obj ''namespace'' (\<lambda>x. m_name (ns_meta x) = m) (mNamespaces w), w)"
  "cListServicesByLabel mem_client k v w =
     (Ok (filter (\<lambda>s. mget (nmap (m_labels (s_meta s))) k = Some v) (uniq (\<lambda>s. svc_key s) (mServices w))), w)"
  "cListServices mem_client w = (Ok (uniq (\<lambda>s. svc_key s) (mServices w)), w)"
  "cEvent mem_client o' t rs msg w = w\<lparr>mEvents := mEvents w @ [(o', t, rs, msg)]\<rparr>"
  "cListNodes mem_client w = (Ok (mNodes w), w)"
  "cGetEndpoints mem_client ns m w =
     (find_obj ''endpoints'' (\<lambda>x. m_namespace (ep_meta x) = ns \<and> m_name (ep_meta x) = m) (mEndpoints w), w)"
  "cGetenv mem_client k = []"
  "cSortEips mem_client = insertion_sort" "cAddressRange mem_client = net_ends"
  by (simp_all add: mem_client_def)

lemma find_obj_Ok: "find_obj what P xs = Ok x \<longleftrightarrow> find P xs = Some x"
  by (simp add: find_obj_def split: option.split)

lemma find_uniq: "find (\<lambda>x. key x = k) (uniq key xs) = find (\<lambda>x. key x = k) xs"
  by (induction xs) (auto simp: find_filter_key)

lemma distinct_uniq: "distinct (map key (uniq key xs))"
  by (induction xs) (auto simp: distinct_map inj_on_def)

lemma mem_put_eip_Ok:
  assumes "mem_put_eip put f e w = (Ok e', w')"
    and "\<And>old. e_name old = e_name e \<Longrightarrow> e_name (f old) = e_name e"
    and "puts (\<lambda>x. e_name x) put g"
  shows "\<exists>old. mem_eip w (e_name e) = Some old \<and> e_name old = e_name e \<and> e' = f old \<and>
    mem_eip w' = (mem_eip w)(e_name e := g e')"
proof -
  obtain old where old: "find (\<lambda>x. e_name x = e_name e) (mEips w) = Some old"
    using assms(1) by (cases "find (\<lambda>x. e_name x = e_name e) (mEips w)") (simp_all add: mem_put_eip_def)
  then have e': "e' = f old" and w': "w' = w\<lparr>mEips := put (\<lambda>x. e_name x = e_name e) e' (mEips w)\<rparr>"
    using assms(1) by (auto simp: mem_put_eip_def Let_def split: if_splits)
  have "e_name old = e_name e" by (rule find_Some_P [OF old])
  then show ?thesis
    using putsD [OF assms(3) old, of e'] assms(2) e' w' old by (intro exI [of _ old]) (auto simp: mem_eip_def)
qed

lemma find_obj_NotFound: "find_obj what P xs = Err x \<Longrightarrow> find P xs = None"
  by (simp add: find_obj_def split: option.splits)

lemma mem_eip_store: "eip_store mem_client mem_eip"
  unfolding eip_store_def
proof (intro conjI allI impI)
  fix n w r w'
  assume r: "cGetEip mem_client n w = (r, w')"
  then show "mem_eip w' = mem_eip w" by simp
  show "mem_eip w n = Some e" "e_name e = n" if "r = Ok e" for e
    using r that by (auto simp: find_obj_Ok mem_eip_def dest: find_Some_P)
  show "mem_eip w n = None" if "r = Err x \<and> IsNotFound x" for x
    using r that by (auto simp: mem_eip_def dest: find_obj_NotFound)
next
  fix w r w'
  assume r: "cListEips mem_client w = (r, w')"
  then show "mem_eip w' = mem_eip w" by simp
  show "distinct (map e_name eips)" "mem_eip w n = find (\<lambda>e. e_name e = n) eips" if "r = Ok eips" for eips n
    using r that distinct_uniq [of e_name] find_uniq [of e_name n] by (auto simp: mem_eip_def comp_def)
next
  fix e w e' w'
  assume "cUpdateEipStatus mem_client e w = (Ok e', w')"
  then have "mem_put_eip replace_first (\<lambda>old. old\<lparr>e_meta := bump (e_meta old), e_status := e_status e\<rparr>) e w = (Ok e', w')"
    by simp
  from mem_put_eip_Ok [OF this _ puts_replace_first]
  show "mem_eip w' = (mem_eip w)(e_name e \<mapsto> e')" "e_name e' = e_name e" "e_status e' = e_status e"
    "\<exists>old. mem_eip w (e_name e) = Some old \<and> e_spec e' = e_spec old \<and> same_meta (e_meta e') (e_meta old) \<and>
       m_deletionTimestamp (e_meta e') = m_deletionTimestamp (e_meta old)"
    by (auto simp: bump_def same_meta_def)
next
  fix e w e' w'
  assume "cUpdateEip mem_client e w = (Ok e', w')"
  then have "mem_put_eip (put_or_collect e_meta)
      (\<lambda>old. e\<lparr>e_meta := server_meta (e_meta old) (e_meta e), e_status := e_status old\<rparr>) e w = (Ok e', w')"
    by simp
  from mem_put_eip_Ok [OF this _ puts_put_or_collect]
  show "mem_eip w' = (mem_eip w)(e_name e := stored e_meta e')" "e_name e' = e_name e" "e_spec e' = e_spec e"
    "m_finalizers (e_meta e') = m_finalizers (e_meta e)"
    "\<exists>old. mem_eip w (e_name e) = Some old \<and> e_status e' = e_status old \<and>
       m_deletionTimestamp (e_meta e') = m_deletionTimestamp (e_meta old)"
    by (auto simp: bump_def server_meta_def)
qed

lemma mem_service_find: "mem_service v k = find (\<lambda>x. svc_key x = k) (mServices v)"
  by (cases k) (simp add: mem_service_def)

lemma mem_put_service_Ok:
  assumes "mem_put_service put f s w = (Ok s', w')"
    and "\<And>old. svc_key old = svc_key s \<Longrightarrow> svc_key (f old) = svc_key s"
    and "puts (\<lambda>x. svc_key x) put g"
  shows "\<exists>old. mem_service w (svc_key s) = Some old \<and> svc_key old = svc_key s \<and> s' = f old \<and>
    mem_service w' = (mem_service w)(svc_key s := g s')"
proof -
  have same: "(\<lambda>x. same_svc x s) = (\<lambda>x. svc_key x = svc_key s)"
    by (auto simp: same_svc_def)
  obtain old where old: "find (\<lambda>x. svc_key x = svc_key s) (mServices w) = Some old"
    using assms(1) by (cases "find (\<lambda>x. svc_key x = svc_key s) (mServices w)")
      (simp_all add: mem_put_service_def same Let_def)
  then have s': "s' = f old"
    and w': "w' = w\<lparr>mServices := put (\<lambda>x. svc_key x = svc_key s) s' (mServices w)\<rparr>"
    using assms(1) by (auto simp: mem_put_service_def same Let_def split: if_splits)
  have k: "svc_key old = svc_key s" by (rule find_Some_P [OF old])
  have "mem_service w' = (mem_service w)(svc_key s := g s')"
    using putsD [OF assms(3) old, of s'] assms(2) [OF k] s' w' by (auto simp: mem_service_find)
  then show ?thesis using s' k old mem_service_find by auto
qed

lemma in_uniq_iff: "x \<in> set (uniq key xs) \<longleftrightarrow> find (\<lambda>y. key y = key x) xs = Some x"
  by (induction xs) auto

lemma mem_service_store: "service_store mem_client mem_service"
  unfolding service_store_def
proof (intro conjI allI impI)
  fix ns n w r w'
  assume r: "cGetService mem_client ns n w = (r, w')"
  then show "mem_service w' = mem_service w" by simp
  show "mem_service w (ns, n) = Some s" "m_namespace (s_meta s) = ns" "m_name (s_meta s) = n" if "r = Ok s" for s
    using r that by (auto simp: find_obj_Ok mem_service_def dest: find_Some_P)
  show "mem_service w (ns, n) = None" if "r = Err x \<and> IsNotFound x" for x
    using r that by (auto simp: mem_service_def dest: find_obj_NotFound)
next
  fix s w s' w'
  assume "cUpdateService mem_client s w = (Ok s', w')"
  then have "mem_put_service (put_or_collect s_meta)
         (\<lambda>old. s\<lparr>s_meta := server_meta (s_meta old) (s_meta s), s_ingress := s_ingress old\<rparr>) s w = (Ok s', w')"
    by simp
  from mem_put_service_Ok [OF this _ puts_put_or_collect]
  show "mem_service w' = (mem_service w)(svc_key s := stored s_meta s')" "svc_key s' = svc_key s"
    "m_labels (s_meta s') = m_labels (s_meta s)" "m_finalizers (s_meta s') = m_finalizers (s_meta s)"
    "m_annotations (s_meta s') = m_annotations (s_meta s)"
    "\<exists>old. mem_service w (svc_key s) = Some old \<and> s_ingress s' = s_ingress old \<and> s_type s' = s_type s \<and>
           s_loadBalancerIP s' = s_loadBalancerIP s \<and> (svc_rest s = svc_rest old \<longrightarrow> svc_rest s' = svc_rest old) \<and>
       m_deletionTimestamp (s_meta s') = m_deletionTimestamp (s_meta old)"
    by (auto simp: bump_def server_meta_def svc_rest_def)
next
  fix k v w r w'
  assume r: "cListServicesByLabel mem_client k v w = (r, w')"
  then show "mem_service w' = mem_service w" by simp
  show "distinct (map (\<lambda>s. svc_key s) svcs)" if "r = Ok svcs" for svcs
    using r that distinct_uniq [of "\<lambda>s. svc_key s"] by (auto simp: distinct_map inj_on_def)
  show "s \<in> set svcs \<longleftrightarrow> mem_service w (svc_key s) = Some s \<and> mget (nmap (m_labels (s_meta s))) k = Some v"
    if "r = Ok svcs" for svcs s
  proof -
    have svcs: "svcs = filter (\<lambda>s. mget (nmap (m_labels (s_meta s))) k = Some v) (uniq (\<lambda>s. svc_key s) (mServices w))"
      using r that by auto
    show ?thesis
      unfolding svcs set_filter mem_Collect_eq in_uniq_iff [of s "\<lambda>s. svc_key s"] mem_service_find by (rule refl)
  qed
  show "svc_key s = j" if "mem_service w j = Some s" for j s
    using that by (auto simp: mem_service_find dest: find_Some_P)
next
  fix s w s' w'
  assume "cUpdateServiceStatus mem_client s w = (Ok s', w')"
  then have "mem_put_service replace_first (\<lambda>old. old\<lparr>s_meta := bump (s_meta old), s_ingress := s_ingress s\<rparr>) s w = (Ok s', w')"
    by simp
  from mem_put_service_Ok [OF this _ puts_replace_first]
  show "mem_service w' = (mem_service w)(svc_key s \<mapsto> s')" "svc_key s' = svc_key s" "s_ingress s' = s_ingress s"
    "\<exists>old. mem_service w (svc_key s) = Some old \<and> m_labels (s_meta s') = m_labels (s_meta old) \<and>
       m_finalizers (s_meta s') = m_finalizers (s_meta old) \<and> m_annotations (s_meta s') = m_annotations (s_meta old) \<and> s_type s' = s_type old \<and>
           s_loadBalancerIP s' = s_loadBalancerIP old \<and> svc_rest s' = svc_rest old \<and>
       m_deletionTimestamp (s_meta s') = m_deletionTimestamp (s_meta old)"
    by (auto simp: bump_def svc_rest_def)
qed

lemma mem_stores_apart: "stores_apart mem_client mem_eip mem_service"
  by (auto simp: stores_apart_def mem_eip_def mem_service_def mem_put_eip_def mem_put_service_def Let_def
      split: option.splits)

lemma mem_api_laws: "api_laws mem_client mem_eip mem_service"
  by (simp add: api_laws_def mem_eip_store mem_service_store mem_stores_apart)

end
