(* ===== verification/EipTypes.thy ===== *)
theory EipTypes
  imports Util MemClient
begin

text \<open>
  The methods of the custom resource \<open>Eip\<close>: \<open>api/v1alpha2/eip_types.go\<close>, with the admission
  webhook.

  An \<open>Eip\<close> denotes the pool of addresses from its base on, \<open>GetSize\<close> many of them. The lemmas
  show that \<open>IPToOrdinal\<close> is the inverse of counting up from the base, that \<open>Contains\<close> and
  \<open>IsOverlap\<close> decide membership and intersection of pools, that admission keeps the pools of
  distinct EIPs disjoint, and that \<open>GetSize\<close> reads an IPv4 pool as \<open>iprange.ParseRange\<close>, which the
  speakers use, does.
\<close>

section \<open>Definitions\<close>

definition GetSize :: "Eip \<Rightarrow> (IP \<times> int) res" where
  "GetSize e =
     (let address = Address (e_spec e); ip = net_ParseIP address in
      if ip \<noteq> [] then Ok (ip, 1)
      else
        (case net_ParseCIDR address of
           Some (_, cidr) \<Rightarrow>
             (let (ones, sz) = Mask_Size (net_Mask cidr); num = to_int64 (2 ^ (sz - ones)) in
              Ok (net_IP cidr, num))
         | None \<Rightarrow>
             (case SplitN2 address CHR ''-'' of
                [s0, s1] \<Rightarrow>
                  (case (ParseIP s0, ParseIP s1) of
                     (Some base, Some last_) \<Rightarrow>
                       (let ord = to_int64 (IPToBigInt last_ - IPToBigInt base) in
                        if ord < 0 then Err (Errorf ''invalid eip address format'')
                        else Ok (base, to_int64 (ord + 1)))
                   | _ \<Rightarrow> Err (Errorf ''invalid eip address format''))
              | _ \<Rightarrow> Err (Errorf ''invalid eip address format''))))"

text \<open>The callers that drop the error go on with a nil address and the size 0.\<close>

definition GetSize_values :: "Eip \<Rightarrow> IP \<times> int" where
  "GetSize_values e = (case GetSize e of Ok p \<Rightarrow> p | _ \<Rightarrow> ([], 0))"

definition IPToOrdinal :: "Eip \<Rightarrow> IP \<Rightarrow> int" where
  "IPToOrdinal e ip =
     (case GetSize e of
        Ok (base, sz) \<Rightarrow>
          (let ipAsInt = IPToBigInt ip; baseInt = IPToBigInt base;
               ord = to_int64 (ipAsInt - baseInt) in
           if ord < 0 \<or> ord \<ge> sz then - 1 else ord)
      | _ \<Rightarrow> - 1)"

definition GetProtocol :: "Eip \<Rightarrow> string" where
  "GetProtocol e =
     (if Protocol (e_spec e) = OpenELBProtocolLayer2 then OpenELBProtocolLayer2
      else if Protocol (e_spec e) = OpenELBProtocolVip then OpenELBProtocolVip
      else OpenELBProtocolBGP)"

definition GetSpeakerName :: "Eip \<Rightarrow> string" where
  "GetSpeakerName e = (if DutyOfCNI None (e_meta e) then OpenELBProtocolDummy else GetProtocol e)"

definition IsOverlap :: "Eip \<Rightarrow> Eip \<Rightarrow> bool" where
  "IsOverlap e eip =
     (let (base, sz) = GetSize_values e; (tBase, tSize) = GetSize_values eip in
      if IPToBigInt base > IPToBigInt tBase + to_int64 (tSize - 1) \<or>
         IPToBigInt tBase > IPToBigInt base + to_int64 (sz - 1)
      then False else True)"

definition Contains :: "Eip \<Rightarrow> IP \<Rightarrow> bool" where
  "Contains e ip =
     (let (base, sz) = GetSize_values e in
      IPToBigInt ip \<ge> IPToBigInt base \<and> IPToBigInt ip \<le> IPToBigInt base + to_int64 (sz - 1))"

definition IsDefault :: "Eip \<Rightarrow> bool" where
  "IsDefault e \<longleftrightarrow> mget_str (m_annotations (e_meta e)) OpenELBEIPAnnotationDefaultPool = ''true''"

fun validateDefault_loop :: "Eip \<Rightarrow> Eip list \<Rightarrow> unit res" where
  "validateDefault_loop e [] = Ok ()"
| "validateDefault_loop e (eip # items) =
     (if e_name eip = e_name e then validateDefault_loop e items
      else if HasOpenELBDefaultEipAnnotation (m_annotations (e_meta eip))
      then Err (Errorf ''already exists a default EIP'')
      else validateDefault_loop e items)"

definition validateDefault :: "Eip \<Rightarrow> Eip list \<Rightarrow> unit res" where
  "validateDefault e eips =
     (if \<not> HasOpenELBDefaultEipAnnotation (m_annotations (e_meta e)) then Ok ()
      else validateDefault_loop e eips)"

fun validateOverlap :: "Eip \<Rightarrow> Eip list \<Rightarrow> unit res" where
  "validateOverlap e [] = Ok ()"
| "validateOverlap e (eip # items) =
     (if e_name eip = e_name e then validateOverlap e items
      else if IsOverlap e eip
      then Err (Errorf (''eip address overlap with '' @ e_name eip))
      else validateOverlap e items)"

definition Eip_validate :: "'w client \<Rightarrow> Eip \<Rightarrow> bool \<Rightarrow> 'w \<Rightarrow> unit res \<times> 'w" where
  "Eip_validate C e overlap w =
     andThen (cListEips C w) (\<lambda>eips w.
       if overlap then
         andThen (validateOverlap e eips, w) (\<lambda>_ w. (validateDefault e eips, w))
       else (validateDefault e eips, w))"

definition needs_interface :: "Eip \<Rightarrow> bool" where
  "needs_interface e \<longleftrightarrow>
     (Protocol (e_spec e) = OpenELBProtocolLayer2 \<or> Protocol (e_spec e) = OpenELBProtocolVip) \<and>
     Interface (e_spec e) = []"

definition ValidateCreate :: "'w client \<Rightarrow> Eip \<Rightarrow> 'w \<Rightarrow> unit res \<times> 'w" where
  "ValidateCreate C e w =
     andThen (GetSize e, w) (\<lambda>_ w.
       if needs_interface e
       then (Err (Errorf ''if protocol is layer2 or vip, interface should not be empty''), w)
       else Eip_validate C e True w)"

definition ValidateUpdate :: "'w client \<Rightarrow> Eip \<Rightarrow> Eip \<Rightarrow> 'w \<Rightarrow> unit res \<times> 'w" where
  "ValidateUpdate C e oldE w =
     andThen
       (if \<not> DeepEqualMap (m_annotations (e_meta e)) (m_annotations (e_meta oldE))
        then Eip_validate C e False w else (Ok (), w))
       (\<lambda>_ w.
         if \<not> DeepEqual_spec (e_spec e) (e_spec oldE) \<and>
            Address (e_spec e) \<noteq> Address (e_spec oldE)
         then (Err (Errorf ''the address field is not allowed to be modified''), w)
         else if needs_interface e
         then (Err (Errorf ''if protocol is layer2 or vip, interface should not be empty''), w)
         else (Ok (), w))"

definition ValidateDelete :: "Eip \<Rightarrow> 'w \<Rightarrow> unit res \<times> 'w" where
  "ValidateDelete e w = (Ok (), w)"

section \<open>Pools of addresses\<close>

text \<open>
  A sized EIP: its base is an address, and its pool is not empty and stays in the family of the
  base, which for IPv6 also means outside the block of IPv4-mapped addresses.
\<close>

definition sized :: "Eip \<Rightarrow> IP \<Rightarrow> int \<Rightarrow> bool" where
  "sized e base n \<longleftrightarrow>
     GetSize e = Ok (base, n) \<and> valid_ip base \<and> 0 < n \<and> n < 2 ^ 63 \<and>
     IPToBigInt base + n \<le> 256 ^ ip_len base \<and>
     (ip_len base = 4 \<or> IPToBigInt base + n \<le> 65535 * 2 ^ 32 \<or> 65536 * 2 ^ 32 \<le> IPToBigInt base)"

definition nth_addr :: "IP \<Rightarrow> int \<Rightarrow> IP" where
  "nth_addr base i = int_bytes (ip_len base) (IPToBigInt base + i)"

lemma sized_values: "sized e base n \<Longrightarrow> GetSize_values e = (base, n)"
  by (simp add: sized_def GetSize_values_def)

lemma sized_size: "sized e base n \<Longrightarrow> to_int64 (n - 1) = n - 1"
  by (rule to_int64_id) (auto simp: sized_def)

text \<open>A sixteen-byte number that is not IPv4-mapped is its own address.\<close>

lemma nth_addr_props:
  assumes "valid_ip base" and "0 \<le> i" and "IPToBigInt base + i < 256 ^ ip_len base"
  shows "length (nth_addr base i) = ip_len base" and "SetBytes (nth_addr base i) = IPToBigInt base + i"
    and "valid_ip (nth_addr base i)"
proof -
  have ge: "0 \<le> IPToBigInt base + i"
    using IPToBigInt_range(1) [OF assms(1)] assms(2) by simp
  show "length (nth_addr base i) = ip_len base"
    by (simp add: nth_addr_def)
  show "SetBytes (nth_addr base i) = IPToBigInt base + i"
    unfolding nth_addr_def by (rule SetBytes_int_bytes_id [OF ge assms(3)])
  show "valid_ip (nth_addr base i)"
    unfolding nth_addr_def by (rule valid_ip_int_bytes)
qed

lemma IncrementIP_nth:
  assumes "valid_ip base" and "0 \<le> i" and "IPToBigInt base + i < 256 ^ ip_len base"
  shows "IncrementIP base i = Ok (nth_addr base i)"
  unfolding nth_addr_def
  by (rule IncrementIP_Ok) (use IPToBigInt_range(1) [OF assms(1)] assms in simp_all)

lemma nth_addr_inject:
  assumes "valid_ip base" "0 \<le> i" "IPToBigInt base + i < 256 ^ ip_len base"
    "0 \<le> j" "IPToBigInt base + j < 256 ^ ip_len base"
  shows "To16 (nth_addr base i) = To16 (nth_addr base j) \<longleftrightarrow> i = j"
proof
  assume eq: "To16 (nth_addr base i) = To16 (nth_addr base j)"
  have "length (nth_addr base i) = length (nth_addr base j)"
    using assms by (simp add: nth_addr_props)
  then have "nth_addr base i = nth_addr base j"
    using eq nth_addr_props(3) [OF assms(1-3)] by (auto simp: To16_def valid_ip_def split: if_splits)
  then have "IPToBigInt base + i = IPToBigInt base + j"
    using nth_addr_props(2) [OF assms(1-3)] nth_addr_props(2) [OF assms(1) assms(4,5)] by metis
  then show "i = j" by (rule add_left_imp_eq)
qed (rule arg_cong)

text \<open>Distinct offsets print as distinct strings, so a map keyed by strings is keyed by offsets.\<close>

lemma IP_String_nth_inject:
  assumes "valid_ip base" "0 \<le> i" "IPToBigInt base + i < 256 ^ ip_len base"
    "0 \<le> j" "IPToBigInt base + j < 256 ^ ip_len base"
  shows "IP_String (nth_addr base i) = IP_String (nth_addr base j) \<longleftrightarrow> i = j"
  unfolding nth_addr_inject [OF assms, symmetric]
  by (rule IP_String_inject)
    (rule nth_addr_props(3) [OF assms(1-3), unfolded valid_ip_def],
      rule nth_addr_props(3) [OF assms(1) assms(4,5), unfolded valid_ip_def])

lemma Contains_iff:
  assumes "sized e base n"
  shows "Contains e ip \<longleftrightarrow> IPToBigInt base \<le> IPToBigInt ip \<and> IPToBigInt ip < IPToBigInt base + n"
  using assms by (auto simp: Contains_def sized_values sized_size)

lemma IsOverlap_iff:
  assumes "sized e base n" and "sized e' base' n'"
  shows "IsOverlap e e' \<longleftrightarrow>
    {IPToBigInt base..<IPToBigInt base + n} \<inter> {IPToBigInt base'..<IPToBigInt base' + n'} \<noteq> {}"
proof -
  have "IsOverlap e e' \<longleftrightarrow>
      IPToBigInt base < IPToBigInt base' + n' \<and> IPToBigInt base' < IPToBigInt base + n"
    using assms by (auto simp: IsOverlap_def sized_values sized_size)
  moreover have "0 < n" "0 < n'" using assms by (simp_all add: sized_def)
  ultimately have "IsOverlap e e' \<longleftrightarrow>
      max (IPToBigInt base) (IPToBigInt base') < min (IPToBigInt base + n) (IPToBigInt base' + n')"
    by auto
  then show ?thesis by auto
qed

lemma mapped_range:
  assumes "length ip = 16" and "To4 ip \<noteq> []"
  shows "65535 * 2 ^ 32 \<le> SetBytes ip" and "SetBytes ip < 65536 * 2 ^ 32"
proof -
  have "SetBytes ip = SetBytes v4InV6Prefix * 256 ^ 4 + SetBytes (To4 ip)"
    using To4_mapped [OF assms] SetBytes_append [of v4InV6Prefix "To4 ip"] length_To4 [OF assms(2)] by simp
  moreover have "SetBytes v4InV6Prefix = 65535"
    by (simp add: v4InV6Prefix_def SetBytes_def)
  moreover have "SetBytes (To4 ip) < 256 ^ 4"
    using SetBytes_less [of "To4 ip"] length_To4 [OF assms(2)] by simp
  ultimately have eq: "SetBytes ip = 65535 * 2 ^ 32 + SetBytes (To4 ip)" and "SetBytes (To4 ip) < 2 ^ 32"
    by simp_all
  then show "65535 * 2 ^ 32 \<le> SetBytes ip" "SetBytes ip < 65536 * 2 ^ 32"
    by simp_all
qed

lemma sized_nth:
  assumes "sized e base n" and "0 \<le> i" and "i < n"
  shows "IncrementIP base i = Ok (nth_addr base i)"
    and "valid_ip (nth_addr base i)"
    and "IPToBigInt (nth_addr base i) = IPToBigInt base + i"
    and "ip_len (nth_addr base i) = ip_len base"
proof -
  have b: "valid_ip base" and lt: "IPToBigInt base + i < 256 ^ ip_len base"
    using assms by (auto simp: sized_def)
  note props = nth_addr_props [OF b assms(2) lt]
  show "IncrementIP base i = Ok (nth_addr base i)" by (rule IncrementIP_nth [OF b assms(2) lt])
  show v: "valid_ip (nth_addr base i)" by (rule props(3))
  show len: "ip_len (nth_addr base i) = ip_len base"
  proof (cases "ip_len base = 4")
    case True
    then show ?thesis using props(1) by (cases "nth_addr base i") (auto simp: ip_len_def)
  next
    case False
    then have l: "length (nth_addr base i) = 16" "ip_len base = 16"
      using props(1) by (auto simp: ip_len_def split: if_splits)
    have "To4 (nth_addr base i) = []"
    proof (rule ccontr)
      assume "To4 (nth_addr base i) \<noteq> []"
      from mapped_range [OF l(1) this] show False
        using props(2) assms False by (auto simp: sized_def)
    qed
    then show ?thesis using l(2) by (simp add: ip_len_def)
  qed
  show "IPToBigInt (nth_addr base i) = IPToBigInt base + i"
  proof -
    have "ip_norm (nth_addr base i) = nth_addr base i"
      using len props(1) by (auto simp: ip_norm_def ip_len_def split: if_splits)
    then show ?thesis using v props(2) by (simp add: IPToBigInt_norm)
  qed
qed

lemma IPToOrdinal_nth:
  assumes "sized e base n" and "0 \<le> i" and "i < n"
  shows "IPToOrdinal e (nth_addr base i) = i"
proof -
  have "to_int64 i = i"
    by (rule to_int64_id) (use assms in \<open>auto simp: sized_def\<close>)
  then show ?thesis
    using assms sized_nth(3) [OF assms] by (simp add: IPToOrdinal_def sized_def)
qed

text \<open>
  The converse holds for an address whose distance from the base is a signed 64-bit number:
  always for IPv4, not always for IPv6.
\<close>

lemma IPToOrdinal_nonneg:
  assumes "sized e base n" and "valid_ip ip" and "ip_len ip = ip_len base"
    and "\<bar>IPToBigInt ip - IPToBigInt base\<bar> < 2 ^ 63" and "IPToOrdinal e ip = i" and "0 \<le> i"
  shows "i < n" and "To16 (nth_addr base i) = To16 ip"
proof -
  have ord: "to_int64 (IPToBigInt ip - IPToBigInt base) = IPToBigInt ip - IPToBigInt base"
    by (rule to_int64_id) (use assms(4) in linarith)+
  then have i: "IPToBigInt ip = IPToBigInt base + i" and n: "i < n"
    using assms(1,5,6) by (auto simp: IPToOrdinal_def sized_def Let_def split: if_splits)
  note nth = sized_nth [OF assms(1,6) n]
  show "i < n" by (rule n)
  show "To16 (nth_addr base i) = To16 ip"
    using IPToBigInt_inject [OF nth(2) assms(2)] nth(3,4) assms(3) i by simp
qed

lemma IPToOrdinal_cases: "IPToOrdinal e ip = - 1 \<or> 0 \<le> IPToOrdinal e ip"
  by (auto simp: IPToOrdinal_def Let_def split: res.splits)

lemma IPToOrdinal_neg:
  assumes "sized e base n" and "\<bar>IPToBigInt ip - IPToBigInt base\<bar> < 2 ^ 63"
  shows "IPToOrdinal e ip < 0 \<longleftrightarrow> \<not> Contains e ip"
proof -
  have ord: "to_int64 (IPToBigInt ip - IPToBigInt base) = IPToBigInt ip - IPToBigInt base"
    by (rule to_int64_id) (use assms(2) in linarith)+
  then show ?thesis
    using assms(1) by (auto simp: IPToOrdinal_def Contains_iff [OF assms(1)] sized_def Let_def)
qed

section \<open>IPv4 pools\<close>

lemma find_Some_in_set: "find P xs = Some x \<Longrightarrow> x \<in> set xs"
  by (induction xs) (auto split: if_splits)

lemma ParseAddr_v4:
  assumes "CHR '':'' \<notin> set s" and "ParseAddr s = Some b"
  shows "length b = 4"
proof -
  obtain c where c: "find (\<lambda>c. c = CHR ''.'' \<or> c = CHR '':'' \<or> c = CHR ''%'') s = Some c"
    using assms(2) by (auto simp: ParseAddr_def split: option.splits)
  then have "c \<noteq> CHR '':''"
    using assms(1) find_Some_in_set [OF c] by blast
  with c show ?thesis
    using assms(2) by (auto simp: ParseAddr_def split: if_splits dest: length_parseIPv4Fields [rotated])
qed

lemma net_ParseIP_v4:
  assumes "CHR '':'' \<notin> set s" and "net_ParseIP s \<noteq> []"
  shows "length (net_ParseIP s) = 16" and "To4 (net_ParseIP s) \<noteq> []"
    and "ip_len (net_ParseIP s) = 4" and "valid_ip (net_ParseIP s)"
proof -
  obtain b where b: "ParseAddr s = Some b" "net_ParseIP s = To16 b"
    using assms(2) by (auto simp: net_ParseIP_def split: option.splits)
  have l: "length b = 4" by (rule ParseAddr_v4 [OF assms(1) b(1)])
  show len: "length (net_ParseIP s) = 16" using b l by (simp add: length_To16)
  show ne: "To4 (net_ParseIP s) \<noteq> []" using b l To4_To16 [of b] by auto
  show "ip_len (net_ParseIP s) = 4" using ne by (simp add: ip_len_def)
  show "valid_ip (net_ParseIP s)" using len by (simp add: valid_ip_def)
qed

lemma ParseIP_v4:
  assumes "CHR '':'' \<notin> set s" and "ParseIP s = Some ip"
  shows "length ip = 4" and "ip = To4 (net_ParseIP s)" and "net_ParseIP s \<noteq> []"
proof -
  show ne: "net_ParseIP s \<noteq> []"
    using assms(2) by (auto simp: ParseIP_def Let_def split: if_splits)
  note v4 = net_ParseIP_v4 [OF assms(1) ne]
  show "ip = To4 (net_ParseIP s)"
    using assms(2) v4(2) ne by (auto simp: ParseIP_def Let_def)
  then show "length ip = 4" using length_To4 [OF v4(2)] by simp
qed

lemma SplitN2_parts: "SplitN2 s c = [a, b] \<Longrightarrow> s = a @ c # b \<and> c \<notin> set a"
proof (induction s arbitrary: a)
  case (Cons x xs)
  show ?case
  proof (cases "x = c")
    case False
    obtain y ys where y: "SplitN2 xs c = y # ys"
      by (cases "SplitN2 xs c") (use Cons False in auto)
    with Cons.prems False have "ys = [b]" "a = x # y" by simp_all
    then show ?thesis using Cons.IH [of y] y False by simp
  qed (use Cons in auto)
qed simp

lemma ip_len_v4 [simp]: "length ip = 4 \<Longrightarrow> ip_len ip = 4"
  by (auto simp: ip_len_def)

lemma net_ParseCIDR_v4:
  assumes "CHR '':'' \<notin> set s" and "net_ParseCIDR s = Some (ip, n)"
  shows "length (net_IP n) = 4"
proof -
  obtain addr msk b k where s: "SplitN2 s CHR ''/'' = [addr, msk]" "ParseAddr addr = Some b"
    "k \<le> 8 * length b"
    "n = \<lparr>net_IP = IP_Mask (To16 b) (CIDRMask k (8 * length b)), net_Mask = CIDRMask k (8 * length b)\<rparr>"
    using assms(2)
    by (auto simp: net_ParseCIDR_def Let_def not_less split: list.splits option.splits if_splits)
  have "CHR '':'' \<notin> set addr" using SplitN2_parts [OF s(1)] assms(1) by auto
  then have "length b = 4" by (rule ParseAddr_v4 [OF _ s(2)])
  then show ?thesis using s(4) by (simp add: IP_Mask_def To16_def CIDRMask_def)
qed

lemma masked_fits:
  assumes "net_ok n k" and "net_masked n"
  shows "SetBytes (net_IP n) + 2 ^ (net_bits n - k) \<le> 256 ^ length (net_IP n)"
proof -
  obtain q where q: "SetBytes (net_IP n) = 2 ^ (net_bits n - k) * q"
    using net_masked_dvd [OF assms] by blast
  have pw: "(256 :: int) ^ length (net_IP n) = 2 ^ (net_bits n - k) * 2 ^ k"
    using assms(1) by (simp add: net_ok_def power_add [symmetric] power_mult)
  have "2 ^ (net_bits n - k) * q < 2 ^ (net_bits n - k) * 2 ^ k"
    using SetBytes_less [of "net_IP n"] q pw by simp
  then have "q + 1 \<le> 2 ^ k" by simp
  then have "(2 :: int) ^ (net_bits n - k) * (q + 1) \<le> 2 ^ (net_bits n - k) * 2 ^ k"
    by (rule mult_left_mono) simp
  then show ?thesis using q pw by (simp add: ring_distribs)
qed

lemma to_int64_small: "- 4294967296 \<le> x \<Longrightarrow> x \<le> 4294967296 \<Longrightarrow> to_int64 x = x"
  by (rule to_int64_id) simp_all

lemma SetBytes_v4: "length a = 4 \<Longrightarrow> SetBytes a < 4294967296"
  using SetBytes_less [of a] by simp

lemma to_int64_v4:
  assumes "length a = 4" and "length b = 4"
  shows "to_int64 (SetBytes a - SetBytes b) = SetBytes a - SetBytes b"
  using SetBytes_v4 [OF assms(1)] SetBytes_v4 [OF assms(2)] SetBytes_nonneg [of a] SetBytes_nonneg [of b]
  by (intro to_int64_small) linarith+

lemma address_v4_cases:
  assumes "CHR '':'' \<notin> set (Address (e_spec e))" and "GetSize e = Ok (base, n)"
  obtains
    (single) "net_ParseIP (Address (e_spec e)) \<noteq> []" "base = net_ParseIP (Address (e_spec e))" "n = 1"
  | (cidr) ip net k where "net_ParseCIDR (Address (e_spec e)) = Some (ip, net)" "base = net_IP net"
      "length (net_IP net) = 4" "net_ok net k" "net_masked net" "n = 2 ^ (32 - k)"
  | (dash) x y where "Address (e_spec e) = x @ CHR ''-'' # y" "CHR ''-'' \<notin> set x"
      "net_ParseIP x \<noteq> []" "net_ParseIP y \<noteq> []"
      "base = To4 (net_ParseIP x)" "IPToBigInt (net_ParseIP x) \<le> IPToBigInt (net_ParseIP y)"
      "n = IPToBigInt (net_ParseIP y) - IPToBigInt (net_ParseIP x) + 1"
proof -
  let ?a = "Address (e_spec e)"
  show thesis
  proof (cases "net_ParseIP ?a = []")
    case False
    then show ?thesis using assms(2) by (intro single) (simp_all add: GetSize_def Let_def)
  next
    case ip: True
    show ?thesis
    proof (cases "net_ParseCIDR ?a")
      case (Some r)
      obtain i net where r: "r = (i, net)" by force
      have l: "length (net_IP net) = 4"
        using net_ParseCIDR_v4 [OF assms(1)] Some r by simp
      then obtain k where k: "net_ok net k" "net_masked net"
        using net_ParseCIDR_network [of ?a i net] Some r by auto
      have "(2 :: int) ^ (32 - k) \<le> 2 ^ 32"
        by (rule power_increasing) simp_all
      then have "to_int64 (2 ^ (32 - k)) = 2 ^ (32 - k)"
        by (intro to_int64_small) (simp_all add: order_trans [OF _ zero_le_power])
      then show ?thesis
        using assms(2) ip Some r l k net_ok_Mask_Size [OF k(1)]
        by (intro cidr [of i net k]) (simp_all add: GetSize_def Let_def)
    next
      case None
      obtain x y b l where s: "SplitN2 ?a CHR ''-'' = [x, y]" "ParseIP x = Some b" "ParseIP y = Some l"
        using assms(2) ip None by (auto simp: GetSize_def Let_def split: list.splits option.splits)
      note parts = SplitN2_parts [OF s(1)]
      have nc: "CHR '':'' \<notin> set x" "CHR '':'' \<notin> set y"
        using parts assms(1) by auto
      note x = ParseIP_v4 [OF nc(1) s(2)] and y = ParseIP_v4 [OF nc(2) s(3)]
      note lt = SetBytes_v4 [OF x(1)] SetBytes_v4 [OF y(1)]
      have "base = b" "SetBytes b \<le> SetBytes l" "n = to_int64 (SetBytes l - SetBytes b + 1)"
        using assms(2) ip None s x y to_int64_v4 [OF y(1) x(1)]
        by (auto simp: GetSize_def Let_def split: if_splits)
      moreover have "to_int64 (SetBytes l - SetBytes b + 1) = SetBytes l - SetBytes b + 1"
        by (rule to_int64_small) (use lt SetBytes_nonneg [of b] SetBytes_nonneg [of l] in linarith)+
      moreover have "IPToBigInt (net_ParseIP x) = SetBytes b" "IPToBigInt (net_ParseIP y) = SetBytes l"
        using x y net_ParseIP_v4(2) [OF nc(1) x(3)] net_ParseIP_v4(2) [OF nc(2) y(3)]
        by (simp_all add: IPToBigInt_def)
      ultimately show ?thesis
        using parts x y by (intro dash [of x y]) simp_all
    qed
  qed
qed

lemma GetSize_v4_sized:
  assumes "CHR '':'' \<notin> set (Address (e_spec e))" and "GetSize e = Ok (base, n)"
  shows "sized e base n \<and> ip_len base = 4"
  using assms
proof (cases rule: address_v4_cases)
  case single
  then show ?thesis
    using net_ParseIP_v4 [OF assms(1) single(1)] IPToBigInt_range [of base] assms(2)
    by (simp add: sized_def)
next
  case (cidr ip net k)
  have "(2 :: int) ^ (32 - k) \<le> 2 ^ 32"
    by (rule power_increasing) simp_all
  then show ?thesis
    using cidr assms(2) masked_fits [OF cidr(4,5)] by (simp add: sized_def valid_ip_def)
next
  case (dash x y)
  have nc: "CHR '':'' \<notin> set x" "CHR '':'' \<notin> set y"
    using dash(1) assms(1) by auto
  note x = net_ParseIP_v4 [OF nc(1) dash(3)] and y = net_ParseIP_v4 [OF nc(2) dash(4)]
  have b: "length base = 4" "IPToBigInt (net_ParseIP x) = IPToBigInt base"
    using dash(5) length_To4 [OF x(2)] x(2) by (simp_all add: IPToBigInt_def)
  have "IPToBigInt (net_ParseIP y) < 4294967296" "0 \<le> IPToBigInt base"
    using IPToBigInt_range [OF y(4)] y(3) IPToBigInt_range [of base] b by (simp_all add: valid_ip_def)
  then have "n < 9223372036854775808" "IPToBigInt base + n \<le> 4294967296" "0 < n"
    using dash(6,7) b(2) by linarith+
  then show ?thesis
    using b assms(2) by (simp add: sized_def valid_ip_def)
qed

section \<open>The two readers of an IPv4 pool agree\<close>

lemma mapped_range_iff:
  assumes "length ip = 16"
  shows "To4 ip \<noteq> [] \<longleftrightarrow> 65535 * 2 ^ 32 \<le> SetBytes ip \<and> SetBytes ip < 65536 * 2 ^ 32"
proof
  assume r: "65535 * 2 ^ 32 \<le> SetBytes ip \<and> SetBytes ip < 65536 * 2 ^ 32"
  have "SetBytes ip = SetBytes (take 12 ip) * 4294967296 + SetBytes (drop 12 ip)"
    using SetBytes_append [of "take 12 ip" "drop 12 ip"] assms by simp
  moreover have "SetBytes (drop 12 ip) < 4294967296"
    using assms by (intro SetBytes_v4) simp
  moreover have "281470681743360 \<le> SetBytes ip" "SetBytes ip < 281474976710656"
    using r by simp_all
  ultimately have "SetBytes (take 12 ip) < 65536 \<and> 65534 < SetBytes (take 12 ip)"
    using SetBytes_nonneg [of "drop 12 ip"] by linarith
  then have "SetBytes (take 12 ip) = 65535" by simp
  also have "65535 = SetBytes v4InV6Prefix"
    by (simp add: v4InV6Prefix_def SetBytes_def)
  finally have "take 12 ip = v4InV6Prefix"
    using SetBytes_inject [of "take 12 ip" v4InV6Prefix] assms by simp
  then show "To4 ip \<noteq> []" using assms by (simp add: To4_def)
qed (use mapped_range [OF assms] in simp)

lemma SetBytes_mapped: "length ip = 16 \<Longrightarrow> To4 ip \<noteq> [] \<Longrightarrow> SetBytes ip = 65535 * 2 ^ 32 + IPToBigInt ip"
  using To4_mapped [of ip] SetBytes_append [of v4InV6Prefix "To4 ip"] length_To4 [of ip]
  by (simp add: IPToBigInt_def v4InV6Prefix_def SetBytes_def)

lemma v4Range_props:
  assumes "range_wf (v4Range s t)"
  shows "Range_Size (v4Range s t) = Ok (IPToBigInt t - IPToBigInt s + 1)"
    and "length ip = 16 \<Longrightarrow> Range_Contains (v4Range s t) ip \<longleftrightarrow>
      To4 ip \<noteq> [] \<and> IPToBigInt s \<le> IPToBigInt ip \<and> IPToBigInt ip \<le> IPToBigInt t"
proof -
  have st: "SetBytes s = 65535 * 2 ^ 32 + IPToBigInt s" "SetBytes t = 65535 * 2 ^ 32 + IPToBigInt t"
    using assms by (simp_all add: SetBytes_mapped)
  show "Range_Size (v4Range s t) = Ok (IPToBigInt t - IPToBigInt s + 1)"
    using rng.sz [OF assms] st by simp
  assume l: "length ip = 16"
  note c = rng.contains_iff [OF assms l, unfolded Range.sel]
  show "Range_Contains (v4Range s t) ip \<longleftrightarrow>
      To4 ip \<noteq> [] \<and> IPToBigInt s \<le> IPToBigInt ip \<and> IPToBigInt ip \<le> IPToBigInt t"
  proof (cases "To4 ip = []")
    case True
    have "65535 * 2 ^ 32 \<le> SetBytes s" "SetBytes t < 65536 * 2 ^ 32"
      using assms mapped_range(1) [of s] mapped_range(2) [of t] by (simp_all only: range_wf.simps simp_thms)
    then have "\<not> (SetBytes s \<le> SetBytes ip \<and> SetBytes ip \<le> SetBytes t)"
      using mapped_range_iff [OF l] True by linarith
    then show ?thesis unfolding c using True by blast
  next
    case False
    show ?thesis
      unfolding c st SetBytes_mapped [OF l False] using False by simp
  qed
qed

lemma New_v4:
  assumes "New s t = Some r" and "length s = 16" and "length t = 16" and "To4 s \<noteq> []"
  shows "r = v4Range s t" and "range_wf (v4Range s t)"
proof -
  show "r = v4Range s t"
    using assms by (auto simp: New_def isV6RangeValid_def isV6IP_def isV4IP_def split: if_splits)
  then show "range_wf (v4Range s t)" using New_Some [OF assms(1-3)] by simp
qed

lemma lower_char_other:
  "is_digit c \<or> c = CHR ''.'' \<or> c = CHR ''-'' \<or> c = CHR ''/'' \<Longrightarrow> lower_char c = c"
  by (auto simp: lower_char_def is_digit_def Let_def)

lemma ToLower_id: "(\<And>c. c \<in> set s \<Longrightarrow> is_digit c \<or> c = CHR ''.'' \<or> c = CHR ''-'' \<or> c = CHR ''/'') \<Longrightarrow> ToLower s = s"
  by (simp add: ToLower_def lower_char_other map_idI)

lemma parseIPv4Fields_chars:
  "parseIPv4Fields s v d f = Some b \<Longrightarrow> c \<in> set s \<Longrightarrow> is_digit c \<or> c = CHR ''.''"
  by (induction s v d f rule: parseIPv4Fields.induct) (auto split: if_splits)

lemma ParseAddr_v4_chars:
  assumes "CHR '':'' \<notin> set s" and "ParseAddr s = Some b" and "c \<in> set s"
  shows "is_digit c \<or> c = CHR ''.''"
proof -
  obtain d where d: "find (\<lambda>c. c = CHR ''.'' \<or> c = CHR '':'' \<or> c = CHR ''%'') s = Some d"
    using assms(2) by (auto simp: ParseAddr_def split: option.splits)
  then have "d \<noteq> CHR '':''"
    using assms(1) find_Some_in_set [OF d] by blast
  with d have "parseIPv4Fields s 0 0 [] = Some b"
    using assms(2) by (auto simp: ParseAddr_def split: if_splits)
  then show ?thesis using assms(3) by (rule parseIPv4Fields_chars)
qed

lemma net_ParseIP_v4_chars:
  assumes "CHR '':'' \<notin> set s" and "net_ParseIP s \<noteq> []" and "c \<in> set s"
  shows "is_digit c \<or> c = CHR ''.''"
  using assms ParseAddr_v4_chars [OF assms(1) _ assms(3)] by (auto simp: net_ParseIP_def split: option.splits)

lemma net_ParseIP_not_Nil_string: "net_ParseIP s \<noteq> [] \<Longrightarrow> s \<noteq> []"
  by (auto simp: net_ParseIP_def ParseAddr_def)

lemma digits_no_ip: "list_all is_digit s \<Longrightarrow> net_ParseIP s = []"
proof -
  assume "list_all is_digit s"
  then have "find (\<lambda>c. c = CHR ''.'' \<or> c = CHR '':'' \<or> c = CHR ''%'') s = None"
    by (auto simp: find_None_iff list_all_iff is_digit_def)
  then show ?thesis by (simp add: net_ParseIP_def ParseAddr_def)
qed

lemma ParseRange_branch:
  "ParseRange AR a = Ok (Some r) \<Longrightarrow> ToLower a = a \<Longrightarrow>
    (reRange a \<and> parseRange a = Some r) \<or> (\<not> reRange a \<and> reCIDR a \<and> parseCIDR AR a = Some r) \<or>
    (\<not> reRange a \<and> reSubnetMask a \<and> parseSubnetMask AR a = Some r)"
  by (auto simp: ParseRange_def Let_def split: option.splits if_splits)

lemma not_digit_slash [simp]: "\<not> is_digit CHR ''/''" "\<not> is_digit CHR ''-''"
  by (simp_all add: is_digit_def)

lemma not_re_addr_char_slash [simp]: "\<not> re_addr_char CHR ''/''"
  by (simp add: re_addr_char_def is_digit_def)

lemma reRange_v4: "s \<noteq> [] \<Longrightarrow> (\<And>c. c \<in> set s \<Longrightarrow> is_digit c \<or> c = CHR ''.'' \<or> c = CHR ''-'') \<Longrightarrow> reRange s"
  by (auto simp: reRange_def re_addr_char_def list_all_iff)

lemma not_reRange_slash: "CHR ''/'' \<in> set s \<Longrightarrow> \<not> reRange s"
  using not_re_addr_char_slash by (auto simp: reRange_def list_all_iff simp del: not_re_addr_char_slash)

lemma cidr_not_subnet_mask:
  assumes "net_ParseCIDR s = Some p"
  shows "parseSubnetMask AR s = None"
proof -
  obtain addr msk k where s: "SplitN2 s CHR ''/'' = [addr, msk]" "dtoi msk = Some k"
    using assms by (auto simp: net_ParseCIDR_def split: list.splits option.splits)
  have d: "list_all is_digit msk" using s(2) by (auto simp: dtoi_def split: if_splits)
  then have "CHR ''/'' \<notin> set msk" by (auto simp: list_all_iff)
  then have "last (Split s CHR ''/'') = msk"
    using SplitN2_parts [OF s(1)] by (simp add: Split_append_sep Split_no_sep)
  then show ?thesis
    using SplitN2_parts [OF s(1)] digits_no_ip [OF d] by (auto simp: parseSubnetMask_def cut_last_def)
qed

lemma v4_range_bounds:
  assumes "address_range AR" and "CHR '':'' \<notin> set (Address (e_spec e))"
    and "GetSize e = Ok (base, n)" and "ParseRange AR (Address (e_spec e)) = Ok (Some r)"
  obtains s t where "r = v4Range s t" "range_wf r" "IPToBigInt s = IPToBigInt base"
    "IPToBigInt t = IPToBigInt base + n - 1"
proof -
  let ?a = "Address (e_spec e)"
  show thesis
    using assms(2,3)
  proof (cases rule: address_v4_cases)
    case single
    note v4 = net_ParseIP_v4 [OF assms(2) single(1)]
    have ch: "is_digit c \<or> c = CHR ''.''" if "c \<in> set ?a" for c
      by (rule net_ParseIP_v4_chars [OF assms(2) single(1) that])
    have "reRange ?a"
      using ch net_ParseIP_not_Nil_string [OF single(1)] by (intro reRange_v4) auto
    moreover have "ToLower ?a = ?a" using ch by (intro ToLower_id) auto
    moreover have "CHR ''-'' \<notin> set ?a" using ch [of "CHR ''-''"] by auto
    ultimately have "New base base = Some r"
      using assms(4) single ParseRange_branch [OF assms(4)] by (auto simp: parseRange_def SplitN2_none)
    then show thesis
      using New_v4 [of base base r] v4 single that [of base base] by simp
  next
    case (cidr ip net k)
    obtain addr msk where p: "SplitN2 ?a CHR ''/'' = [addr, msk]" "ParseAddr addr \<noteq> None" "dtoi msk \<noteq> None"
      using cidr(1) by (auto simp: net_ParseCIDR_def split: list.splits option.splits)
    have ch: "is_digit c \<or> c = CHR ''.'' \<or> c = CHR ''/''" if "c \<in> set ?a" for c
      using that SplitN2_parts [OF p(1)] p(2,3) ParseAddr_v4_chars [of addr] assms(2)
      by (auto simp: dtoi_def list_all_iff split: if_splits)
    have "ToLower ?a = ?a" using ch by (intro ToLower_id) auto
    moreover have "\<not> reRange ?a"
      using SplitN2_parts [OF p(1)] by (intro not_reRange_slash) simp
    ultimately have pc: "parseCIDR AR ?a = Some r"
      using ParseRange_branch [OF assms(4)] cidr_not_subnet_mask [OF cidr(1), of AR] by auto
    obtain a b where AR: "AR net = (a, b)" by force
    have ab: "a = net_IP net" "length b = 4" "SetBytes b = SetBytes (net_IP net) + 2 ^ (32 - k) - 1"
      using assms(1) cidr AR unfolding address_range_def by fastforce+
    have "parseRange (IP_String a @ ''-'' @ IP_String b) = Some r"
      using pc cidr(1) AR by (simp add: parseCIDR_def del: append.simps)
    then have "New (To16 a) (To16 b) = Some r"
      using ab cidr(3) by (simp add: parseRange_dash valid_ip_def del: append.simps)
    moreover have "net_IP net \<noteq> []" using cidr(3) by auto
    ultimately have "r = v4Range (To16 a) (To16 b)" "range_wf r"
      using New_v4 [of "To16 a" "To16 b" r] ab cidr(3) To4_To16 [of a] length_To16 [of a] length_To16 [of b]
      by auto
    moreover have "IPToBigInt (To16 a) = IPToBigInt base" "IPToBigInt (To16 b) = SetBytes b"
      using ab cidr(2,3) IPToBigInt_norm [of "To16 a"] IPToBigInt_norm [of "To16 b"] length_To16 [of a]
        length_To16 [of b] ip_norm_To16 [of a] ip_norm_To16 [of b] IPToBigInt_norm [of a] IPToBigInt_norm [of b]
      by (simp_all add: valid_ip_def)
    ultimately show thesis
      using that [of "To16 a" "To16 b"] ab cidr by simp
  next
    case (dash x y)
    have nc: "CHR '':'' \<notin> set x" "CHR '':'' \<notin> set y"
      using dash(1) assms(2) by auto
    note x = net_ParseIP_v4 [OF nc(1) dash(3)] and y = net_ParseIP_v4 [OF nc(2) dash(4)]
    have ch: "is_digit c \<or> c = CHR ''.'' \<or> c = CHR ''-''" if "c \<in> set ?a" for c
      using that dash(1) net_ParseIP_v4_chars [OF nc(1) dash(3)] net_ParseIP_v4_chars [OF nc(2) dash(4)]
      by auto
    have "ToLower ?a = ?a" using ch by (intro ToLower_id) auto
    moreover have "reRange ?a" using ch dash(1) by (intro reRange_v4) auto
    ultimately have "New (net_ParseIP x) (net_ParseIP y) = Some r"
      using ParseRange_branch [OF assms(4)] dash(1,2) by (auto simp: parseRange_def SplitN2_cut)
    then have "r = v4Range (net_ParseIP x) (net_ParseIP y)" "range_wf r"
      using New_v4 [of "net_ParseIP x" "net_ParseIP y" r] x y by auto
    moreover have "IPToBigInt (net_ParseIP x) = IPToBigInt base"
      using dash(5) x(2) by (simp add: IPToBigInt_def)
    ultimately show thesis
      using that [of "net_ParseIP x" "net_ParseIP y"] dash(7) by simp
  qed
qed

section \<open>Admission\<close>

lemma validateOverlap_Ok:
  "validateOverlap e eips = Ok () \<longleftrightarrow> (\<forall>eip\<in>set eips. e_name eip = e_name e \<or> \<not> IsOverlap e eip)"
  by (induction e eips rule: validateOverlap.induct) auto

lemma validateDefault_loop_Ok:
  "validateDefault_loop e eips = Ok () \<longleftrightarrow>
     (\<forall>eip\<in>set eips. e_name eip = e_name e \<or>
        \<not> HasOpenELBDefaultEipAnnotation (m_annotations (e_meta eip)))"
  by (induction e eips rule: validateDefault_loop.induct) auto

lemma ValidateCreate_Ok:
  assumes "ValidateCreate C e w = (Ok (), w')"
  shows "\<exists>base n eips. GetSize e = Ok (base, n) \<and> cListEips C w = (Ok eips, w') \<and>
    validateOverlap e eips = Ok () \<and> validateDefault e eips = Ok ()"
  using assms
  by (auto simp: ValidateCreate_def Eip_validate_def res_simps split: if_splits)

text \<open>The set of numbers of the addresses of an EIP.\<close>

definition pool_numbers :: "Eip \<Rightarrow> int set" where
  "pool_numbers e = (case GetSize e of
     Ok (base, n) \<Rightarrow> {IPToBigInt base..<IPToBigInt base + n} | _ \<Rightarrow> {})"

definition v4_eip :: "Eip \<Rightarrow> bool" where
  "v4_eip e \<longleftrightarrow> CHR '':'' \<notin> set (Address (e_spec e)) \<and> is_Ok (GetSize e)"

lemma v4_eip_sized:
  assumes "v4_eip e"
  obtains base n where "GetSize e = Ok (base, n)" "sized e base n" "ip_len base = 4"
    "pool_numbers e = {IPToBigInt base..<IPToBigInt base + n}"
proof (cases "GetSize e")
  case (Ok p)
  obtain base n where p: "p = (base, n)" by force
  show ?thesis
    using that [of base n] GetSize_v4_sized [of e base n] assms Ok p
    by (simp add: v4_eip_def pool_numbers_def)
qed (use assms in \<open>auto simp: v4_eip_def\<close>)

lemma IsOverlap_v4: "v4_eip e \<Longrightarrow> v4_eip e' \<Longrightarrow> IsOverlap e e' \<longleftrightarrow> pool_numbers e \<inter> pool_numbers e' \<noteq> {}"
  by (elim v4_eip_sized) (simp add: IsOverlap_iff)

lemma Contains_v4: "v4_eip e \<Longrightarrow> Contains e ip \<longleftrightarrow> IPToBigInt ip \<in> pool_numbers e"
  by (elim v4_eip_sized) (simp add: Contains_iff)

section \<open>Correctness\<close>

text \<open>An EIP with a name and an address, for the examples.\<close>

definition sample_eip :: "string \<Rightarrow> string \<Rightarrow> Eip" where
  "sample_eip name address =
     zero_Eip\<lparr>e_meta := zero_meta\<lparr>m_name := name\<rparr>, e_spec := zero_EipSpec\<lparr>Address := address\<rparr>\<rparr>"

lemma sample_eip_sizes:
  "GetSize (sample_eip ''a'' ''192.168.0.100-192.168.0.103'') = Ok ([192, 168, 0, 100], 4)"
  "GetSize (sample_eip ''b'' ''192.168.0.8/29'') = Ok ([192, 168, 0, 8], 8)"
  by code_simp+

lemma sample_eip_sel [simp]:
  "Address (e_spec (sample_eip name address)) = address" "e_name (sample_eip name address) = name"
  "Protocol (e_spec (sample_eip name address)) = []" "m_annotations (e_meta (sample_eip name address)) = None"
  by (simp_all add: sample_eip_def zero_EipSpec_def zero_meta_def)

lemma sample_eips_v4:
  "v4_eip (sample_eip ''a'' ''192.168.0.100-192.168.0.103'')" "v4_eip (sample_eip ''b'' ''192.168.0.8/29'')"
  by (simp_all add: v4_eip_def sample_eip_sizes)

text \<open>
  (C18) Ordinals and addresses of an IPv4 pool: \<open>IPToOrdinal\<close> numbers exactly the addresses of the
  pool, and counting up from the base with \<open>IncrementIP\<close>, as the allocator does, inverts it.
\<close>

theorem IPToOrdinal_IncrementIP:
  assumes "v4_eip e" and "GetSize e = Ok (base, n)"
  shows "(\<forall>i. 0 \<le> i \<and> i < n \<longrightarrow>
            (\<exists>ip. IncrementIP base i = Ok ip \<and> Contains e ip \<and> IPToOrdinal e ip = i)) \<and>
         (\<forall>ip. length ip = 4 \<longrightarrow>
            (if Contains e ip
             then 0 \<le> IPToOrdinal e ip \<and> IPToOrdinal e ip < n \<and>
                  IncrementIP base (IPToOrdinal e ip) = Ok ip
             else IPToOrdinal e ip = - 1))"
proof -
  have sz: "sized e base n" and b4: "ip_len base = 4"
    using assms GetSize_v4_sized [of e base n] by (auto simp: v4_eip_def)
  have 1: "\<exists>ip. IncrementIP base i = Ok ip \<and> Contains e ip \<and> IPToOrdinal e ip = i" if "0 \<le> i" "i < n" for i
    using sized_nth [OF sz that] IPToOrdinal_nth [OF sz that] that by (auto simp: Contains_iff [OF sz])
  have "0 \<le> IPToBigInt base" "IPToBigInt base < 4294967296"
    using IPToBigInt_range [of base] sz b4 by (simp_all add: sized_def)
  then have "\<bar>SetBytes ip - IPToBigInt base\<bar> < 9223372036854775808" if "length ip = 4" for ip
    using SetBytes_v4 [OF that] SetBytes_nonneg [of ip] by linarith
  then have d: "\<bar>IPToBigInt ip - IPToBigInt base\<bar> < 2 ^ 63" if "length ip = 4" for ip
    using that by simp
  have 2: "IPToOrdinal e ip = - 1" if "length ip = 4" "\<not> Contains e ip" for ip
    using IPToOrdinal_neg [OF sz d [OF that(1)]] IPToOrdinal_cases [of e ip] that by auto
  have 3: "0 \<le> IPToOrdinal e ip \<and> IPToOrdinal e ip < n \<and> IncrementIP base (IPToOrdinal e ip) = Ok ip"
    if ip: "length ip = 4" "Contains e ip" for ip
  proof -
    have ge: "0 \<le> IPToOrdinal e ip"
      using IPToOrdinal_neg [OF sz d [OF ip(1)]] ip by auto
    note ord = IPToOrdinal_nonneg [OF sz _ _ d [OF ip(1)] refl ge]
    have lt: "IPToOrdinal e ip < n" and "To16 (nth_addr base (IPToOrdinal e ip)) = To16 ip"
      using ord ip b4 by (simp_all add: valid_ip_def)
    then have "nth_addr base (IPToOrdinal e ip) = ip"
      using ip(1) b4 by (simp add: To16_def nth_addr_def)
    then show ?thesis
      using ge lt sized_nth(1) [OF sz ge lt] by simp
  qed
  show ?thesis using 1 2 3 by auto
qed

theorem IPToOrdinal_IncrementIP_witness:
  "\<exists>ip. IncrementIP [192, 168, 0, 100] 3 = Ok ip \<and>
     IPToOrdinal (sample_eip ''a'' ''192.168.0.100-192.168.0.103'') ip = 3"
  using IPToOrdinal_IncrementIP [OF sample_eips_v4(1) sample_eip_sizes(1), THEN conjunct1, THEN spec, of 3]
  by auto

text \<open>
  (C19) The two readers of an address agree on IPv4 pools: the pool that \<open>GetSize\<close> hands to the
  allocator is the range that \<open>iprange.ParseRange\<close> hands to the speakers, whichever of the
  syntaxes the address is written in.
\<close>

theorem GetSize_agrees_with_ParseRange:
  assumes "address_range AR" and "v4_eip e" and "GetSize e = Ok (base, n)"
    and "ParseRange AR (Address (e_spec e)) = Ok (Some r)"
  shows "Range_Family r = V4Family \<and> Range_Size r = Ok n \<and>
    (\<forall>ip. length ip = 16 \<longrightarrow> Range_Contains r ip = (To4 ip \<noteq> [] \<and> Contains e ip))"
proof -
  have nc: "CHR '':'' \<notin> set (Address (e_spec e))" using assms(2) by (simp add: v4_eip_def)
  obtain s t where r: "r = v4Range s t" "range_wf r" "IPToBigInt s = IPToBigInt base"
    "IPToBigInt t = IPToBigInt base + n - 1"
    by (rule v4_range_bounds [OF assms(1) nc assms(3,4)])
  have sz: "sized e base n" using GetSize_v4_sized [OF nc assms(3)] by simp
  show ?thesis
    using v4Range_props [of s t] r by (auto simp: Contains_iff [OF sz])
qed

lemma sample_range:
  "ParseRange net_ends ''192.168.0.100-192.168.0.103'' =
     Ok (Some (v4Range (v4InV6Prefix @ [192, 168, 0, 100]) (v4InV6Prefix @ [192, 168, 0, 103])))"
  by code_simp

theorem GetSize_agrees_with_ParseRange_witness:
  "Range_Size (v4Range (v4InV6Prefix @ [192, 168, 0, 100]) (v4InV6Prefix @ [192, 168, 0, 103])) = Ok 4"
  using GetSize_agrees_with_ParseRange [OF address_range_net_ends sample_eips_v4(1) sample_eip_sizes(1)]
    sample_range by simp

text \<open>
  (C11) Two IPv4 EIPs overlap exactly when some address belongs to both, and the test is
  symmetric.
\<close>

theorem IsOverlap_common_address:
  assumes "v4_eip e" and "v4_eip e'"
  shows "IsOverlap e e' = (\<exists>ip. length ip = 4 \<and> Contains e ip \<and> Contains e' ip) \<and>
    IsOverlap e e' = IsOverlap e' e"
proof -
  obtain base n where e: "sized e base n" "ip_len base = 4"
    "pool_numbers e = {IPToBigInt base..<IPToBigInt base + n}"
    by (rule v4_eip_sized [OF assms(1)])
  have "\<exists>ip. length ip = 4 \<and> IPToBigInt ip = x" if "x \<in> pool_numbers e" for x
  proof (intro exI conjI)
    let ?ip = "nth_addr base (x - IPToBigInt base)"
    have "0 \<le> x - IPToBigInt base" "x - IPToBigInt base < n" using that e(3) by auto
    note nth = sized_nth [OF e(1) this]
    show "length ?ip = 4" using e(2) by (simp add: nth_addr_def)
    show "IPToBigInt ?ip = x" using nth(3) by simp
  qed
  then have "IsOverlap e e' \<longleftrightarrow> (\<exists>ip. length ip = 4 \<and> Contains e ip \<and> Contains e' ip)"
    unfolding IsOverlap_v4 [OF assms] Contains_v4 [OF assms(1)] Contains_v4 [OF assms(2)] by blast
  moreover have "IsOverlap e e' = IsOverlap e' e"
    using IsOverlap_v4 [OF assms] IsOverlap_v4 [OF assms(2,1)] by (simp add: Int_commute)
  ultimately show ?thesis by simp
qed

theorem IsOverlap_common_address_witness:
  "\<not> IsOverlap (sample_eip ''a'' ''192.168.0.100-192.168.0.103'') (sample_eip ''b'' ''192.168.0.8/29'') \<and>
   \<not> (\<exists>ip. length ip = 4 \<and> Contains (sample_eip ''a'' ''192.168.0.100-192.168.0.103'') ip \<and>
            Contains (sample_eip ''b'' ''192.168.0.8/29'') ip)"
proof -
  have "\<not> IsOverlap (sample_eip ''a'' ''192.168.0.100-192.168.0.103'') (sample_eip ''b'' ''192.168.0.8/29'')"
    by (simp add: IsOverlap_def GetSize_values_def sample_eip_sizes IPToBigInt_def SetBytes_def To4_def to_int64_def)
  then show ?thesis
    using IsOverlap_common_address [OF sample_eips_v4] by simp
qed

definition eips_consistent :: "Eip list \<Rightarrow> bool" where
  "eips_consistent eips \<longleftrightarrow>
     (\<forall>e\<in>set eips. \<forall>e'\<in>set eips. e_name e \<noteq> e_name e' \<longrightarrow>
        (v4_eip e \<and> v4_eip e' \<longrightarrow> pool_numbers e \<inter> pool_numbers e' = {}) \<and>
        \<not> (HasOpenELBDefaultEipAnnotation (m_annotations (e_meta e)) \<and>
            HasOpenELBDefaultEipAnnotation (m_annotations (e_meta e'))))"

text \<open>
  (C10) The admission webhook keeps the EIPs consistent: when no two stored IPv4 EIPs have a common address and at
  most one stored EIP is marked as the default, the same holds after \<open>ValidateCreate\<close> has admitted a new EIP. EIPs of
  both families may be stored and admitted, but disjointness is claimed between IPv4 EIPs only: for IPv6 it
  fails, since a wide CIDR has size 0.
\<close>

theorem ValidateCreate_keeps_consistent:
  assumes "cListEips C w = (Ok eips, w1)" and "eips_consistent eips"
    and "ValidateCreate C e w = (Ok (), w')"
  shows "eips_consistent (e # eips)"
proof -
  have ov: "validateOverlap e eips = Ok ()" and df: "validateDefault e eips = Ok ()"
    using ValidateCreate_Ok [OF assms(3)] assms(1) by auto
  have "(v4_eip e \<and> v4_eip eip \<longrightarrow> pool_numbers e \<inter> pool_numbers eip = {}) \<and>
      \<not> (HasOpenELBDefaultEipAnnotation (m_annotations (e_meta e)) \<and>
          HasOpenELBDefaultEipAnnotation (m_annotations (e_meta eip)))"
    if eip: "eip \<in> set eips" "e_name eip \<noteq> e_name e" for eip
    using ov df eip IsOverlap_v4 [of e eip]
    by (auto simp: validateOverlap_Ok validateDefault_def validateDefault_loop_Ok split: if_splits)
  then show ?thesis
    using assms(2) unfolding eips_consistent_def by (auto simp: Int_commute)
qed

theorem ValidateCreate_keeps_consistent_witness:
  "pool_numbers (sample_eip ''b'' ''192.168.0.8/29'') \<inter> pool_numbers (sample_eip ''a'' ''192.168.0.100-192.168.0.103'') = {}"
proof -
  let ?a = "sample_eip ''a'' ''192.168.0.100-192.168.0.103''" and ?b = "sample_eip ''b'' ''192.168.0.8/29''"
  let ?w = "empty_mem\<lparr>mEips := [?a]\<rparr>"
  have "ValidateCreate mem_client ?b ?w = (Ok (), ?w)"
    by (simp add: ValidateCreate_def sample_eip_sizes needs_interface_def Eip_validate_def validateDefault_def
        HasOpenELBDefaultEipAnnotation_def IsOverlap_def GetSize_values_def IPToBigInt_def SetBytes_def
        To4_def to_int64_def const_defs)
  then have "eips_consistent [?b, ?a]"
    using ValidateCreate_keeps_consistent [of mem_client ?w "[?a]" ?w ?b ?w] by (simp add: eips_consistent_def)
  then show ?thesis using sample_eips_v4 by (simp add: eips_consistent_def)
qed

text \<open>
  (C20) An IPv6 CIDR of at least \<open>2^64\<close> addresses (prefix length at most 64) has the size 0: the shift
  \<open>1 << uint(size-ones)\<close> is computed in 64 bits. Such an EIP is admitted but contains no address.
\<close>

theorem GetSize_wide_IPv6_CIDR:
  assumes "net_ParseIP (Address (e_spec e)) = []" and "net_ParseCIDR (Address (e_spec e)) = Some (ip, n)"
    and "net_ok n k" and "length (net_IP n) = 16" and "k \<le> 64"
  shows "GetSize e = Ok (net_IP n, 0) \<and> (\<forall>x. \<not> Contains e x)"
proof -
  have "to_int64 (2 ^ (128 - k)) = 0"
    by (rule to_int64_shift) (use assms(5) in simp)
  then have "GetSize e = Ok (net_IP n, 0)"
    using assms net_ok_Mask_Size [OF assms(3)] by (simp add: GetSize_def)
  then show ?thesis
    by (auto simp: Contains_def GetSize_values_def to_int64_def)
qed

lemma sample_v6_network:
  "net_ParseIP ''::/64'' = []"
  "net_ParseCIDR ''::/64'' =
     Some ([0, 0, 0, 0, 0, 0, 0, 0, 0, 0, 0, 0, 0, 0, 0, 0],
       \<lparr>net_IP = [0, 0, 0, 0, 0, 0, 0, 0, 0, 0, 0, 0, 0, 0, 0, 0], net_Mask = CIDRMask_bytes 64 16\<rparr>)"
  by code_simp+

theorem GetSize_wide_IPv6_CIDR_witness:
  "GetSize (sample_eip ''c'' ''::/64'') =
     Ok ([0, 0, 0, 0, 0, 0, 0, 0, 0, 0, 0, 0, 0, 0, 0, 0], 0)"
  using GetSize_wide_IPv6_CIDR [of "sample_eip ''c'' ''::/64''", OF _ _ _ _ order_refl] sample_v6_network
  by (simp add: net_ok_def To4_def v4InV6Prefix_def)

end
