(* ===== verification/IPAM.thy ===== *)
theory IPAM
  imports EipTypes
begin

text \<open>
  The address manager: \<open>pkg/controllers/ipam/ipam.go\<close>.

  A method that changes an \<open>Eip\<close> through a pointer returns the changed object; \<open>DeepCopy\<close> is the
  identity on values. The store of record is the API server, the parameter \<open>client\<close>.

  \<open>Used\<close> in the status of an \<open>Eip\<close> maps an address to the services that hold it, their
  \<open>namespace/name\<close> keys joined by semicolons. \<open>eip_inv\<close> is the invariant of a status: the keys are
  addresses of the pool, the counters agree with the map. The lemmas show what \<open>assignIPFromEip\<close> and
  \<open>releaseIPFromEip\<close> do on every branch and that both keep the invariant; \<open>ipam_step\<close> runs them
  in any interleaving.
\<close>

section \<open>Records\<close>

record svcRecord =
  sr_Key :: string
  sr_IP :: string
  sr_Eip :: string

record Request =
  Allocate :: "svcRecord option"
  Release :: "svcRecord option"

definition empty_Request :: Request where
  "empty_Request = \<lparr>Allocate = None, Release = None\<rparr>"

definition svcRecord_String :: "svcRecord \<Rightarrow> string" where
  "svcRecord_String s = ''service:'' @ sr_Key s @ '', ip:'' @ sr_IP s @ '', eip:'' @ sr_Eip s"

section \<open>Assigning and releasing in a status\<close>

text \<open>The loop over \<open>Used\<close> that looks for the requested assignment.\<close>

fun find_assigned :: "svcRecord \<Rightarrow> (string, string) gomap \<Rightarrow> string option" where
  "find_assigned allocate [] = None"
| "find_assigned allocate ((addr, svcs) # used) =
     (if list_ex (\<lambda>svc. svc = sr_Key allocate \<and> sr_IP allocate = addr) (Split svcs CHR '';'')
      then Some addr else find_assigned allocate used)"

abbreviation upd_status :: "(EipStatus \<Rightarrow> EipStatus) \<Rightarrow> Eip \<Rightarrow> Eip" where
  "upd_status f eip \<equiv> eip\<lparr>e_status := f (e_status eip)\<rparr>"

text \<open>The body of the search loop for an address that nobody uses.\<close>

definition take_free :: "svcRecord \<Rightarrow> string \<Rightarrow> EipStatus \<Rightarrow> EipStatus" where
  "take_free allocate addr st =
     (let used = mset_at addr (sr_Key allocate) (nmap (Used st));
          usage = int (length used) in
      st\<lparr>Used := Some used, Usage := usage,
         Occupied := (if usage = PoolSize st then True else Occupied st)\<rparr>)"

definition share :: "svcRecord \<Rightarrow> string \<Rightarrow> string \<Rightarrow> EipStatus \<Rightarrow> EipStatus" where
  "share allocate addr tmp st =
     st\<lparr>Used := Some (mset_at addr (tmp @ '';'' @ sr_Key allocate) (nmap (Used st)))\<rparr>"

function assign_loop :: "svcRecord \<Rightarrow> bool \<Rightarrow> int \<Rightarrow> Eip \<Rightarrow> string res \<times> Eip" where
  "assign_loop allocate fixed offset eip =
     (if offset < PoolSize (e_status eip) then
        (case ParseIP (FirstIP (e_status eip)) of
           None \<Rightarrow> (Panic ''invalid memory address or nil pointer dereference'', eip)
         | Some first \<Rightarrow>
             (case IncrementIP first offset of
                Panic p \<Rightarrow> (Panic p, eip)
              | Err e \<Rightarrow> (Err e, eip)
              | Ok ip \<Rightarrow>
                  (let addr = IP_String ip in
                   case mget (nmap (Used (e_status eip))) addr of
                     None \<Rightarrow> (Ok addr, upd_status (take_free allocate addr) eip)
                   | Some tmp \<Rightarrow>
                       if fixed then (Ok addr, upd_status (share allocate addr tmp) eip)
                       else assign_loop allocate fixed (offset + 1) eip)))
      else (Err (Errorf ''no suitable ip to allocate''), eip))"
  by pat_completeness auto
termination
  by (relation "measure (\<lambda>(_, _, offset, eip). nat (PoolSize (e_status eip) - offset))") auto

declare assign_loop.simps [simp del]

definition assignIPFromEip :: "svcRecord option \<Rightarrow> Eip \<Rightarrow> string res \<times> Eip" where
  "assignIPFromEip allocate eip =
     (case allocate of
        None \<Rightarrow> (Err (Errorf ''allocate is nil''), eip)
      | Some r \<Rightarrow>
          if e_deleting eip then (Err (Errorf (''eip:'' @ e_name eip @ '' is deleting'')), eip)
          else if Disable (e_spec eip)
          then (Err (Errorf (''eip:'' @ e_name eip @ '' is disabled'')), eip)
          else
            (case find_assigned r (nmap (Used (e_status eip))) of
               Some addr \<Rightarrow> (Ok addr, eip)
             | None \<Rightarrow>
                 (let ip = net_ParseIP (sr_IP r) in
                  if ip \<noteq> [] \<and> IPToOrdinal eip ip < 0
                  then (Err (Errorf (''the specified ip:'' @ sr_IP r @ '' is beyond the range of eip['' @
                               e_name eip @ '':'' @ Address (e_spec eip) @ '']'')), eip)
                  else assign_loop r (ip \<noteq> []) (if ip \<noteq> [] then IPToOrdinal eip ip else 0) eip)))"

text \<open>One round of the inner loop of \<open>releaseIPFromEip\<close>, and the loop over \<open>Used\<close>.\<close>

definition release_svc :: "string \<Rightarrow> string \<Rightarrow> string list \<Rightarrow> EipStatus \<Rightarrow> string \<Rightarrow> EipStatus" where
  "release_svc svcInfo addr tmp st svc =
     (if svc \<noteq> svcInfo then st
      else if length tmp = 1 then
        (let used = mdel_opt addr (Used st); usage = int (length (nmap used)) in
         st\<lparr>Used := used, Usage := usage,
            Occupied := (if usage \<noteq> PoolSize st then False else Occupied st)\<rparr>)
      else
        st\<lparr>Used := Some (mset_at addr (Join (RemoveString tmp svcInfo) '';'') (nmap (Used st)))\<rparr>)"

definition release_entry :: "string \<Rightarrow> EipStatus \<Rightarrow> string \<times> string \<Rightarrow> EipStatus" where
  "release_entry svcInfo st entry =
     (let tmp = Split (snd entry) CHR '';'' in
      foldl (release_svc svcInfo (fst entry) tmp) st tmp)"

definition releaseIPFromEip :: "string \<Rightarrow> Eip \<Rightarrow> Eip" where
  "releaseIPFromEip svcInfo eip =
     (if e_deleting eip then eip
      else upd_status (\<lambda>st. foldl (release_entry svcInfo) st (nmap (Used st))) eip)"

section \<open>Choosing an EIP\<close>

fun find_holder :: "string \<Rightarrow> (string, string) gomap \<Rightarrow> string option" where
  "find_holder svcInfo [] = None"
| "find_holder svcInfo ((addr, used) # m) =
     (if list_ex (\<lambda>svc. svc = svcInfo) (Split used CHR '';'') then Some addr
      else find_holder svcInfo m)"

fun allocated_loop :: "string \<Rightarrow> Eip list \<Rightarrow> string \<times> string" where
  "allocated_loop svcInfo [] = ([], [])"
| "allocated_loop svcInfo (eip # eips) =
     (if e_deleting eip then allocated_loop svcInfo eips
      else
        (case find_holder svcInfo (nmap (Used (e_status eip))) of
           Some addr \<Rightarrow> (e_name eip, addr)
         | None \<Rightarrow> allocated_loop svcInfo eips))"

definition getAllocatedEIPInfo :: "'w client \<Rightarrow> string \<Rightarrow> 'w \<Rightarrow> (string \<times> string) res \<times> 'w" where
  "getAllocatedEIPInfo C svcInfo w =
     andThen (cListEips C w) (\<lambda>eips w. (Ok (allocated_loop svcInfo eips), w))"

abbreviation EipNotContainIP :: string where
  "EipNotContainIP \<equiv> ''no available eip was found containing the ip''"

fun basedOnIP_loop :: "string \<Rightarrow> Eip list \<Rightarrow> Eip res" where
  "basedOnIP_loop ip [] = Err (Errorf (EipNotContainIP @ '':['' @ ip @ '']''))"
| "basedOnIP_loop ip (e # eips) =
     (if Contains e (net_ParseIP ip) then
        (if e_deleting e then Err (Errorf (''eip:'' @ e_name e @ '' is deleting''))
         else if Disable (e_spec e) then Err (Errorf (''eip:'' @ e_name e @ '' is disabled''))
         else Ok e)
      else basedOnIP_loop ip eips)"

definition getEIPBasedOnIP :: "'w client \<Rightarrow> string \<Rightarrow> 'w \<Rightarrow> Eip res \<times> 'w" where
  "getEIPBasedOnIP C ip w = andThen (cListEips C w) (\<lambda>eips w. (basedOnIP_loop ip eips, w))"

text \<open>
  The loop over the EIPs of \<open>getDefaultEIP\<close>: those of the namespace, listed by name or by selector,
  and the first default one. The printed selector is left out of the error message.
\<close>

fun default_loop ::
    "((string, string) gomap \<Rightarrow> (string, string) gomap \<Rightarrow> bool res) \<Rightarrow> string \<Rightarrow>
     (string, string) gomap option \<Rightarrow> Eip list \<Rightarrow> Eip option \<Rightarrow> Eip list \<Rightarrow>
     (Eip option \<times> Eip list) res" where
  "default_loop sel name labels [] defaultEip nseips = Ok (defaultEip, nseips)"
| "default_loop sel name labels (e # eips) defaultEip nseips =
     (if e_deleting e \<or> Disable (e_spec e)
      then default_loop sel name labels eips defaultEip nseips
      else
        (let nseips1 = (if name \<in> set (Namespaces (e_spec e)) then nseips @ [e] else nseips);
             default1 = (if defaultEip = None \<and> IsDefault e then Some e else defaultEip) in
         case (labels, NamespaceSelector (e_spec e)) of
           (Some ls, Some s) \<Rightarrow>
             (case sel s ls of
                Err _ \<Rightarrow>
                  Err (Errorf (''eip:['' @ e_name e @ ''] invalid namespace label selector ''))
              | Panic p \<Rightarrow> Panic p
              | Ok matches \<Rightarrow>
                  default_loop sel name labels eips default1
                    (if matches then nseips1 @ [e] else nseips1))
         | _ \<Rightarrow> default_loop sel name labels eips default1 nseips1))"

definition eip_less :: "Eip \<Rightarrow> Eip \<Rightarrow> bool" where
  "eip_less a b =
     (if Occupied (e_status a) \<noteq> Occupied (e_status b) then \<not> Occupied (e_status a)
      else Priority (e_spec a) < Priority (e_spec b))"

definition getDefaultEIP :: "'w client \<Rightarrow> string \<Rightarrow> 'w \<Rightarrow> Eip res \<times> 'w" where
  "getDefaultEIP C name w =
     andThen (cGetNamespace C name w) (\<lambda>ns w.
     andThen (cListEips C w) (\<lambda>eips w.
     andThen (default_loop (cSelectorMatches C) name (m_labels (ns_meta ns)) eips None [], w)
       (\<lambda>(defaultEip, nseips) w.
         if nseips \<noteq> [] then (Ok (hd (cSortEips C eip_less nseips)), w)
         else
           (case defaultEip of
              None \<Rightarrow> (Err (Errorf ''no available default eip found''), w)
            | Some e \<Rightarrow> (Ok e, w)))))"

definition getEIP :: "'w client \<Rightarrow> string \<Rightarrow> string \<Rightarrow> string \<Rightarrow> 'w \<Rightarrow> Eip res \<times> 'w" where
  "getEIP C ns svcip specifyEip w =
     (if specifyEip = [] then
        (if svcip \<noteq> [] then getEIPBasedOnIP C svcip w else getDefaultEIP C ns w)
      else
        andThen (cGetEip C specifyEip w) (\<lambda>eip w.
          if e_deleting eip then (Err (Errorf (''eip:'' @ e_name eip @ '' is deleting'')), w)
          else if Disable (e_spec eip)
          then (Err (Errorf (''eip:'' @ e_name eip @ '' is disabled'')), w)
          else if svcip \<noteq> [] \<and> \<not> Contains eip (net_ParseIP svcip)
          then (Err (Errorf (EipNotContainIP @ '':['' @ svcip @ '']'')), w)
          else (Ok eip, w)))"

section \<open>Requests\<close>

record info =
  svcName :: string
  svcSpecifyEIP :: string
  svcSpecifyLBIP :: string
  svcStatusLBIP :: string
  allocatedEip :: string
  allocatedIP :: string

definition needUpdate :: "info \<Rightarrow> bool" where
  "needUpdate i =
     (if svcSpecifyEIP i = [] \<and> svcSpecifyLBIP i = [] \<and> svcStatusLBIP i = allocatedIP i then False
      else if svcSpecifyEIP i = allocatedEip i \<and>
              (svcSpecifyLBIP i = allocatedIP i \<and> svcStatusLBIP i \<noteq> [] \<or>
               svcSpecifyLBIP i = [] \<and> svcStatusLBIP i = allocatedIP i)
      then False else True)"

definition constructRelease :: "info \<Rightarrow> svcRecord option" where
  "constructRelease i =
     (let r = \<lparr>sr_Key = svcName i, sr_IP = allocatedIP i, sr_Eip = allocatedEip i\<rparr> in
      if allocatedEip i = [] \<and> allocatedIP i = [] then
        (if svcStatusLBIP i = [] then None else Some (r\<lparr>sr_IP := svcStatusLBIP i\<rparr>))
      else Some r)"

definition needRelease :: "Service \<Rightarrow> bool" where
  "needRelease svc =
     (if m_annotations (s_meta svc) = None then True
      else if s_deleting svc then True
      else if s_type svc \<noteq> ServiceTypeLoadBalancer then True
      else
        (case mget (nmap (m_annotations (s_meta svc))) OpenELBAnnotationKey of
           None \<Rightarrow> True
         | Some value \<Rightarrow> if value \<noteq> OpenELBAnnotationValue then True else False))"

definition NamespacedName :: "string \<Rightarrow> string \<Rightarrow> string" where
  "NamespacedName ns name = ns @ ''/'' @ name"

definition svc_ref :: "Service \<Rightarrow> obj_ref" where
  "svc_ref svc = ServiceRef (m_namespace (s_meta svc)) (m_name (s_meta svc))"

definition status_ips :: "Service \<Rightarrow> string" where
  "status_ips svc =
     (let ing = (case s_ingress svc of None \<Rightarrow> [] | Some l \<Rightarrow> l) in
      if length ing > 0 then Join (map ing_IP ing) '';'' else [])"

definition ConstructRequest :: "'w client \<Rightarrow> Service \<Rightarrow> 'w \<Rightarrow> Request res \<times> 'w" where
  "ConstructRequest C svc w =
     (case m_annotations (s_meta svc) of
        None \<Rightarrow> (Ok empty_Request, w)
      | Some annotations \<Rightarrow>
          (let name = NamespacedName (m_namespace (s_meta svc)) (m_name (s_meta svc)) in
           andThen (getAllocatedEIPInfo C name w) (\<lambda>(aEip, aIP) w.
             let i0 = \<lparr>svcName = name, svcSpecifyEIP = [], svcSpecifyLBIP = [],
                       svcStatusLBIP = status_ips svc, allocatedEip = aEip, allocatedIP = aIP\<rparr>;
                 req = \<lparr>Allocate = None, Release = constructRelease i0\<rparr> in
             if needRelease svc then (Ok req, w)
             else
               (let lbip = (case mget annotations OpenELBEIPAnnotationKey of
                              Some value \<Rightarrow> value | None \<Rightarrow> s_loadBalancerIP svc);
                    given = (case mget annotations OpenELBEIPAnnotationKeyV1Alpha2 of
                               Some value \<Rightarrow> value | None \<Rightarrow> []) in
                case (if given = [] then
                        (case getEIP C (m_namespace (s_meta svc)) lbip given w of
                           (Ok eip, w) \<Rightarrow> (Ok (e_name eip), w)
                         | (Err e, w) \<Rightarrow>
                             (Err e, cEvent C (svc_ref svc) EventTypeWarning ''ConstructRequest''
                                (''failed to construct allocate request: '' @ error_text e) w)
                         | (Panic p, w) \<Rightarrow> (Panic p, w))
                      else (Ok given, w)) of
                  (Panic p, w) \<Rightarrow> (Panic p, w)
                | (Err e, w) \<Rightarrow> (Ok req, w)
                | (Ok eipName, w) \<Rightarrow>
                    (let i1 = i0\<lparr>svcSpecifyEIP := eipName, svcSpecifyLBIP := lbip\<rparr>;
                         exist = (mget (nmap (m_labels (s_meta svc))) OpenELBEIPAnnotationKeyV1Alpha2 \<noteq> None) in
                     if \<not> needUpdate i1 \<and> exist then (Ok empty_Request, w)
                     else (Ok (req\<lparr>Allocate :=
                             Some \<lparr>sr_Key = name, sr_IP = lbip, sr_Eip = eipName\<rparr>\<rparr>), w))))))"

section \<open>Assigning and releasing in the store\<close>

definition IsSameFamily :: "Family \<Rightarrow> string list \<Rightarrow> bool" where
  "IsSameFamily eipFamily ipFamilies =
     list_ex (\<lambda>f. f = ''IPv4'' \<and> eipFamily = V4Family \<or> f = ''IPv6'' \<and> eipFamily = V6Family)
       ipFamilies"

text \<open>\<open>AssignIP\<close> writes the address into the record it is given; the model returns the record.\<close>

definition AssignIP ::
    "'w client \<Rightarrow> string list \<Rightarrow> svcRecord option \<Rightarrow> 'w \<Rightarrow> svcRecord option res \<times> 'w" where
  "AssignIP C ipFamilies allocate w =
     (case allocate of
        None \<Rightarrow> (Ok None, w)
      | Some r \<Rightarrow>
          andThen (cGetEip C (sr_Eip r) w) (\<lambda>eip w.
          andThen (ParseRange (cAddressRange C) (Address (e_spec eip)), w) (\<lambda>parsed w.
            case parsed of
              None \<Rightarrow> (Panic ''invalid memory address or nil pointer dereference'', w)
            | Some rg \<Rightarrow>
                if \<not> IsSameFamily (Range_Family rg) ipFamilies
                then (Err (Errorf ''service can't use different family eip''), w)
                else
                  (case assignIPFromEip (Some r) eip of
                     (Panic p, _) \<Rightarrow> (Panic p, w)
                   | (Err e, _) \<Rightarrow> (Err (Errorf (''no avliable eip, err:'' @ error_text e)), w)
                   | (Ok addr, clone) \<Rightarrow>
                       andThen
                         (if \<not> DeepEqual_Eip clone eip then cUpdateEipStatus C clone w else (Ok clone, w))
                         (\<lambda>_ w. (Ok (Some (r\<lparr>sr_IP := addr\<rparr>)), w))))))"

definition ReleaseIP :: "'w client \<Rightarrow> svcRecord option \<Rightarrow> 'w \<Rightarrow> unit res \<times> 'w" where
  "ReleaseIP C release w =
     (case release of
        None \<Rightarrow> (Ok (), w)
      | Some r \<Rightarrow>
          andThen
            (case cGetEip C (sr_Eip r) w of
               (Err e, w) \<Rightarrow> if IsNotFound e then (Ok zero_Eip, w) else (Err e, w)
             | x \<Rightarrow> x)
            (\<lambda>eip w.
              let clone = releaseIPFromEip (sr_Key r) eip in
              if \<not> DeepEqual_Eip clone eip
              then andThen (cUpdateEipStatus C clone w) (\<lambda>_ w. (Ok (), w))
              else (Ok (), w)))"

section \<open>The invariant of a status\<close>

abbreviation pool_addr :: "IP \<Rightarrow> int \<Rightarrow> string" where
  "pool_addr base i \<equiv> IP_String (nth_addr base i)"

abbreviation used_of :: "Eip \<Rightarrow> (string, string) gomap" where
  "used_of e \<equiv> nmap (Used (e_status e))"

definition eip_inv :: "Eip \<Rightarrow> IP \<Rightarrow> int \<Rightarrow> bool" where
  "eip_inv e base n \<longleftrightarrow>
     sized e base n \<and> PoolSize (e_status e) = n \<and> FirstIP (e_status e) = IP_String base \<and>
     gomap_wf (used_of e) \<and> Usage (e_status e) = int (length (used_of e)) \<and>
     (Occupied (e_status e) \<longleftrightarrow> Usage (e_status e) = n) \<and>
     mkeys (used_of e) \<subseteq> pool_addr base ` {0..<n}"

lemma sized_upd_status [simp]: "sized (e\<lparr>e_status := s\<rparr>) base n = sized e base n"
  by (simp add: sized_def GetSize_def)

lemma IPToOrdinal_upd_status [simp]: "IPToOrdinal (e\<lparr>e_status := s\<rparr>) ip = IPToOrdinal e ip"
  by (simp add: IPToOrdinal_def GetSize_def)

lemma Contains_upd_status [simp]: "Contains (e\<lparr>e_status := s\<rparr>) ip = Contains e ip"
  by (simp add: Contains_def GetSize_values_def GetSize_def)

lemma pool_addr_inject:
  assumes "sized e base n" and "0 \<le> i" "i < n" and "0 \<le> j" "j < n"
  shows "pool_addr base i = pool_addr base j \<longleftrightarrow> i = j"
  by (rule IP_String_nth_inject) (use assms in \<open>auto simp: sized_def\<close>)

lemma IncrementIP_first:
  assumes "sized e base n" and "0 \<le> i" and "i < n"
  shows "ParseIP (IP_String base) = Some (ip_norm base)"
    and "IncrementIP (ip_norm base) i = Ok (nth_addr base i)"
proof -
  have v: "valid_ip base" using assms(1) by (simp add: sized_def)
  then show "ParseIP (IP_String base) = Some (ip_norm base)" by (rule ParseIP_IP_String)
  have "IPToBigInt (ip_norm base) = IPToBigInt base" "ip_len (ip_norm base) = ip_len base"
    using v by (simp_all add: IPToBigInt_norm)
  then have "nth_addr (ip_norm base) i = nth_addr base i"
    by (simp add: nth_addr_def)
  then show "IncrementIP (ip_norm base) i = Ok (nth_addr base i)"
    using IncrementIP_nth [of "ip_norm base" i] v assms by (simp add: IPToBigInt_norm sized_def)
qed

lemma assign_loop_step:
  assumes "eip_inv e base n" and "0 \<le> off" and "off < n"
  shows "assign_loop r fixed off e =
    (case mget (used_of e) (pool_addr base off) of
       None \<Rightarrow> (Ok (pool_addr base off), upd_status (take_free r (pool_addr base off)) e)
     | Some tmp \<Rightarrow>
         if fixed then (Ok (pool_addr base off), upd_status (share r (pool_addr base off) tmp) e)
         else assign_loop r fixed (off + 1) e)"
proof -
  have s: "sized e base n" "PoolSize (e_status e) = n" "FirstIP (e_status e) = IP_String base"
    using assms(1) by (simp_all add: eip_inv_def)
  note f = IncrementIP_first [OF s(1) assms(2,3)]
  show ?thesis
    by (subst assign_loop.simps) (simp add: s(2,3) f assms(3) Let_def)
qed

lemma assign_loop_end: "PoolSize (e_status e) \<le> off \<Longrightarrow>
  assign_loop r fixed off e = (Err (Errorf ''no suitable ip to allocate''), e)"
  by (subst assign_loop.simps) simp

text \<open>The search returns the first free address from the offset on, or fails when there is none.\<close>

lemma assign_loop_search:
  assumes "eip_inv e base n" and "0 \<le> off"
  shows "(\<exists>i. off \<le> i \<and> i < n \<and> mget (used_of e) (pool_addr base i) = None \<and>
            (\<forall>j. off \<le> j \<longrightarrow> j < i \<longrightarrow> mget (used_of e) (pool_addr base j) \<noteq> None) \<and>
            assign_loop r False off e = (Ok (pool_addr base i), upd_status (take_free r (pool_addr base i)) e)) \<or>
         ((\<forall>j. off \<le> j \<longrightarrow> j < n \<longrightarrow> mget (used_of e) (pool_addr base j) \<noteq> None) \<and>
            assign_loop r False off e = (Err (Errorf ''no suitable ip to allocate''), e))"
  using assms(2)
proof (induction "nat (n - off)" arbitrary: off rule: less_induct)
  case less
  show ?case
  proof (cases "off < n")
    case False
    then show ?thesis using assms(1) assign_loop_end [of e off r False] by (auto simp: eip_inv_def)
  next
    case True
    note step = assign_loop_step [OF assms(1) less.prems True, of r False]
    show ?thesis
    proof (cases "mget (used_of e) (pool_addr base off)")
      case None
      then show ?thesis using step True by (intro disjI1 exI [of _ off]) auto
    next
      case (Some tmp)
      have IH: "(\<exists>i. off + 1 \<le> i \<and> i < n \<and> mget (used_of e) (pool_addr base i) = None \<and>
            (\<forall>j. off + 1 \<le> j \<longrightarrow> j < i \<longrightarrow> mget (used_of e) (pool_addr base j) \<noteq> None) \<and>
            assign_loop r False (off + 1) e = (Ok (pool_addr base i), upd_status (take_free r (pool_addr base i)) e)) \<or>
         ((\<forall>j. off + 1 \<le> j \<longrightarrow> j < n \<longrightarrow> mget (used_of e) (pool_addr base j) \<noteq> None) \<and>
            assign_loop r False (off + 1) e = (Err (Errorf ''no suitable ip to allocate''), e))"
        using less.hyps [of "off + 1"] less.prems True by simp
      have split: "off \<le> j \<longleftrightarrow> j = off \<or> off + 1 \<le> j" for j by auto
      show ?thesis
        using IH Some step unfolding split by auto
    qed
  qed
qed

lemma mget_key_iff: "mget m k \<noteq> None \<longleftrightarrow> k \<in> mkeys m"
  using mget_None_iff [of m k] by simp

text \<open>Counting: a pool is occupied exactly when none of its addresses is free.\<close>

lemma occupied_iff_no_free:
  assumes "eip_inv e base n"
  shows "Occupied (e_status e) \<longleftrightarrow> (\<forall>i. 0 \<le> i \<longrightarrow> i < n \<longrightarrow> mget (used_of e) (pool_addr base i) \<noteq> None)"
proof -
  have s: "sized e base n" and n: "0 < n" using assms by (simp_all add: eip_inv_def sized_def)
  let ?A = "pool_addr base ` {0..<n}"
  have inj: "inj_on (pool_addr base) {0..<n}"
    by (rule inj_onI) (use pool_addr_inject [OF s] in auto)
  have cA: "card ?A = nat n" using card_image [OF inj] n by simp
  have sub: "mkeys (used_of e) \<subseteq> ?A"
    using assms by (simp add: eip_inv_def)
  have len: "length (used_of e) = card (mkeys (used_of e))"
    using assms by (simp add: eip_inv_def length_eq_card_mkeys)
  have "Occupied (e_status e) \<longleftrightarrow> card (mkeys (used_of e)) = card ?A"
    using assms len cA n by (auto simp: eip_inv_def)
  also have "\<dots> \<longleftrightarrow> ?A \<subseteq> mkeys (used_of e)"
    using sub card_subset_eq [OF _ sub] by (metis finite_atLeastLessThan_int finite_imageI subset_antisym order_refl)
  also have "\<dots> \<longleftrightarrow> (\<forall>i. 0 \<le> i \<longrightarrow> i < n \<longrightarrow> mget (used_of e) (pool_addr base i) \<noteq> None)"
    unfolding mget_key_iff by auto
  finally show ?thesis .
qed

lemma eip_inv_take_free:
  assumes "eip_inv e base n" and "0 \<le> i" and "i < n" and "mget (used_of e) (pool_addr base i) = None"
  shows "eip_inv (upd_status (take_free r (pool_addr base i)) e) base n"
proof -
  have new: "pool_addr base i \<notin> mkeys (used_of e)"
    using assms(4) by (simp add: mget_None_iff)
  have "\<not> Occupied (e_status e)"
    using occupied_iff_no_free [OF assms(1)] assms(2-4) by auto
  then show ?thesis
    using assms(1-3) new
    by (auto simp: eip_inv_def take_free_def Let_def length_mset_at_new mkeys_mset_at)
qed

lemma eip_inv_share:
  assumes "eip_inv e base n" and "mget (used_of e) addr = Some tmp"
  shows "eip_inv (upd_status (share r addr tmp) e) base n"
proof -
  have old: "addr \<in> mkeys (used_of e)"
    using assms(2) by (rule mget_Some_key)
  then show ?thesis
    using assms(1) by (auto simp: eip_inv_def share_def length_mset_at_old mkeys_mset_at insert_absorb)
qed

lemma assign_loop_inv:
  assumes "eip_inv e base n" and "0 \<le> off" and "assign_loop r fixed off e = (res, e')"
  shows "eip_inv e' base n"
proof (cases fixed)
  case False
  then show ?thesis
    using assign_loop_search [OF assms(1,2), of r] assms eip_inv_take_free [OF assms(1)] by auto
next
  case True
  show ?thesis
  proof (cases "off < n")
    case lt: True
    then show ?thesis
      using assign_loop_step [OF assms(1,2) lt, of r True] assms(2,3) True
        eip_inv_take_free [OF assms(1,2) lt] eip_inv_share [OF assms(1)]
      by (auto split: option.splits)
  next
    case False
    then show ?thesis
      using assms assign_loop_end [of e off r fixed] by (auto simp: eip_inv_def)
  qed
qed

lemma assignIPFromEip_inv:
  assumes "eip_inv e base n" and "assignIPFromEip a e = (res, e')"
  shows "eip_inv e' base n"
  using assms
  by (auto simp: assignIPFromEip_def Let_def not_less split: option.splits if_splits
      intro: assign_loop_inv [OF assms(1)])

lemma find_assigned_Some:
  assumes "gomap_wf m"
  shows "find_assigned r m = Some addr \<longleftrightarrow>
    sr_IP r = addr \<and> (\<exists>v. mget m addr = Some v \<and> sr_Key r \<in> set (Split v CHR '';''))"
  using assms
proof (induction m)
  case (Cons en m)
  obtain a v where en: "en = (a, v)" by force
  have "mget m a = None" using Cons.prems en by (simp add: mget_None_iff)
  then show ?case
    using Cons en by (auto simp: list_ex_iff)
qed simp

lemma find_assigned_None:
  "gomap_wf m \<Longrightarrow> find_assigned r m = None \<longleftrightarrow>
     (\<forall>v. mget m (sr_IP r) = Some v \<longrightarrow> sr_Key r \<notin> set (Split v CHR '';''))"
  using find_assigned_Some [of m r "sr_IP r"] find_assigned_Some [of m r]
  by (metis not_None_eq)

section \<open>Releasing\<close>

text \<open>What happens to the services of one address when \<open>svcInfo\<close> is released.\<close>

definition release_val :: "string \<Rightarrow> string \<Rightarrow> string option" where
  "release_val svcInfo v =
     (let tmp = Split v CHR '';'' in
      if svcInfo \<notin> set tmp then Some v
      else if length tmp = 1 then None
      else Some (Join (RemoveString tmp svcInfo) '';''))"

lemma release_svc_other: "svc \<noteq> k \<Longrightarrow> release_svc k a tmp st svc = st"
  by (simp add: release_svc_def)

lemma release_svc_idem: "release_svc k a tmp (release_svc k a tmp st k) k = release_svc k a tmp st k"
  by (cases "Used st") (auto simp: release_svc_def Let_def mdel_opt_def AList.delete_idem)

lemma foldl_release_svc:
  "foldl (release_svc k a tmp) st xs = (if k \<in> set xs then release_svc k a tmp st k else st)"
proof (induction xs arbitrary: st)
  case (Cons x xs)
  then show ?case by (cases "x = k") (simp_all add: release_svc_other release_svc_idem)
qed simp

lemma release_entry_eq:
  "release_entry k st (a, v) =
     (if k \<in> set (Split v CHR '';'') then release_svc k a (Split v CHR '';'') st k else st)"
  by (simp add: release_entry_def Let_def foldl_release_svc)

lemma nmap_mdel_opt [simp]: "nmap (mdel_opt a m) = mdel a (nmap m)"
  by (cases m) (simp_all add: mdel_opt_def)

lemma release_entry_fields [simp]:
  "PoolSize (release_entry k st en) = PoolSize st" "FirstIP (release_entry k st en) = FirstIP st"
  "LastIP (release_entry k st en) = LastIP st" "V4 (release_entry k st en) = V4 st" "Ready (release_entry k st en) = Ready st"
  by (cases en; simp add: release_entry_eq release_svc_def Let_def)+

lemma release_entry_used:
  assumes "mget (nmap (Used st)) a = Some v"
  shows "mget (nmap (Used (release_entry k st (a, v)))) = (mget (nmap (Used st)))(a := release_val k v)"
  using assms by (auto simp: release_entry_eq release_svc_def release_val_def Let_def gomap_simps)

lemma release_entry_inv:
  assumes "eip_inv e base n" and "mget (used_of e) a = Some v"
  shows "eip_inv (e\<lparr>e_status := release_entry k (e_status e) (a, v)\<rparr>) base n"
proof -
  have a: "a \<in> mkeys (used_of e)" using assms(2) by (rule mget_Some_key)
  have wf: "gomap_wf (used_of e)" using assms(1) by (simp add: eip_inv_def)
  have "Suc (length (mdel a (used_of e))) = length (used_of e)"
    using gm.len_del [OF wf, of a] assms(2) by simp
  moreover have "int (length (used_of e)) \<le> n"
  proof -
    have "mkeys (used_of e) \<subseteq> pool_addr base ` {0..<n}" using assms(1) by (simp add: eip_inv_def)
    then have "card (mkeys (used_of e)) \<le> card (pool_addr base ` {0..<n})"
      by (rule card_mono [rotated]) simp
    also have "\<dots> \<le> nat n" using card_image_le [of "{0..<n}" "pool_addr base"] by simp
    finally have "length (used_of e) \<le> nat n" using wf by (simp add: length_eq_card_mkeys)
    moreover have "0 < n" using assms(1) by (simp add: eip_inv_def sized_def)
    ultimately show ?thesis by simp
  qed
  ultimately have "int (length (mdel a (used_of e))) \<noteq> n" by simp
  then show ?thesis
    using assms(1) a
    by (simp add: eip_inv_def release_entry_eq release_svc_def Let_def mkeys_mdel mkeys_mset_at
        length_mset_at_old insert_absorb subset_insertI2) blast
qed

lemma release_fold_used:
  assumes "gomap_wf es" and "\<And>a v. mget es a = Some v \<Longrightarrow> mget (nmap (Used st)) a = Some v"
  shows "mget (nmap (Used (foldl (release_entry k) st es))) a =
    (case mget es a of Some v \<Rightarrow> release_val k v | None \<Rightarrow> mget (nmap (Used st)) a)"
  using assms
proof (induction es arbitrary: st)
  case (Cons en es)
  obtain b w where en: "en = (b, w)" by force
  have nb: "mget es b = None" using Cons.prems(1) en by (simp add: mget_None_iff)
  have st: "mget (nmap (Used (release_entry k st en))) = (mget (nmap (Used st)))(b := release_val k w)"
    using release_entry_used [of st b w k] Cons.prems(2) [of b w] en by simp
  have "mget (nmap (Used (foldl (release_entry k) (release_entry k st en) es))) a =
      (case mget es a of Some v \<Rightarrow> release_val k v | None \<Rightarrow> mget (nmap (Used (release_entry k st en))) a)"
  proof (rule Cons.IH)
    show "gomap_wf es" using Cons.prems(1) by simp
    show "mget (nmap (Used (release_entry k st en))) c = Some v" if "mget es c = Some v" for c v
      using that nb Cons.prems(2) [of c v] en st by (cases "c = b") auto
  qed
  then show ?case using en st nb by (auto split: option.splits)
qed simp

lemma release_fold_inv:
  assumes "gomap_wf es" and "\<And>a v. mget es a = Some v \<Longrightarrow> mget (used_of e) a = Some v" and "eip_inv e base n"
  shows "eip_inv (e\<lparr>e_status := foldl (release_entry k) (e_status e) es\<rparr>) base n"
  using assms
proof (induction es arbitrary: e)
  case (Cons en es)
  obtain b w where en: "en = (b, w)" by force
  let ?e = "e\<lparr>e_status := release_entry k (e_status e) en\<rparr>"
  have nb: "mget es b = None" using Cons.prems(1) en by (simp add: mget_None_iff)
  have b: "mget (used_of e) b = Some w" using Cons.prems(2) en by simp
  have "eip_inv (?e\<lparr>e_status := foldl (release_entry k) (e_status ?e) es\<rparr>) base n"
  proof (rule Cons.IH)
    show "gomap_wf es" using Cons.prems(1) by simp
    show "eip_inv ?e base n" using release_entry_inv [OF Cons.prems(3) b] en by simp
    show "mget (used_of ?e) c = Some v" if "mget es c = Some v" for c v
      using that nb Cons.prems(2) [of c v] en release_entry_used [OF b, of k] by (cases "c = b") auto
  qed
  then show ?case by simp
qed simp

lemma releaseIPFromEip_used:
  assumes "gomap_wf (used_of e)" and "\<not> e_deleting e"
  shows "mget (used_of (releaseIPFromEip k e)) a = Option.bind (mget (used_of e) a) (release_val k)"
  using assms release_fold_used [OF assms(1), of "e_status e" k a]
  by (simp add: releaseIPFromEip_def split: option.splits)

lemma releaseIPFromEip_inv:
  assumes "eip_inv e base n"
  shows "eip_inv (releaseIPFromEip k e) base n"
  using assms release_fold_inv [of "used_of e" e base n k] by (simp add: releaseIPFromEip_def eip_inv_def)

section \<open>The abstract contract: who holds which address\<close>

definition holders :: "Eip \<Rightarrow> (string \<times> string) set" where
  "holders e = {(a, k). \<exists>v. mget (used_of e) a = Some v \<and> k \<in> set (Split v CHR '';'')}"

definition svcs_distinct :: "Eip \<Rightarrow> bool" where
  "svcs_distinct e \<longleftrightarrow> (\<forall>a v. mget (used_of e) a = Some v \<longrightarrow> distinct (Split v CHR '';''))"

lemma Split_single: "length (Split v c) = 1 \<Longrightarrow> Split v c = [v]"
  using Join_Split [of v c] by (cases "Split v c") auto

lemma release_val_holders:
  assumes "distinct (Split v CHR '';'')"
  shows "(\<exists>u. release_val k v = Some u \<and> s \<in> set (Split u CHR '';'')) \<longleftrightarrow> s \<in> set (Split v CHR '';'') \<and> s \<noteq> k"
proof -
  let ?tmp = "Split v CHR '';''"
  show ?thesis
  proof (cases "k \<in> set ?tmp")
    case False
    then show ?thesis by (auto simp: release_val_def)
  next
    case True
    show ?thesis
    proof (cases "length ?tmp = 1")
      case one: True
      then show ?thesis using True Split_single [OF one] by (auto simp: release_val_def)
    next
      case False
      let ?rest = "RemoveString ?tmp k"
      have "?rest \<noteq> []"
      proof
        assume "?rest = []"
        then have "set ?tmp = {k}" using set_RemoveString [of ?tmp k] True by auto
        then have "card (set ?tmp) = 1" by simp
        then show False using False distinct_card [OF assms] by simp
      qed
      moreover have "CHR '';'' \<notin> set x" if "x \<in> set ?rest" for x
        using that Split_parts_no_sep [of x v "CHR '';''"] by simp
      ultimately have "Split (Join ?rest '';'') CHR '';'' = ?rest" by (rule Split_Join)
      then show ?thesis using True False by (simp add: release_val_def)
    qed
  qed
qed

lemma holders_release:
  assumes "gomap_wf (used_of e)" and "svcs_distinct e" and "\<not> e_deleting e"
  shows "holders (releaseIPFromEip k e) = {(a, s) \<in> holders e. s \<noteq> k}"
  using assms(2) release_val_holders [of _ k]
  by (fastforce simp: holders_def svcs_distinct_def releaseIPFromEip_used [OF assms(1,3)] bind_eq_Some_conv)

lemma holders_take_free:
  assumes "mget (used_of e) addr = None" and "CHR '';'' \<notin> set (sr_Key r)"
  shows "holders (upd_status (take_free r addr) e) = insert (addr, sr_Key r) (holders e)"
  using assms by (auto simp: holders_def take_free_def Let_def gomap_simps Split_no_sep split: if_splits)

lemma holders_share:
  assumes "mget (used_of e) addr = Some tmp" and "CHR '';'' \<notin> set (sr_Key r)"
  shows "holders (upd_status (share r addr tmp) e) = insert (addr, sr_Key r) (holders e)"
  using assms by (auto simp: holders_def share_def gomap_simps Split_snoc_sep Split_no_sep split: if_splits)

lemma net_ParseIP_pool_addr:
  assumes "sized e base n" and "0 \<le> i" and "i < n"
  shows "net_ParseIP (pool_addr base i) = To16 (nth_addr base i)" and "net_ParseIP (pool_addr base i) \<noteq> []"
proof -
  have v: "valid_ip (nth_addr base i)" by (rule sized_nth(2) [OF assms])
  then show "net_ParseIP (pool_addr base i) = To16 (nth_addr base i)"
    by (intro net_ParseIP_String) (simp add: valid_ip_def)
  then show "net_ParseIP (pool_addr base i) \<noteq> []"
    using length_To16 [of "nth_addr base i"] v by (auto simp: valid_ip_def)
qed

lemma unparsable_not_used:
  assumes "eip_inv e base n" and "net_ParseIP s = []"
  shows "mget (used_of e) s = None"
proof (rule ccontr)
  assume "mget (used_of e) s \<noteq> None"
  then have "s \<in> pool_addr base ` {0..<n}"
    using assms(1) by (auto simp: mget_key_iff eip_inv_def)
  then show False
    using net_ParseIP_pool_addr(2) [of e base n] assms by (auto simp: eip_inv_def)
qed

lemma find_assigned_unparsable:
  assumes "eip_inv e base n" and "net_ParseIP (sr_IP r) = []"
  shows "find_assigned r (used_of e) = None"
  using unparsable_not_used [OF assms] assms(1) by (simp add: find_assigned_None eip_inv_def)

text \<open>A request for an address of the pool ends at that address.\<close>

lemma requested_ordinal:
  assumes "sized e base n" and "net_ParseIP s = ip" and "ip \<noteq> []" and "ip_len ip = ip_len base"
    and "\<bar>IPToBigInt ip - IPToBigInt base\<bar> < 2 ^ 63" and "Contains e ip"
  shows "0 \<le> IPToOrdinal e ip" and "IPToOrdinal e ip < n" and "pool_addr base (IPToOrdinal e ip) = IP_String ip"
proof -
  have v: "valid_ip ip" using length_net_ParseIP [of s] assms(2,3) by (auto simp: valid_ip_def)
  show ge: "0 \<le> IPToOrdinal e ip"
    using IPToOrdinal_neg [OF assms(1,5)] assms(6) by auto
  note ord = IPToOrdinal_nonneg [OF assms(1) v assms(4,5) refl ge]
  show "IPToOrdinal e ip < n" by (rule ord(1))
  show "pool_addr base (IPToOrdinal e ip) = IP_String ip"
    using ord(2) IP_String_inject [of "nth_addr base (IPToOrdinal e ip)" ip] sized_nth(2) [OF assms(1) ge ord(1)] v
    by (simp add: valid_ip_def)
qed

section \<open>Interleavings of assignments and releases\<close>

datatype ipam_op = AssignOp svcRecord | ReleaseOp string

inductive ipam_run :: "ipam_op list \<Rightarrow> Eip \<Rightarrow> Eip \<Rightarrow> bool" where
  run_none: "ipam_run [] e e"
| run_assign: "ipam_run ops e e1 \<Longrightarrow> assignIPFromEip (Some r) e1 = (res, e2) \<Longrightarrow>
     ipam_run (ops @ [AssignOp r]) e e2"
| run_release: "ipam_run ops e e1 \<Longrightarrow> ipam_run (ops @ [ReleaseOp k]) e (releaseIPFromEip k e1)"

definition exclusive :: "Eip \<Rightarrow> bool" where
  "exclusive e \<longleftrightarrow> (\<forall>a v. mget (used_of e) a = Some v \<longrightarrow> CHR '';'' \<notin> set v)"

text \<open>Every assignment changes nothing, takes a free address, or shares a requested one.\<close>

lemma assign_loop_outcome:
  assumes "eip_inv e base n" and "0 \<le> off" and "assign_loop r fixed off e = (res, e')"
  shows "\<exists>a. e' = e \<or> e' = upd_status (take_free r a) e \<and> mget (used_of e) a = None \<or>
    fixed \<and> (\<exists>tmp. e' = upd_status (share r a tmp) e \<and> mget (used_of e) a = Some tmp)"
proof (cases fixed)
  case False
  then show ?thesis
    using assign_loop_search [OF assms(1,2), of r] assms(3) by auto
next
  case True
  show ?thesis
  proof (cases "off < n")
    case lt: True
    then show ?thesis
      using assign_loop_step [OF assms(1,2) lt, of r True] assms(3) True by (auto split: option.splits)
  next
    case False
    then show ?thesis
      using assms assign_loop_end [of e off r fixed] by (auto simp: eip_inv_def)
  qed
qed

lemma assign_outcome:
  assumes "eip_inv e base n" and "assignIPFromEip (Some r) e = (res, e')"
  shows "\<exists>a. e' = e \<or> e' = upd_status (take_free r a) e \<and> mget (used_of e) a = None \<or>
    net_ParseIP (sr_IP r) \<noteq> [] \<and> (\<exists>tmp. e' = upd_status (share r a tmp) e \<and> mget (used_of e) a = Some tmp)"
  using assms(2) assign_loop_outcome [OF assms(1), of 0 r False res e']
    assign_loop_outcome [OF assms(1), of "IPToOrdinal e (net_ParseIP (sr_IP r))" r True res e']
  by (auto simp: assignIPFromEip_def Let_def not_less split: option.splits if_splits)

lemma exclusive_take_free:
  "exclusive e \<Longrightarrow> CHR '';'' \<notin> set (sr_Key r) \<Longrightarrow> exclusive (upd_status (take_free r a) e)"
  by (auto simp: exclusive_def take_free_def Let_def gomap_simps)

lemma exclusive_release:
  assumes "exclusive e" and "gomap_wf (used_of e)"
  shows "exclusive (releaseIPFromEip k e)"
proof (cases "e_deleting e")
  case False
  show ?thesis
    unfolding exclusive_def releaseIPFromEip_used [OF assms(2) False]
  proof (intro allI impI)
    fix a v
    assume "Option.bind (mget (used_of e) a) (release_val k) = Some v"
    then obtain u where u: "mget (used_of e) a = Some u" "release_val k u = Some v"
      by (auto simp: bind_eq_Some_conv)
    have "CHR '';'' \<notin> set u" using assms(1) u(1) by (simp add: exclusive_def)
    moreover from this have "v = u"
      using u(2) by (auto simp: release_val_def Let_def Split_no_sep split: if_splits)
    ultimately show "CHR '';'' \<notin> set v" by simp
  qed
qed (use assms in \<open>simp add: releaseIPFromEip_def\<close>)

lemma exclusive_holders: "exclusive e \<Longrightarrow> (a, k) \<in> holders e \<Longrightarrow> (a, k') \<in> holders e \<Longrightarrow> k = k'"
  by (auto simp: exclusive_def holders_def Split_no_sep)

lemma v4_distance:
  assumes "valid_ip a" "ip_len a = 4" "valid_ip b" "ip_len b = 4"
  shows "\<bar>IPToBigInt a - IPToBigInt b\<bar> < 2 ^ 63"
proof -
  have "0 \<le> IPToBigInt a" "IPToBigInt a < 4294967296" "0 \<le> IPToBigInt b" "IPToBigInt b < 4294967296"
    using IPToBigInt_range [of a] IPToBigInt_range [of b] assms by simp_all
  then have "\<bar>IPToBigInt a - IPToBigInt b\<bar> < 9223372036854775808" by linarith
  then show ?thesis by simp
qed

text \<open>The recorded addresses are in canonical form and belong to the pool.\<close>

lemma used_canonical:
  assumes "eip_inv e base n" and "mget (used_of e) s \<noteq> None"
  shows "IP_String (net_ParseIP s) = s" and "Contains e (net_ParseIP s)"
proof -
  have z: "sized e base n" using assms(1) by (simp add: eip_inv_def)
  have "s \<in> pool_addr base ` {0..<n}"
    using assms by (auto simp: mget_key_iff eip_inv_def)
  then obtain i where i: "0 \<le> i" "i < n" "s = pool_addr base i" by auto
  note nth = sized_nth [OF z i(1,2)]
  have ip: "net_ParseIP s = To16 (nth_addr base i)"
    using net_ParseIP_pool_addr(1) [OF z i(1,2)] i(3) by simp
  have l: "length (To16 (nth_addr base i)) = 16"
    using nth(2) by (simp add: valid_ip_def length_To16)
  show "IP_String (net_ParseIP s) = s"
    using ip i(3) l IP_String_inject [of "To16 (nth_addr base i)" "nth_addr base i"] nth(2)
    by (simp add: valid_ip_def)
  have "IPToBigInt (To16 (nth_addr base i)) = IPToBigInt base + i"
    using nth(2,3) l IPToBigInt_norm [of "To16 (nth_addr base i)"] IPToBigInt_norm [of "nth_addr base i"]
    by (simp add: valid_ip_def)
  then show "Contains e (net_ParseIP s)"
    using ip i by (simp add: Contains_iff [OF z])
qed

section \<open>Correctness\<close>

text \<open>An initialised pool of four addresses, for the examples.\<close>

definition sample_pool :: Eip where
  "sample_pool = (sample_eip ''a'' ''192.168.0.100-192.168.0.103'')
     \<lparr>e_status := zero_EipStatus\<lparr>PoolSize := 4, FirstIP := ''192.168.0.100''\<rparr>\<rparr>"

definition sample_request :: "string \<Rightarrow> svcRecord" where
  "sample_request ip = \<lparr>sr_Key = ''ns/web'', sr_IP = ip, sr_Eip = ''a''\<rparr>"

lemma sample_pool_strings: "IP_String [192, 168, 0, 100] = ''192.168.0.100''"
  by code_simp

lemma sample_pool_sized: "sized (sample_eip ''a'' ''192.168.0.100-192.168.0.103'') [192, 168, 0, 100] 4"
  using GetSize_v4_sized [OF _ sample_eip_sizes(1)] by simp

lemma sample_pool_inv: "eip_inv sample_pool [192, 168, 0, 100] 4"
  using sample_pool_sized
  by (simp add: eip_inv_def sample_pool_def sample_pool_strings zero_EipStatus_def)

lemma sample_pool_usable: "\<not> e_deleting sample_pool" "\<not> Disable (e_spec sample_pool)" "used_of sample_pool = []"
  by (simp_all add: sample_pool_def sample_eip_def zero_Eip_def zero_meta_def zero_EipSpec_def
      zero_EipStatus_def IsZero_def)

text \<open>
  (C21) Assigning any address: on an EIP whose status satisfies the invariant, a request without an address gets the
  lowest free address of the pool and nobody else's assignment changes. It is refused exactly when the EIP is
  being deleted, is disabled or has no free address, and then nothing changes. No outcome is a panic.
\<close>

theorem assign_any_address:
  assumes "eip_inv e base n" and "net_ParseIP (sr_IP r) = []"
  shows "case assignIPFromEip (Some r) e of
      (Ok addr, e') \<Rightarrow>
        \<not> e_deleting e \<and> \<not> Disable (e_spec e) \<and> \<not> Occupied (e_status e) \<and> mget (used_of e) addr = None \<and>
        mget (used_of e') = (mget (used_of e))(addr \<mapsto> sr_Key r) \<and>
        (\<exists>i. 0 \<le> i \<and> i < n \<and> addr = pool_addr base i \<and>
             (\<forall>j. 0 \<le> j \<longrightarrow> j < i \<longrightarrow> mget (used_of e) (pool_addr base j) \<noteq> None))
    | (Err _, e') \<Rightarrow> (e_deleting e \<or> Disable (e_spec e) \<or> Occupied (e_status e)) \<and> e' = e
    | (Panic _, _) \<Rightarrow> False"
proof (cases "e_deleting e \<or> Disable (e_spec e)")
  case True
  then show ?thesis by (auto simp: assignIPFromEip_def)
next
  case usable: False
  have eq: "assignIPFromEip (Some r) e = assign_loop r False 0 e"
    using find_assigned_unparsable [OF assms] usable assms(2) by (simp add: assignIPFromEip_def)
  from assign_loop_search [OF assms(1) order_refl, of r]
  show ?thesis
  proof (elim disjE exE conjE)
    fix i
    assume i: "0 \<le> i" "i < n" "mget (used_of e) (pool_addr base i) = None"
      "\<forall>j. 0 \<le> j \<longrightarrow> j < i \<longrightarrow> mget (used_of e) (pool_addr base j) \<noteq> None"
      and run: "assign_loop r False 0 e = (Ok (pool_addr base i), upd_status (take_free r (pool_addr base i)) e)"
    have "\<not> Occupied (e_status e)"
      using occupied_iff_no_free [OF assms(1)] i(1-3) by auto
    then show ?thesis
      using i eq run usable by (auto simp: take_free_def Let_def gomap_simps)
  next
    assume "\<forall>j. 0 \<le> j \<longrightarrow> j < n \<longrightarrow> mget (used_of e) (pool_addr base j) \<noteq> None"
      and run: "assign_loop r False 0 e = (Err (Errorf ''no suitable ip to allocate''), e)"
    then show ?thesis
      using occupied_iff_no_free [OF assms(1)] eq by simp
  qed
qed

theorem assign_any_address_witness:
  "case assignIPFromEip (Some (sample_request [])) sample_pool of
     (Ok addr, e') \<Rightarrow> mget (used_of e') addr = Some ''ns/web'' | (Err _, _) \<Rightarrow> False | (Panic _, _) \<Rightarrow> False"
proof -
  have "net_ParseIP (sr_IP (sample_request [])) = []" "\<not> Occupied (e_status sample_pool)"
    by (simp_all add: net_ParseIP_def ParseAddr_def sample_request_def sample_pool_def zero_EipStatus_def)
  then show ?thesis
    using assign_any_address [OF sample_pool_inv, of "sample_request []"] sample_pool_usable(1,2)
    by (auto simp: sample_request_def split: prod.splits res.splits)
qed

text \<open>
  (C22) Assigning a requested address: on an IPv4 EIP whose status satisfies the invariant, a request for an IPv4
  address succeeds exactly when the EIP is neither being deleted nor disabled and the address belongs to its pool.
  It then gets that address, and the service becomes one of its holders, also when others hold it; otherwise
  the request fails and changes nothing. The name of the service has no semicolon, which separates the holders.
\<close>

theorem assign_requested_address:
  assumes "eip_inv e base n" and "v4_eip e"
    and "net_ParseIP (sr_IP r) = ip" and "To4 ip \<noteq> []" and "CHR '';'' \<notin> set (sr_Key r)"
  shows "if \<not> e_deleting e \<and> \<not> Disable (e_spec e) \<and> Contains e ip
    then \<exists>e'. assignIPFromEip (Some r) e = (Ok (IP_String ip), e') \<and>
              holders e' = insert (IP_String ip, sr_Key r) (holders e)
    else \<exists>err. assignIPFromEip (Some r) e = (Err err, e)"
proof (cases "e_deleting e \<or> Disable (e_spec e)")
  case True
  then show ?thesis by (auto simp: assignIPFromEip_def)
next
  case usable: False
  have s: "sized e base n" and wf: "gomap_wf (used_of e)" using assms(1) by (simp_all add: eip_inv_def)
  have ip: "ip \<noteq> []" "valid_ip ip" "ip_len ip = 4"
    using assms(3,4) length_net_ParseIP [of "sr_IP r"] by (auto simp: valid_ip_def ip_len_def)
  have b4: "ip_len base = 4"
    using assms(2) s GetSize_v4_sized [of e base n] by (simp add: v4_eip_def sized_def)
  have d: "\<bar>IPToBigInt ip - IPToBigInt base\<bar> < 2 ^ 63"
    using v4_distance ip b4 s by (simp add: sized_def)
  show ?thesis
  proof (cases "Contains e ip")
    case True
    note ord = requested_ordinal [OF s assms(3) ip(1) _ d True]
    have o: "0 \<le> IPToOrdinal e ip" "IPToOrdinal e ip < n" "pool_addr base (IPToOrdinal e ip) = IP_String ip"
      using ord ip(3) b4 by simp_all
    show ?thesis
    proof (cases "find_assigned r (used_of e)")
      case (Some addr)
      then obtain v where v: "sr_IP r = addr" "mget (used_of e) addr = Some v" "sr_Key r \<in> set (Split v CHR '';'')"
        using find_assigned_Some [OF wf] by blast
      then have "addr = IP_String ip" using used_canonical(1) [OF assms(1)] assms(3) by auto
      then show ?thesis
        using True Some usable v(2,3) by (auto simp: assignIPFromEip_def holders_def)
    next
      case None
      then have "assignIPFromEip (Some r) e = assign_loop r True (IPToOrdinal e ip) e"
        using assms(3) usable ip(1) o(1) by (simp add: assignIPFromEip_def Let_def)
      then show ?thesis
        using True usable assign_loop_step [OF assms(1) o(1,2), of r True] o(3)
          holders_take_free [OF _ assms(5)] holders_share [OF _ assms(5)]
        by (auto split: option.splits)
    qed
  next
    case False
    have "find_assigned r (used_of e) = None"
      using find_assigned_None [OF wf] used_canonical(2) [OF assms(1), of "sr_IP r"] False assms(3) by auto
    then show ?thesis
      using False IPToOrdinal_neg [OF s d] assms(3) usable ip(1) by (simp add: assignIPFromEip_def Let_def)
  qed
qed

lemma usage_bound: "eip_inv e base n \<Longrightarrow> Usage (e_status e) \<le> n"
proof -
  assume inv: "eip_inv e base n"
  then have "card (mkeys (used_of e)) \<le> card (pool_addr base ` {0..<n})"
    by (intro card_mono) (simp_all add: eip_inv_def)
  also have "\<dots> \<le> nat n" using card_image_le [of "{0..<n}" "pool_addr base"] by simp
  finally show ?thesis using inv by (simp add: eip_inv_def length_eq_card_mkeys sized_def) linarith
qed

lemma sample_pool_v4: "v4_eip sample_pool"
  using sample_eips_v4(1) by (simp add: v4_eip_def sample_pool_def GetSize_def)

lemma sample_pool_contains: "Contains sample_pool (v4InV6Prefix @ [192, 168, 0, 102])"
  using Contains_iff [OF sample_pool_sized, of "v4InV6Prefix @ [192, 168, 0, 102]"]
  by (simp add: sample_pool_def IPToBigInt_def To4_def v4InV6Prefix_def SetBytes_def)

lemma sample_parse:
  "net_ParseIP ''192.168.0.102'' = v4InV6Prefix @ [192, 168, 0, 102]"
  "IP_String (v4InV6Prefix @ [192, 168, 0, 102]) = ''192.168.0.102''"
  by code_simp+

theorem assign_requested_address_witness:
  "\<exists>e'. assignIPFromEip (Some (sample_request ''192.168.0.102'')) sample_pool =
     (Ok ''192.168.0.102'', e')"
  using assign_requested_address [OF sample_pool_inv sample_pool_v4, of "sample_request ''192.168.0.102''"]
    sample_pool_usable(1,2) sample_pool_contains sample_parse
  by (auto simp: sample_request_def To4_def v4InV6Prefix_def)

text \<open>
  Releasing refines the removal of a service from the relation of holders: afterwards the
  service holds no address, and every other service holds what it held.
\<close>

theorem release_removes_service:
  assumes "gomap_wf (used_of e)" and "svcs_distinct e" and "\<not> e_deleting e"
  shows "holders (releaseIPFromEip k e) = {(a, s) \<in> holders e. s \<noteq> k}"
  by (rule holders_release [OF assms])

theorem release_removes_service_witness:
  "holders (releaseIPFromEip ''ns/web'' (upd_status (\<lambda>st. st\<lparr>Used := Some [(''192.168.0.100'', ''ns/db;ns/web'')]\<rparr>) sample_pool)) =
     {(''192.168.0.100'', ''ns/db'')}"
proof -
  let ?e = "upd_status (\<lambda>st. st\<lparr>Used := Some [(''192.168.0.100'', ''ns/db;ns/web'')]\<rparr>) sample_pool"
  have h: "holders ?e = {(''192.168.0.100'', ''ns/db''), (''192.168.0.100'', ''ns/web'')}"
    by (auto simp: holders_def split: if_splits)
  have "\<not> e_deleting ?e" using sample_pool_usable(1) by simp
  then have "holders (releaseIPFromEip ''ns/web'' ?e) = {(a, s) \<in> holders ?e. s \<noteq> ''ns/web''}"
    by (intro release_removes_service) (auto simp: svcs_distinct_def split: if_splits)
  then show ?thesis unfolding h by auto
qed

text \<open>
  (C23) Releasing undoes assigning: for a service that held no address of the EIP, a successful assignment of whatever kind
  followed by the release gives back the map of assignments and both counters. The status satisfies the invariant,
  and the name of the service has no semicolon, which separates the holders of a shared address.
\<close>

theorem assign_release_roundtrip:
  assumes "eip_inv e base n" and "CHR '';'' \<notin> set (sr_Key r)" and "\<forall>a. (a, sr_Key r) \<notin> holders e"
    and "assignIPFromEip (Some r) e = (Ok addr, e')"
  shows "mget (used_of (releaseIPFromEip (sr_Key r) e')) = mget (used_of e) \<and>
    Usage (e_status (releaseIPFromEip (sr_Key r) e')) = Usage (e_status e) \<and>
    Occupied (e_status (releaseIPFromEip (sr_Key r) e')) = Occupied (e_status e)"
proof -
  let ?k = "sr_Key r" and ?f = "releaseIPFromEip (sr_Key r) e'"
  have inv': "eip_inv e' base n" by (rule assignIPFromEip_inv [OF assms(1,4)])
  have wf: "gomap_wf (used_of e)" "gomap_wf (used_of e')" using assms(1) inv' by (simp_all add: eip_inv_def)
  have nk: "?k \<notin> set (Split v CHR '';'')" if "mget (used_of e) a = Some v" for a v
    using assms(3) that by (auto simp: holders_def)
  obtain a where a: "e' = e \<or> e' = upd_status (take_free r a) e \<and> mget (used_of e) a = None \<or>
      (\<exists>tmp. e' = upd_status (share r a tmp) e \<and> mget (used_of e) a = Some tmp)"
    using assign_outcome [OF assms(1,4)] by blast
  have "\<not> e_deleting e" using assms(4) by (auto simp: assignIPFromEip_def split: if_splits)
  with a have nd: "\<not> e_deleting e'" by auto
  have same: "mget (used_of ?f) b = mget (used_of e) b" for b
  proof -
    have rv: "release_val ?k v = Some v" if "mget (used_of e) c = Some v" for c v
      using nk [OF that] by (simp add: release_val_def)
    have new: "release_val ?k ?k = None" using assms(2) by (simp add: release_val_def Split_no_sep)
    have shared: "release_val ?k (tmp @ '';'' @ ?k) = Some tmp" if "mget (used_of e) c = Some tmp" for c tmp
    proof -
      have "filter (\<lambda>x. x \<noteq> ?k) (Split tmp CHR '';'') = Split tmp CHR '';''"
        using nk [OF that] by (intro filter_True) auto
      then show ?thesis
        using assms(2) by (simp add: release_val_def Split_snoc_sep Split_no_sep RemoveString_filter Join_Split)
    qed
    show ?thesis
      using a rv new shared
      by (cases "mget (used_of e) b"; cases "b = a")
        (auto simp: releaseIPFromEip_used [OF wf(2) nd] take_free_def share_def Let_def gomap_simps)
  qed
  then have map_eq: "mget (used_of ?f) = mget (used_of e)" by auto
  have finv: "eip_inv ?f base n" by (rule releaseIPFromEip_inv [OF inv'])
  then have "length (used_of ?f) = length (used_of e)"
    using wf(1) map_eq gm.len_card [of "used_of ?f"] gm.len_card [of "used_of e"] by (simp add: eip_inv_def)
  then show ?thesis using map_eq finv assms(1) by (simp add: eip_inv_def)
qed

theorem assign_release_roundtrip_witness:
  "\<exists>e'. assignIPFromEip (Some (sample_request ''192.168.0.102'')) sample_pool = (Ok ''192.168.0.102'', e') \<and>
     mget (used_of (releaseIPFromEip ''ns/web'' e')) = mget (used_of sample_pool)"
proof -
  let ?e' = "upd_status (take_free (sample_request ''192.168.0.102'') ''192.168.0.102'') sample_pool"
  have run: "assignIPFromEip (Some (sample_request ''192.168.0.102'')) sample_pool = (Ok ''192.168.0.102'', ?e')"
    by code_simp
  have "\<forall>a. (a, sr_Key (sample_request ''192.168.0.102'')) \<notin> holders sample_pool"
    using sample_pool_usable(3) by (simp add: holders_def)
  then have "mget (used_of (releaseIPFromEip (sr_Key (sample_request ''192.168.0.102'')) ?e')) = mget (used_of sample_pool)"
    using assign_release_roundtrip [OF sample_pool_inv _ _ run] by (simp add: sample_request_def)
  then show ?thesis using run by (auto simp: sample_request_def)
qed

text \<open>
  (C8) Every interleaving of assignments and releases, successful or refused, keeps the invariant of the
  status: the recorded addresses belong to the pool, \<open>Usage\<close> counts them and never exceeds the pool
  size, and \<open>Occupied\<close> says whether all are taken.
\<close>

theorem ipam_run_keeps_status:
  assumes "ipam_run ops e e'" and "eip_inv e base n"
  shows "eip_inv e' base n \<and> Usage (e_status e') \<le> PoolSize (e_status e') \<and>
    (Occupied (e_status e') \<longleftrightarrow> (\<forall>i. 0 \<le> i \<and> i < n \<longrightarrow> mget (used_of e') (pool_addr base i) \<noteq> None))"
proof -
  have inv: "eip_inv e' base n"
    using assms
  proof (induction rule: ipam_run.induct)
    case (run_assign ops e e1 r res e2)
    then show ?case using assignIPFromEip_inv by blast
  next
    case (run_release ops e e1 k)
    then show ?case using releaseIPFromEip_inv by blast
  qed
  then show ?thesis
    using occupied_iff_no_free [OF inv] usage_bound [OF inv] by (auto simp: eip_inv_def)
qed

theorem ipam_run_keeps_status_witness:
  "\<exists>e'. ipam_run [AssignOp (sample_request []), ReleaseOp ''ns/web''] sample_pool e' \<and>
     eip_inv e' [192, 168, 0, 100] 4"
proof -
  obtain res e1 where "assignIPFromEip (Some (sample_request [])) sample_pool = (res, e1)" by force
  then have "ipam_run ([] @ [AssignOp (sample_request [])]) sample_pool e1"
    by (rule run_assign [OF run_none])
  then have run: "ipam_run (([] @ [AssignOp (sample_request [])]) @ [ReleaseOp ''ns/web'']) sample_pool
      (releaseIPFromEip ''ns/web'' e1)"
    by (rule run_release)
  from ipam_run_keeps_status [OF run sample_pool_inv] run show ?thesis by auto
qed

text \<open>
  (C2) Addresses are exclusive unless a service asks for one: along a run whose assignments request no
  particular address, starting without shared addresses, no address ever has two holders.
\<close>

theorem ipam_run_exclusive:
  assumes "ipam_run ops e e'" and "eip_inv e base n" and "exclusive e"
    and "\<forall>r. AssignOp r \<in> set ops \<longrightarrow> net_ParseIP (sr_IP r) = [] \<and> CHR '';'' \<notin> set (sr_Key r)"
    and "(a, k) \<in> holders e'" and "(a, k') \<in> holders e'"
  shows "k = k'"
proof -
  have "eip_inv e' base n \<and> exclusive e'"
    using assms(1-4)
  proof (induction rule: ipam_run.induct)
    case (run_assign ops e e1 r res e2)
    then have e1: "eip_inv e1 base n" "exclusive e1" and r: "net_ParseIP (sr_IP r) = []" "CHR '';'' \<notin> set (sr_Key r)"
      by auto
    have "exclusive e2"
      using assign_outcome [OF e1(1) run_assign.hyps(2)] r e1(2) exclusive_take_free [OF e1(2) r(2)] by auto
    then show ?case using assignIPFromEip_inv [OF e1(1) run_assign.hyps(2)] by simp
  next
    case (run_release ops e e1 k)
    then have e1: "eip_inv e1 base n" "exclusive e1" by auto
    then have "gomap_wf (used_of e1)" by (simp add: eip_inv_def)
    then show ?case using releaseIPFromEip_inv [OF e1(1)] exclusive_release [OF e1(2)] by simp
  qed simp
  then show ?thesis using exclusive_holders assms(5,6) by blast
qed

theorem ipam_run_exclusive_witness:
  "\<exists>e'. ipam_run [AssignOp (sample_request [])] sample_pool e' \<and>
     (''192.168.0.100'', ''ns/web'') \<in> holders e' \<and> (\<forall>k. (''192.168.0.100'', k) \<in> holders e' \<longrightarrow> k = ''ns/web'')"
proof -
  let ?e' = "upd_status (take_free (sample_request []) ''192.168.0.100'') sample_pool"
  have "assignIPFromEip (Some (sample_request [])) sample_pool = (Ok ''192.168.0.100'', ?e')"
    by code_simp
  then have run: "ipam_run ([] @ [AssignOp (sample_request [])]) sample_pool ?e'"
    by (rule run_assign [OF run_none])
  have h: "(''192.168.0.100'', ''ns/web'') \<in> holders ?e'"
    using sample_pool_usable(3)
    by (simp add: holders_def take_free_def sample_request_def Let_def)
  have "exclusive sample_pool" using sample_pool_usable(3) by (simp add: exclusive_def)
  from ipam_run_exclusive [OF run sample_pool_inv this _ _ h] run h
  show ?thesis by (auto simp: sample_request_def net_ParseIP_def ParseAddr_def)
qed

end
