(* ===== verification/StoreRules.thy ===== *)
theory StoreRules
  imports MemClient
begin

text \<open>
  The laws of the API server of \<open>MemClient\<close> as rules, one per call, for the proofs about the
  reconcilers.
\<close>

section \<open>Services\<close>

lemma service_store_get:
  assumes "service_store C U" and "cGetService C ns n w = (r, w')"
  shows "U w' = U w" and "r = Ok s \<Longrightarrow> U w (ns, n) = Some s \<and> svc_key s = (ns, n)"
    and "r = Err x \<Longrightarrow> IsNotFound x \<Longrightarrow> U w (ns, n) = None"
  using assms(1) [unfolded service_store_def, THEN conjunct1] assms(2) by auto

lemma service_store_update:
  assumes "service_store C U" and "cUpdateService C s w = (Ok s', w')"
  shows "U w' = (U w)(svc_key s := stored s_meta s')" and "svc_key s' = svc_key s"
    and "m_labels (s_meta s') = m_labels (s_meta s)" and "m_finalizers (s_meta s') = m_finalizers (s_meta s)"
    and "m_annotations (s_meta s') = m_annotations (s_meta s)"
    and "\<exists>old. U w (svc_key s) = Some old \<and> s_ingress s' = s_ingress old \<and> s_type s' = s_type s \<and>
           s_loadBalancerIP s' = s_loadBalancerIP s \<and> (svc_rest s = svc_rest old \<longrightarrow> svc_rest s' = svc_rest old) \<and>
           m_deletionTimestamp (s_meta s') = m_deletionTimestamp (s_meta old)"
proof -
  note law = assms(1) [unfolded service_store_def, THEN conjunct2, THEN conjunct1, rule_format, OF assms(2)]
  show "U w' = (U w)(svc_key s := stored s_meta s')" "svc_key s' = svc_key s"
    "m_labels (s_meta s') = m_labels (s_meta s)" "m_finalizers (s_meta s') = m_finalizers (s_meta s)"
    "m_annotations (s_meta s') = m_annotations (s_meta s)"
    "\<exists>old. U w (svc_key s) = Some old \<and> s_ingress s' = s_ingress old \<and> s_type s' = s_type s \<and>
           s_loadBalancerIP s' = s_loadBalancerIP s \<and> (svc_rest s = svc_rest old \<longrightarrow> svc_rest s' = svc_rest old) \<and>
           m_deletionTimestamp (s_meta s') = m_deletionTimestamp (s_meta old)"
    using law by simp_all
qed

lemma service_store_label:
  assumes "service_store C U" and "cListServicesByLabel C k v w = (r, w')"
  shows "U w' = U w" and "r = Ok svcs \<Longrightarrow> distinct (map (\<lambda>s. svc_key s) svcs)"
    and "r = Ok svcs \<Longrightarrow> s \<in> set svcs \<longleftrightarrow> U w (svc_key s) = Some s \<and> mget (nmap (m_labels (s_meta s))) k = Some v"
    and "r = Ok svcs \<Longrightarrow> U w j = Some s \<Longrightarrow> svc_key s = j"
proof -
  note law = assms(1) [unfolded service_store_def, THEN conjunct2, THEN conjunct2, THEN conjunct1, rule_format, OF assms(2)]
  show "U w' = U w" by (rule law [THEN conjunct1])
  assume r: "r = Ok svcs"
  note law' = law [THEN conjunct2, rule_format, OF r]
  show "distinct (map (\<lambda>s. svc_key s) svcs)" by (rule law' [THEN conjunct1])
  show "s \<in> set svcs \<longleftrightarrow> U w (svc_key s) = Some s \<and> mget (nmap (m_labels (s_meta s))) k = Some v"
    by (rule law' [THEN conjunct2, THEN conjunct1, rule_format])
  show "svc_key s = j" if "U w j = Some s"
    by (rule law' [THEN conjunct2, THEN conjunct2, rule_format, OF that])
qed

lemma service_store_status:
  assumes "service_store C U" and "cUpdateServiceStatus C s w = (Ok s', w')"
  shows "U w' = (U w)(svc_key s \<mapsto> s')" and "svc_key s' = svc_key s" and "s_ingress s' = s_ingress s"
    and "\<exists>old. U w (svc_key s) = Some old \<and>
           m_labels (s_meta s') = m_labels (s_meta old) \<and> m_finalizers (s_meta s') = m_finalizers (s_meta old) \<and>
           m_annotations (s_meta s') = m_annotations (s_meta old) \<and> s_type s' = s_type old \<and>
           s_loadBalancerIP s' = s_loadBalancerIP old \<and> svc_rest s' = svc_rest old \<and>
           m_deletionTimestamp (s_meta s') = m_deletionTimestamp (s_meta old)"
proof -
  note law = assms(1) [unfolded service_store_def, THEN conjunct2, THEN conjunct2, THEN conjunct2, rule_format, OF assms(2)]
  show "U w' = (U w)(svc_key s \<mapsto> s')" "svc_key s' = svc_key s" "s_ingress s' = s_ingress s"
    "\<exists>old. U w (svc_key s) = Some old \<and>
           m_labels (s_meta s') = m_labels (s_meta old) \<and> m_finalizers (s_meta s') = m_finalizers (s_meta old) \<and>
           m_annotations (s_meta s') = m_annotations (s_meta old) \<and> s_type s' = s_type old \<and>
           s_loadBalancerIP s' = s_loadBalancerIP old \<and> svc_rest s' = svc_rest old \<and>
           m_deletionTimestamp (s_meta s') = m_deletionTimestamp (s_meta old)"
    using law by simp_all
qed

section \<open>EIPs\<close>

lemma eip_store_get:
  assumes "eip_store C V" and "cGetEip C n w = (Ok e, w')"
  shows "V w n = Some e" and "e_name e = n" and "V w' = V w"
  using assms(1) [unfolded eip_store_def, THEN conjunct1, rule_format, OF assms(2)] by simp_all

lemma eip_store_get_err:
  assumes "eip_store C V" and "cGetEip C n w = (Err x, w')"
  shows "V w' = V w" and "IsNotFound x \<Longrightarrow> V w n = None"
  using assms(1) [unfolded eip_store_def, THEN conjunct1, rule_format, OF assms(2)] by simp_all

lemma eip_store_list:
  assumes "eip_store C V" and "cListEips C w = (Ok eips, w')"
  shows "V w' = V w" and "distinct (map e_name eips)" and "V w n = find (\<lambda>e. e_name e = n) eips"
  using assms(1) [unfolded eip_store_def, THEN conjunct2, THEN conjunct1, rule_format, OF assms(2)] by simp_all

lemma eip_store_update:
  assumes "eip_store C V" and "cUpdateEipStatus C e w = (Ok e', w')"
  shows "V w' = (V w)(e_name e \<mapsto> e')" and "e_name e' = e_name e" and "e_status e' = e_status e"
    and "\<exists>old. V w (e_name e) = Some old \<and> e_spec e' = e_spec old \<and>
       m_deletionTimestamp (e_meta e') = m_deletionTimestamp (e_meta old)"
    and "V w (e_name e) = Some old \<Longrightarrow> same_meta (e_meta e') (e_meta old)"
  using assms(1) [unfolded eip_store_def, THEN conjunct2, THEN conjunct2, THEN conjunct1, rule_format, OF assms(2)]
  by auto

lemma eip_store_put:
  assumes "eip_store C V" and "cUpdateEip C e w = (Ok e', w')"
  shows "V w' = (V w)(e_name e := stored e_meta e')" and "e_name e' = e_name e" and "e_spec e' = e_spec e"
    and "m_finalizers (e_meta e') = m_finalizers (e_meta e)"
    and "\<exists>old. V w (e_name e) = Some old \<and> e_status e' = e_status old \<and>
       m_deletionTimestamp (e_meta e') = m_deletionTimestamp (e_meta old)"
  using assms(1) [unfolded eip_store_def, THEN conjunct2, THEN conjunct2, THEN conjunct2, rule_format, OF assms(2)]
  by simp_all

section \<open>Calls on one kind of object leave the other kind alone\<close>

lemma stores_apartD:
  assumes "stores_apart C V U"
  shows "U (snd (cGetEip C n w)) = U w" "U (snd (cListEips C w)) = U w" "U (snd (cUpdateEip C e w)) = U w"
    "U (snd (cUpdateEipStatus C e w)) = U w" "V (snd (cListServicesByLabel C k v w)) = V w"
    "V (snd (cGetService C ns n w)) = V w" "V (snd (cUpdateService C s w)) = V w"
    "V (snd (cUpdateServiceStatus C s w)) = V w" "V (snd (cGetNamespace C n w)) = V w"
    "U (snd (cGetNamespace C n w)) = U w" "V (cEvent C obj t rs msg w) = V w" "U (cEvent C obj t rs msg w) = U w"
  using assms unfolding stores_apart_def by simp_all

lemma apart_run:
  assumes "stores_apart C V U"
  shows "cGetEip C n w = (r1, w') \<Longrightarrow> U w' = U w" "cListEips C w = (r2, w') \<Longrightarrow> U w' = U w"
    "cUpdateEip C e w = (r1, w') \<Longrightarrow> U w' = U w" "cUpdateEipStatus C e w = (r1, w') \<Longrightarrow> U w' = U w"
    "cListServicesByLabel C k v w = (r3, w') \<Longrightarrow> V w' = V w" "cGetService C ns n w = (r4, w') \<Longrightarrow> V w' = V w"
    "cUpdateService C s w = (r4, w') \<Longrightarrow> V w' = V w" "cUpdateServiceStatus C s w = (r4, w') \<Longrightarrow> V w' = V w"
    "cGetNamespace C n w = (r5, w') \<Longrightarrow> V w' = V w" "cGetNamespace C n w = (r5, w') \<Longrightarrow> U w' = U w"
  using stores_apartD [OF assms] by (metis snd_conv)+

end
