(* ===== verification/IPAMStore.thy ===== *)
theory IPAMStore
  imports IPAM StoreRules
begin

text \<open>
  The address manager against the store (\<open>pkg/controllers/ipam/ipam.go\<close>): what \<open>AssignIP\<close>, \<open>ReleaseIP\<close>,
  \<open>getDefaultEIP\<close> and \<open>ConstructRequest\<close> do to, and conclude from, the EIPs the API server holds.
  The definitions are in \<open>IPAM\<close>; the API server is a parameter with the laws of \<open>MemClient\<close>.
\<close>

section \<open>Assigning and releasing in the store\<close>

lemma holders_status: "e_status a = e_status b \<Longrightarrow> holders a = holders b"
  by (simp add: holders_def)

lemma DeepEqual_holders: "DeepEqual_Eip a b \<Longrightarrow> holders a = holders b"
  by (auto simp: DeepEqual_Eip_def DeepEqual_status_def holders_def dest!: DeepEqualMap_nmap)

lemma eip_inv_same:
  assumes "eip_inv a base n" and "e_spec b = e_spec a" and "e_status b = e_status a"
  shows "eip_inv b base n"
  using assms by (simp add: eip_inv_def sized_def GetSize_def)

lemma assign_holders:
  assumes "eip_inv e base n" and "assignIPFromEip (Some r) e = (Ok addr, e')" and "CHR '';'' \<notin> set (sr_Key r)"
  shows "holders e' = insert (addr, sr_Key r) (holders e)" and "e_meta e' = e_meta e \<and> e_spec e' = e_spec e"
proof -
  have wf: "gomap_wf (used_of e)" using assms(1) by (simp add: eip_inv_def)
  have loop: "holders e' = insert (addr, sr_Key r) (holders e) \<and> e_meta e' = e_meta e \<and> e_spec e' = e_spec e"
    if "assign_loop r fixed off e = (Ok addr, e')" "0 \<le> off" for fixed off
  proof (cases fixed)
    case False
    then show ?thesis
      using assign_loop_search [OF assms(1) that(2), of r] that(1) holders_take_free [OF _ assms(3)] by auto
  next
    case True
    have "off < n"
      using that(1) assms(1) assign_loop_end [of e off r fixed] by (force simp: eip_inv_def not_le [symmetric])
    then show ?thesis
      using assign_loop_step [OF assms(1) that(2), of r True] that(1) True
        holders_take_free [OF _ assms(3)] holders_share [OF _ assms(3)]
      by (auto split: option.splits)
  qed
  have "holders e' = insert (addr, sr_Key r) (holders e) \<and> e_meta e' = e_meta e \<and> e_spec e' = e_spec e"
  proof (cases "find_assigned r (used_of e)")
    case (Some a)
    then have "e' = e" "addr = a" using assms(2) by (auto simp: assignIPFromEip_def split: if_splits)
    then show ?thesis using Some find_assigned_Some [OF wf] by (auto simp: holders_def)
  next
    case None
    then show ?thesis
      using assms(2) loop by (auto simp: assignIPFromEip_def Let_def not_less split: if_splits)
  qed
  then show "holders e' = insert (addr, sr_Key r) (holders e)" "e_meta e' = e_meta e \<and> e_spec e' = e_spec e"
    by simp_all
qed

lemma AssignIP_OkE:
  assumes "AssignIP C fams (Some r) w = (Ok r', w')"
  obtains e w1 rg addr clone e2 where "cGetEip C (sr_Eip r) w = (Ok e, w1)"
    "ParseRange (cAddressRange C) (Address (e_spec e)) = Ok (Some rg)" "IsSameFamily (Range_Family rg) fams"
    "assignIPFromEip (Some r) e = (Ok addr, clone)" "r' = Some (r\<lparr>sr_IP := addr\<rparr>)"
    "(if \<not> DeepEqual_Eip clone e then cUpdateEipStatus C clone w1 else (Ok clone, w1)) = (Ok e2, w')"
proof -
  obtain e w1 where get: "cGetEip C (sr_Eip r) w = (Ok e, w1)"
    using assms by (auto simp: AssignIP_def andThen_Ok_iff)
  obtain rg where rg: "ParseRange (cAddressRange C) (Address (e_spec e)) = Ok (Some rg)"
    using assms get by (auto simp: AssignIP_def andThen_Ok_iff split: option.splits)
  have fam: "IsSameFamily (Range_Family rg) fams"
    using assms get rg by (auto simp: AssignIP_def split: if_splits)
  obtain res clone where res: "assignIPFromEip (Some r) e = (res, clone)" by force
  show ?thesis
  proof (cases res)
    case (Ok addr)
    then show ?thesis
      using assms get rg fam res that [of e w1 rg addr clone]
      by (simp add: AssignIP_def andThen_Ok_iff) blast
  qed (use assms get rg fam res in \<open>simp_all add: AssignIP_def\<close>)
qed

lemma AssignIP_Ok:
  assumes "eip_store C V" and "V w (sr_Eip r) = Some e" and "eip_inv e base n" and "CHR '';'' \<notin> set (sr_Key r)"
    and "AssignIP C fams (Some r) w = (Ok r', w')"
  shows "\<exists>addr e'. r' = Some (r\<lparr>sr_IP := addr\<rparr>) \<and> V w' (sr_Eip r) = Some e' \<and> eip_inv e' base n \<and>
    holders e' = insert (addr, sr_Key r) (holders e) \<and> (\<forall>m. m \<noteq> sr_Eip r \<longrightarrow> V w' m = V w m) \<and>
    \<not> e_deleting e' \<and> e_spec e' = e_spec e \<and> same_meta (e_meta e') (e_meta e)"
proof -
  obtain x w1 rg addr clone e2
    where get: "cGetEip C (sr_Eip r) w = (Ok x, w1)"
      and "ParseRange (cAddressRange C) (Address (e_spec x)) = Ok (Some rg)" "IsSameFamily (Range_Family rg) fams"
      and asg: "assignIPFromEip (Some r) x = (Ok addr, clone)" and r': "r' = Some (r\<lparr>sr_IP := addr\<rparr>)"
      and put: "(if \<not> DeepEqual_Eip clone x then cUpdateEipStatus C clone w1 else (Ok clone, w1)) = (Ok e2, w')"
    by (rule AssignIP_OkE [OF assms(5)])
  have x: "x = e" "e_name e = sr_Eip r" "V w1 = V w"
    using eip_store_get [OF assms(1) get] assms(2) by simp_all
  note h = assign_holders [OF assms(3) asg [unfolded x(1)] assms(4)]
  have inv: "eip_inv clone base n" by (rule assignIPFromEip_inv [OF assms(3) asg [unfolded x(1)]])
  have nd: "\<not> e_deleting e" using asg x(1) by (auto simp: assignIPFromEip_def split: if_splits)
  show ?thesis
  proof (cases "DeepEqual_Eip clone e")
    case True
    then have "w' = w1" using put x(1) by simp
    then show ?thesis
      using r' h(1) DeepEqual_holders [OF True] assms(2,3) x nd
      by (intro exI [of _ addr] exI [of _ e]) (simp add: same_meta_def)
  next
    case False
    then have "cUpdateEipStatus C clone w1 = (Ok e2, w')" using put x(1) by simp
    note st = eip_store_update [OF assms(1) this]
    have nm: "e_name clone = sr_Eip r" "V w1 (e_name clone) = Some e" using h(2) x assms(2) by simp_all
    have "same_meta (e_meta e2) (e_meta e)" by (rule st(5) [OF nm(2)])
    moreover have "e_spec e2 = e_spec e" "\<not> e_deleting e2" using st(4) nm(2) nd by auto
    moreover have "e_spec clone = e_spec e" using h(2) by simp
    ultimately show ?thesis
      using r' st(1,3) nm(1) h(1) x(3) eip_inv_same [OF inv] holders_status [of e2 clone]
      by (intro exI [of _ addr] exI [of _ e2]) auto
  qed
qed

text \<open>
  A successful \<open>AssignIP\<close> makes the service a holder of the returned address in the stored EIP it
  names, keeps every other assignment, the status invariant and every other EIP.
\<close>

theorem AssignIP_stores:
  assumes "eip_store C V" and "V w (sr_Eip r) = Some e" and "eip_inv e base n" and "CHR '';'' \<notin> set (sr_Key r)"
    and "AssignIP C fams (Some r) w = (Ok r', w')"
  shows "\<exists>addr e'. r' = Some (r\<lparr>sr_IP := addr\<rparr>) \<and> V w' (sr_Eip r) = Some e' \<and> eip_inv e' base n \<and>
    holders e' = insert (addr, sr_Key r) (holders e) \<and> (\<forall>m. m \<noteq> sr_Eip r \<longrightarrow> V w' m = V w m)"
  using AssignIP_Ok [OF assms] by blast

definition sample_mem :: mem where
  "sample_mem = empty_mem\<lparr>mEips := [sample_pool]\<rparr>"

lemma sample_mem_eip: "mem_eip sample_mem ''a'' = Some sample_pool"
  by (simp add: sample_mem_def mem_eip_def sample_pool_def)

lemma sample_AssignIP:
  "fst (AssignIP mem_client [''IPv4''] (Some (sample_request [])) sample_mem) =
     Ok (Some (sample_request ''192.168.0.100''))"
  by code_simp

theorem AssignIP_stores_witness:
  "\<exists>w' e'. AssignIP mem_client [''IPv4''] (Some (sample_request [])) sample_mem =
       (Ok (Some (sample_request ''192.168.0.100'')), w') \<and>
     mem_eip w' ''a'' = Some e' \<and> (''192.168.0.100'', ''ns/web'') \<in> holders e'"
proof -
  obtain w' where run: "AssignIP mem_client [''IPv4''] (Some (sample_request [])) sample_mem =
      (Ok (Some (sample_request ''192.168.0.100'')), w')"
    using sample_AssignIP by (metis prod.collapse)
  have "mem_eip sample_mem (sr_Eip (sample_request [])) = Some sample_pool"
    using sample_mem_eip by (simp add: sample_request_def)
  from AssignIP_stores [OF mem_eip_store this sample_pool_inv _ run] run
  show ?thesis by (auto simp: sample_request_def)
qed

lemma ReleaseIP_Ok:
  assumes "eip_store C V" and "V w (sr_Eip r) = Some e" and "gomap_wf (used_of e)" and "svcs_distinct e"
    and "\<not> e_deleting e" and "ReleaseIP C (Some r) w = (Ok (), w')"
  shows "\<exists>e'. V w' (sr_Eip r) = Some e' \<and> holders e' = {(a, s) \<in> holders e. s \<noteq> sr_Key r} \<and>
    (\<forall>m. m \<noteq> sr_Eip r \<longrightarrow> V w' m = V w m) \<and> m_deletionTimestamp (e_meta e') = m_deletionTimestamp (e_meta e) \<and>
    (\<forall>base n. eip_inv e base n \<longrightarrow> eip_inv e' base n)"
proof -
  obtain res w1 where get: "cGetEip C (sr_Eip r) w = (res, w1)" by force
  have ok: "res = Ok e"
  proof (cases res)
    case (Ok x)
    then show ?thesis using eip_store_get(1) [OF assms(1)] get assms(2) by auto
  next
    case (Err x)
    then show ?thesis
      using eip_store_get_err [OF assms(1)] get assms(2,6) by (auto simp: ReleaseIP_def split: if_splits)
  qed (use get assms(6) in \<open>simp add: ReleaseIP_def\<close>)
  have e: "e_name e = sr_Eip r" "V w1 = V w"
    using eip_store_get [OF assms(1) get [unfolded ok]] by simp_all
  let ?clone = "releaseIPFromEip (sr_Key r) e"
  have h: "holders ?clone = {(a, s) \<in> holders e. s \<noteq> sr_Key r}"
    by (rule holders_release [OF assms(3-5)])
  have nm: "e_name ?clone = sr_Eip r" using e(1) by (simp add: releaseIPFromEip_def)
  show ?thesis
  proof (cases "DeepEqual_Eip ?clone e")
    case True
    then have "w' = w1" using assms(6) get ok by (simp add: ReleaseIP_def Let_def)
    then show ?thesis using h DeepEqual_holders [OF True] assms(2) e by (intro exI [of _ e]) simp
  next
    case False
    then obtain e2 where "cUpdateEipStatus C ?clone w1 = (Ok e2, w')"
      using assms(6) get ok by (auto simp: ReleaseIP_def Let_def andThen_Ok_iff)
    note st = eip_store_update [OF assms(1) this]
    have "e_spec e2 = e_spec ?clone" "m_deletionTimestamp (e_meta e2) = m_deletionTimestamp (e_meta e)"
      using st(4) e nm assms(2) by (auto simp: releaseIPFromEip_def)
    then show ?thesis
      using st h e(2) nm holders_status [of e2 ?clone] eip_inv_same [OF releaseIPFromEip_inv, of e _ _ e2]
      by (intro exI [of _ e2]) auto
  qed
qed

text \<open>
  A successful \<open>ReleaseIP\<close> of a record whose EIP is stored removes the service from the holders of
  that EIP and changes nobody else's assignment and no other EIP.
\<close>

theorem ReleaseIP_stores:
  assumes "eip_store C V" and "V w (sr_Eip r) = Some e" and "gomap_wf (used_of e)" and "svcs_distinct e"
    and "\<not> e_deleting e" and "ReleaseIP C (Some r) w = (Ok (), w')"
  shows "\<exists>e'. V w' (sr_Eip r) = Some e' \<and> holders e' = {(a, s) \<in> holders e. s \<noteq> sr_Key r} \<and>
    (\<forall>m. m \<noteq> sr_Eip r \<longrightarrow> V w' m = V w m)"
  using ReleaseIP_Ok [OF assms] by blast

definition sample_used :: Eip where
  "sample_used = upd_status (\<lambda>st. st\<lparr>Used := Some [(''192.168.0.100'', ''ns/web'')], Usage := 1\<rparr>) sample_pool"

theorem ReleaseIP_stores_witness:
  "\<exists>w' e'. ReleaseIP mem_client (Some (sample_request [])) (empty_mem\<lparr>mEips := [sample_used]\<rparr>) = (Ok (), w') \<and>
     mem_eip w' ''a'' = Some e' \<and> holders e' = {}"
proof -
  let ?w = "empty_mem\<lparr>mEips := [sample_used]\<rparr>"
  have "fst (ReleaseIP mem_client (Some (sample_request [])) ?w) = Ok ()" by code_simp
  then obtain w' where run: "ReleaseIP mem_client (Some (sample_request [])) ?w = (Ok (), w')"
    by (metis prod.collapse)
  have e: "mem_eip ?w (sr_Eip (sample_request [])) = Some sample_used"
    by (simp add: mem_eip_def sample_used_def sample_pool_def sample_request_def)
  have h: "holders sample_used = {(''192.168.0.100'', ''ns/web'')}"
    by (auto simp: holders_def sample_used_def split: if_splits)
  have "\<not> e_deleting sample_used" using sample_pool_usable(1) by (simp add: sample_used_def)
  moreover have "svcs_distinct sample_used" "gomap_wf (used_of sample_used)"
    by (auto simp: svcs_distinct_def sample_used_def split: if_splits)
  ultimately show ?thesis
    using ReleaseIP_stores [OF mem_eip_store e _ _ _ run] run h by (auto simp: sample_request_def)
qed

section \<open>Choosing an EIP for a namespace\<close>

definition eip_usable :: "Eip \<Rightarrow> bool" where
  "eip_usable e \<longleftrightarrow> \<not> e_deleting e \<and> \<not> Disable (e_spec e)"

definition eip_for_namespace ::
    "((string, string) gomap \<Rightarrow> (string, string) gomap \<Rightarrow> bool res) \<Rightarrow> string \<Rightarrow>
     (string, string) gomap option \<Rightarrow> Eip \<Rightarrow> bool" where
  "eip_for_namespace sel name labels e \<longleftrightarrow>
     eip_usable e \<and>
     (name \<in> set (Namespaces (e_spec e)) \<or>
      (\<exists>ls s. labels = Some ls \<and> NamespaceSelector (e_spec e) = Some s \<and> sel s ls = Ok True))"

lemma default_loop_step:
  assumes "default_loop sel name labels (e # eips) d0 ns0 = Ok r"
  shows "\<exists>ns1. default_loop sel name labels eips
      (if d0 = None \<and> eip_usable e \<and> IsDefault e then Some e else d0) ns1 = Ok r \<and>
    set ns1 = set ns0 \<union> (if eip_for_namespace sel name labels e then {e} else {})"
proof (cases "eip_usable e")
  case False
  then show ?thesis
    using assms by (intro exI [of _ ns0]) (auto simp: eip_usable_def eip_for_namespace_def)
next
  case True
  then have u: "\<not> (e_deleting e \<or> Disable (e_spec e))" by (simp add: eip_usable_def)
  show ?thesis
  proof (cases "\<exists>ls s. labels = Some ls \<and> NamespaceSelector (e_spec e) = Some s")
    case sel: True
    then obtain ls s where ls: "labels = Some ls" "NamespaceSelector (e_spec e) = Some s" by blast
    show ?thesis
      using assms u True ls
      by (cases "sel s ls") (auto simp: Let_def eip_for_namespace_def split: if_splits)
  next
    case False
    then show ?thesis
      using assms u True by (auto simp: Let_def eip_for_namespace_def split: if_splits option.splits)
  qed
qed

lemma default_loop_Ok:
  assumes "default_loop sel name labels eips d0 ns0 = Ok (d, ns)"
  shows "set ns = set ns0 \<union> {e \<in> set eips. eip_for_namespace sel name labels e} \<and>
    d = (if d0 = None then find (\<lambda>e. eip_usable e \<and> IsDefault e) eips else d0)"
  using assms
proof (induction eips arbitrary: d0 ns0)
  case (Cons e eips)
  obtain ns1 where ns1: "default_loop sel name labels eips
      (if d0 = None \<and> eip_usable e \<and> IsDefault e then Some e else d0) ns1 = Ok (d, ns)"
    "set ns1 = set ns0 \<union> (if eip_for_namespace sel name labels e then {e} else {})"
    using default_loop_step [OF Cons.prems] by blast
  show ?case using Cons.IH [OF ns1(1)] ns1(2) by (auto split: if_splits)
qed auto

lemma strict_weak_eip_less: "strict_weak eip_less"
  unfolding strict_weak_def eip_less_def by (auto split: if_splits)

text \<open>
  (C24) The EIP chosen for a namespace: \<open>getDefaultEIP\<close> returns an EIP that is neither disabled nor
  being deleted; if any such EIP is meant for the namespace, by name or by selector, it returns one
  of these, a free one before an occupied one and then one of least priority number; otherwise it
  returns one marked as default.
\<close>

theorem getDefaultEIP_best:
  assumes "sorts_slices (cSortEips C)" and "cGetNamespace C name w = (Ok ns, w1)"
    and "cListEips C w1 = (Ok eips, w2)" and "getDefaultEIP C name w = (Ok e, w')"
  shows "e \<in> set eips \<and> eip_usable e \<and>
    (let fits = eip_for_namespace (cSelectorMatches C) name (m_labels (ns_meta ns)) in
     if \<exists>x\<in>set eips. fits x then fits e \<and> (\<forall>x\<in>set eips. fits x \<longrightarrow> \<not> eip_less x e) else IsDefault e)"
proof -
  let ?fits = "eip_for_namespace (cSelectorMatches C) name (m_labels (ns_meta ns))"
  obtain d nseips where loop: "default_loop (cSelectorMatches C) name (m_labels (ns_meta ns)) eips None [] = Ok (d, nseips)"
    using assms by (auto simp: getDefaultEIP_def andThen_Ok_iff)
  have fit: "set nseips = {x \<in> set eips. ?fits x}"
    and d: "d = find (\<lambda>e. eip_usable e \<and> IsDefault e) eips"
    using default_loop_Ok [OF loop] by simp_all
  have srt: "slice_sorter (cSortEips C)" by unfold_locales (rule assms(1))
  show ?thesis
  proof (cases "nseips = []")
    case False
    then have e: "e = hd (cSortEips C eip_less nseips)"
      using assms(2-4) loop by (simp add: getDefaultEIP_def)
    then have "e \<in> set nseips"
      using slice_sorter.hd_srt_in [OF srt strict_weak_eip_less False] by simp
    moreover have "\<not> eip_less x e" if "x \<in> set nseips" for x
      using slice_sorter.hd_srt_least [OF srt strict_weak_eip_less that] e by simp
    ultimately show ?thesis using fit by (auto simp: eip_for_namespace_def)
  next
    case True
    then have "\<not> (\<exists>x\<in>set eips. ?fits x)" using fit by auto
    moreover have "d = Some e"
      using assms(2-4) loop True by (auto simp: getDefaultEIP_def split: option.splits)
    ultimately show ?thesis using d find_Some_P [of _ eips e] find_Some_in_set [of _ eips e] by simp
  qed
qed


definition sample_nseip :: Eip where
  "sample_nseip = sample_pool\<lparr>e_meta := zero_meta\<lparr>m_name := ''b''\<rparr>,
     e_spec := (e_spec sample_pool)\<lparr>Namespaces := [''ns'']\<rparr>\<rparr>"

definition sample_ns_mem :: mem where
  "sample_ns_mem = empty_mem\<lparr>mEips := [sample_pool, sample_nseip],
     mNamespaces := [\<lparr>ns_meta = zero_meta\<lparr>m_name := ''ns''\<rparr>\<rparr>]\<rparr>"

theorem getDefaultEIP_best_witness:
  "\<exists>e w'. getDefaultEIP mem_client ''ns'' sample_ns_mem = (Ok e, w') \<and> eip_usable e \<and> e_name e = ''b''"
proof -
  let ?ns = "\<lparr>ns_meta = zero_meta\<lparr>m_name := ''ns''\<rparr>\<rparr>"
  have run: "getDefaultEIP mem_client ''ns'' sample_ns_mem = (Ok sample_nseip, sample_ns_mem)"
    by code_simp
  have "cGetNamespace mem_client ''ns'' sample_ns_mem = (Ok ?ns, sample_ns_mem)"
    "cListEips mem_client sample_ns_mem = (Ok [sample_pool, sample_nseip], sample_ns_mem)"
    by (simp_all add: sample_ns_mem_def find_obj_def sample_nseip_def sample_pool_def)
  from getDefaultEIP_best [OF _ this run] run
  show ?thesis by (auto simp: insertion_sort_sorts sample_nseip_def)
qed

section \<open>Requests\<close>

lemma find_holder_iff:
  assumes "gomap_wf m"
  shows "find_holder k m = None \<longleftrightarrow> (\<forall>a v. mget m a = Some v \<longrightarrow> k \<notin> set (Split v CHR '';''))"
    and "find_holder k m = Some a \<Longrightarrow> \<exists>v. mget m a = Some v \<and> k \<in> set (Split v CHR '';'')"
proof -
  have "(find_holder k m = None \<longleftrightarrow> (\<forall>a v. mget m a = Some v \<longrightarrow> k \<notin> set (Split v CHR '';''))) \<and>
      (\<forall>a. find_holder k m = Some a \<longrightarrow> (\<exists>v. mget m a = Some v \<and> k \<in> set (Split v CHR '';'')))"
    using assms
  proof (induction m)
    case (Cons en m)
    obtain b v where en: "en = (b, v)" by force
    have "mget m b = None" using Cons.prems en by (simp add: mget_None_iff)
    then show ?case using Cons en by (auto simp: list_ex_iff)
  qed simp
  then show "find_holder k m = None \<longleftrightarrow> (\<forall>a v. mget m a = Some v \<longrightarrow> k \<notin> set (Split v CHR '';''))"
    "find_holder k m = Some a \<Longrightarrow> \<exists>v. mget m a = Some v \<and> k \<in> set (Split v CHR '';'')"
    by blast+
qed

definition holds_somewhere :: "Eip list \<Rightarrow> string \<Rightarrow> bool" where
  "holds_somewhere eips k \<longleftrightarrow> (\<exists>e\<in>set eips. \<not> e_deleting e \<and> (\<exists>a. (a, k) \<in> holders e))"

lemma allocated_loop_cases:
  assumes "\<forall>e\<in>set eips. gomap_wf (used_of e)"
  shows "if holds_somewhere eips k
    then \<exists>e\<in>set eips. \<not> e_deleting e \<and> (\<exists>a. (a, k) \<in> holders e \<and> allocated_loop k eips = (e_name e, a))
    else allocated_loop k eips = ([], [])"
  using assms
proof (induction eips)
  case (Cons e eips)
  have wf: "gomap_wf (used_of e)" using Cons.prems by simp
  have none: "find_holder k (used_of e) = None \<longleftrightarrow> (\<forall>a. (a, k) \<notin> holders e)"
    using find_holder_iff(1) [OF wf, of k] by (auto simp: holders_def)
  have some: "(a, k) \<in> holders e" if "find_holder k (used_of e) = Some a" for a
    using find_holder_iff(2) [OF wf that] by (auto simp: holders_def)
  have IH: "if holds_somewhere eips k
    then \<exists>e\<in>set eips. \<not> e_deleting e \<and> (\<exists>a. (a, k) \<in> holders e \<and> allocated_loop k eips = (e_name e, a))
    else allocated_loop k eips = ([], [])"
    using Cons by simp
  show ?case
  proof (cases "e_deleting e \<or> find_holder k (used_of e) = None")
    case True
    then have "holds_somewhere (e # eips) k = holds_somewhere eips k"
      using none by (auto simp: holds_somewhere_def)
    moreover have "allocated_loop k (e # eips) = allocated_loop k eips" using True by auto
    ultimately show ?thesis using IH by (auto split: if_splits)
  next
    case False
    then obtain a where a: "find_holder k (used_of e) = Some a" "\<not> e_deleting e" by auto
    then have "holds_somewhere (e # eips) k" using some by (auto simp: holds_somewhere_def)
    then show ?thesis using a some by auto
  qed
qed (simp add: holds_somewhere_def)

lemma ConstructRequest_release:
  assumes "m_annotations (s_meta svc) \<noteq> None" and "needRelease svc"
    and "cListEips C w = (Ok eips, w1)" and "\<forall>e\<in>set eips. gomap_wf (used_of e) \<and> e_name e \<noteq> []"
    and "ConstructRequest C svc w = (Ok req, w')"
    and "key = NamespacedName (m_namespace (s_meta svc)) (m_name (s_meta svc))"
  shows "Allocate req = None \<and>
    (case Release req of
       None \<Rightarrow> \<not> holds_somewhere eips key \<and> status_ips svc = []
     | Some r \<Rightarrow> sr_Key r = key \<and>
         (if holds_somewhere eips key
          then \<exists>e\<in>set eips. \<not> e_deleting e \<and> e_name e = sr_Eip r \<and> (sr_IP r, key) \<in> holders e
          else sr_Eip r = [] \<and> sr_IP r = status_ips svc \<and> status_ips svc \<noteq> []))"
proof -
  obtain annotations where ann: "m_annotations (s_meta svc) = Some annotations" using assms(1) by blast
  obtain n a where al: "allocated_loop key eips = (n, a)" by force
  let ?i = "\<lparr>svcName = key, svcSpecifyEIP = [], svcSpecifyLBIP = [], svcStatusLBIP = status_ips svc,
             allocatedEip = n, allocatedIP = a\<rparr>"
  have req: "req = \<lparr>Allocate = None, Release = constructRelease ?i\<rparr>"
    using assms(2,3,5,6) ann al
    by (simp add: ConstructRequest_def getAllocatedEIPInfo_def Let_def)
  have "\<forall>e\<in>set eips. gomap_wf (used_of e)" using assms(4) by simp
  note cases = allocated_loop_cases [OF this, of key, unfolded al]
  show ?thesis
  proof (cases "holds_somewhere eips key")
    case True
    then obtain e where e: "e \<in> set eips" "\<not> e_deleting e" "(a, key) \<in> holders e" "n = e_name e"
      using cases by auto
    then have "n \<noteq> []" using assms(4) by auto
    then show ?thesis using True e req by (auto simp: constructRelease_def)
  next
    case False
    then show ?thesis using cases req by (auto simp: constructRelease_def Let_def)
  qed
qed

text \<open>
  A service that is deleted, is no longer of type LoadBalancer or lost its annotation only gives
  up its address: \<open>ConstructRequest\<close> allocates nothing, and it releases the address the service holds in
  an EIP, or the one its status still shows when no EIP records it; with neither the request is empty.
\<close>

theorem ConstructRequest_release_only:
  assumes "m_annotations (s_meta svc) \<noteq> None" and "needRelease svc"
    and "cListEips C w = (Ok eips, w1)" and "\<forall>e\<in>set eips. gomap_wf (used_of e) \<and> e_name e \<noteq> []"
    and "ConstructRequest C svc w = (Ok req, w')"
    and "key = NamespacedName (m_namespace (s_meta svc)) (m_name (s_meta svc))"
  shows "Allocate req = None \<and>
    (case Release req of
       None \<Rightarrow> \<not> holds_somewhere eips key \<and> status_ips svc = []
     | Some r \<Rightarrow> sr_Key r = key \<and>
         (if holds_somewhere eips key
          then \<exists>e\<in>set eips. \<not> e_deleting e \<and> e_name e = sr_Eip r \<and> (sr_IP r, key) \<in> holders e
          else sr_Eip r = [] \<and> sr_IP r = status_ips svc \<and> status_ips svc \<noteq> []))"
  by (rule ConstructRequest_release [OF assms])

definition sample_service :: Service where
  "sample_service = \<lparr>s_meta = zero_meta\<lparr>m_name := ''web'', m_namespace := ''ns'',
       m_annotations := Some [(OpenELBAnnotationKey, OpenELBAnnotationValue), (OpenELBEIPAnnotationKeyV1Alpha2, ''a'')]\<rparr>,
     s_type = ServiceTypeLoadBalancer, s_loadBalancerIP = [], s_ipFamilies = [''IPv4''],
     s_externalTrafficPolicy = ''Cluster'', s_clusterIP = ''10.96.0.7'',
     s_ports = [\<lparr>sp_name = ''http'', sp_protocol = ''TCP'', sp_port = 80\<rparr>], s_ingress = None\<rparr>"

theorem ConstructRequest_release_only_witness:
  "\<exists>req r. ConstructRequest mem_client (sample_service\<lparr>s_type := ''ClusterIP''\<rparr>) (empty_mem\<lparr>mEips := [sample_used]\<rparr>) =
      (Ok req, empty_mem\<lparr>mEips := [sample_used]\<rparr>) \<and> Allocate req = None \<and> Release req = Some r \<and> sr_Eip r = ''a''"
proof -
  let ?svc = "sample_service\<lparr>s_type := ''ClusterIP''\<rparr>" and ?w = "empty_mem\<lparr>mEips := [sample_used]\<rparr>"
  let ?r = "\<lparr>sr_Key = ''ns/web'', sr_IP = ''192.168.0.100'', sr_Eip = ''a''\<rparr>"
  have run: "ConstructRequest mem_client ?svc ?w = (Ok \<lparr>Allocate = None, Release = Some ?r\<rparr>, ?w)"
    by code_simp
  have "m_annotations (s_meta ?svc) \<noteq> None" "needRelease ?svc" 
    by (simp_all add: sample_service_def needRelease_def)
  moreover have "cListEips mem_client ?w = (Ok [sample_used], ?w)"
    by simp
  moreover have "\<forall>e\<in>set [sample_used]. gomap_wf (used_of e) \<and> e_name e \<noteq> []"
    by (simp add: sample_used_def sample_pool_def)
  ultimately show ?thesis
    using ConstructRequest_release_only [OF _ _ _ _ run refl] run by auto
qed

end
