(* ===== verification/EipController.thy ===== *)
theory EipController
  imports IPAMStore
begin

text \<open>
  The controller of the EIPs: \<open>pkg/controllers/ipam/controller.go\<close>. It initialises the status of a new
  EIP, drops from the status the services that no longer exist, and on deletion takes the EIP's label off
  the services before it lets the EIP go.

  \<open>updateEip_Ok\<close> shows that initialisation and synchronisation establish the status invariant of
  \<open>IPAM\<close> and keep exactly the assignments of existing services.
\<close>

section \<open>Definitions\<close>

text \<open>The event filter of \<open>SetupWithManager\<close>.\<close>

definition eip_update_event :: "Eip \<Rightarrow> Eip \<Rightarrow> bool" where
  "eip_update_event oldEip newEip =
     (if m_deletionTimestamp (e_meta oldEip) \<noteq> m_deletionTimestamp (e_meta newEip) then True
      else if \<not> DeepEqual_spec (e_spec oldEip) (e_spec newEip) then True
      else False)"

text \<open>The loop over the services of one address: those that still exist.\<close>

fun sync_svcs :: "'w client \<Rightarrow> string list \<Rightarrow> string list \<Rightarrow> 'w \<Rightarrow> string list res \<times> 'w" where
  "sync_svcs C [] syncSvcs w = (Ok syncSvcs, w)"
| "sync_svcs C (svc # svcs) syncSvcs w =
     (case Split svc CHR ''/'' of
        s0 # s1 # _ \<Rightarrow>
          (case cGetService C s0 s1 w of
             (Ok _, w) \<Rightarrow> sync_svcs C svcs (syncSvcs @ [svc]) w
           | (Err e, w) \<Rightarrow> if IsNotFound e then sync_svcs C svcs syncSvcs w else (Err e, w)
           | (Panic p, w) \<Rightarrow> (Panic p, w))
      | _ \<Rightarrow> sync_svcs C svcs syncSvcs w)"

fun sync_used ::
    "'w client \<Rightarrow> (string, string) gomap \<Rightarrow> (string, string) gomap \<Rightarrow> 'w \<Rightarrow>
     (string, string) gomap res \<times> 'w" where
  "sync_used C [] used w = (Ok used, w)"
| "sync_used C ((k, v) # m) used w =
     andThen (sync_svcs C (Split v CHR '';'') [] w) (\<lambda>syncSvcs w.
       sync_used C m
         (if length syncSvcs \<noteq> 0 then mset_at k (Join syncSvcs '';'') used else used) w)"

definition syncEip :: "'w client \<Rightarrow> Eip \<Rightarrow> 'w \<Rightarrow> Eip res \<times> 'w" where
  "syncEip C e w =
     andThen (sync_used C (nmap (Used (e_status e))) [] w) (\<lambda>used w.
       (Ok (upd_status (\<lambda>st. st\<lparr>Used := Some used, Usage := int (length used),
              Occupied := int (length used) \<ge> PoolSize st\<rparr>) e), w))"

text \<open>The first half of \<open>updateEip\<close>: fill in the status of a new EIP.\<close>

definition init_status :: "Eip \<Rightarrow> Eip res" where
  "init_status e =
     (if FirstIP (e_status e) \<noteq> [] then Ok e
      else
        (let (base, sz) = GetSize_values e in
         bind_res (IncrementIP base (to_int64 (sz - 1))) (\<lambda>lastIP.
           Ok (upd_status (\<lambda>st. st\<lparr>PoolSize := sz, FirstIP := IP_String base, LastIP := IP_String lastIP,
                 V4 := (if To4 base \<noteq> [] then True else V4 st)\<rparr>) e))))"

definition updateEip :: "'w client \<Rightarrow> Eip \<Rightarrow> 'w \<Rightarrow> Eip res \<times> 'w" where
  "updateEip C e w = andThen (init_status e, w) (\<lambda>e w. syncEip C e w)"

fun unlabel_services :: "'w client \<Rightarrow> Service list \<Rightarrow> 'w \<Rightarrow> unit res \<times> 'w" where
  "unlabel_services C [] w = (Ok (), w)"
| "unlabel_services C (svc # svcs) w =
     andThen
       (cUpdateService C
          (svc\<lparr>s_meta := (s_meta svc)\<lparr>m_labels :=
             mdel_opt OpenELBEIPAnnotationKeyV1Alpha2 (m_labels (s_meta svc))\<rparr>\<rparr>) w)
       (\<lambda>_ w. unlabel_services C svcs w)"

definition removeEip :: "'w client \<Rightarrow> Eip \<Rightarrow> 'w \<Rightarrow> unit res \<times> 'w" where
  "removeEip C e w =
     andThen (cListServicesByLabel C OpenELBEIPAnnotationKeyV1Alpha2 (e_name e) w)
       (\<lambda>svcs w. unlabel_services C svcs w)"

definition EIP_Reconcile :: "'w client \<Rightarrow> string \<Rightarrow> 'w \<Rightarrow> unit res \<times> 'w" where
  "EIP_Reconcile C name w =
     (case cGetEip C name w of
        (Err e, w) \<Rightarrow> if IsNotFound e then (Ok (), w) else (Err e, w)
      | (Panic p, w) \<Rightarrow> (Panic p, w)
      | (Ok eip, w) \<Rightarrow>
          if IsDeletionCandidate (e_meta eip) IPAMFinalizerName then
            andThen (removeEip C eip w) (\<lambda>_ w.
            andThen (cUpdateEip C (eip\<lparr>e_meta := RemoveFinalizer IPAMFinalizerName (e_meta eip)\<rparr>) w)
              (\<lambda>_ w. (Ok (), w)))
          else
            andThen
              (if NeedToAddFinalizer (e_meta eip) IPAMFinalizerName
               then cUpdateEip C (eip\<lparr>e_meta := AddFinalizer IPAMFinalizerName (e_meta eip)\<rparr>) w
               else (Ok eip, w))
              (\<lambda>eip w.
                case updateEip C eip w of
                  (Panic p, w) \<Rightarrow> (Panic p, w)
                | (Err e, w) \<Rightarrow>
                    (Err e, cEvent C (EipRef (e_name eip)) EventTypeWarning ''add/update eip''
                       (GetNodeName C @ '': '' @ error_text e) w)
                | (Ok clone, w) \<Rightarrow>
                    if DeepEqual_status (e_status clone) (e_status eip) then (Ok (), w)
                    else andThen (cUpdateEipStatus C clone w) (\<lambda>_ w. (Ok (), w))))"

section \<open>Initialisation\<close>

lemma init_status_fresh:
  assumes "v4_eip e" and "FirstIP (e_status e) = []"
  obtains base n last_ip where "sized e base n" "IncrementIP base (n - 1) = Ok last_ip"
    "init_status e = Ok (upd_status (\<lambda>st. st\<lparr>PoolSize := n, FirstIP := IP_String base, LastIP := IP_String last_ip, V4 := True\<rparr>) e)"
proof -
  obtain base n where b: "GetSize e = Ok (base, n)" "sized e base n" "ip_len base = 4"
    by (rule v4_eip_sized [OF assms(1)])
  have n: "0 \<le> n - 1" "n - 1 < n" using b(2) by (simp_all add: sized_def)
  have i: "IncrementIP base (n - 1) = Ok (nth_addr base (n - 1))" by (rule sized_nth(1) [OF b(2) n])
  have "To4 base \<noteq> []" using b(3) by (auto simp: ip_len_def split: if_splits)
  then show ?thesis
    using that [OF b(2) i] assms(2) sized_values [OF b(2)] sized_size [OF b(2)] i by (simp add: init_status_def)
qed

section \<open>Synchronisation\<close>

text \<open>A service entry is alive when it has the form \<open>namespace/name\<close> of a stored service.\<close>

definition svc_alive :: "('w \<Rightarrow> string \<times> string \<Rightarrow> Service option) \<Rightarrow> 'w \<Rightarrow> string \<Rightarrow> bool" where
  "svc_alive U w svc = (case Split svc CHR ''/'' of s0 # s1 # _ \<Rightarrow> U w (s0, s1) \<noteq> None | _ \<Rightarrow> False)"

lemma svc_alive_mono: "U w = U w' \<Longrightarrow> svc_alive U w = svc_alive U w'"
  by (simp add: svc_alive_def fun_eq_iff split: list.splits)

lemma sync_svcs_Ok:
  assumes "service_store C U" and "sync_svcs C svcs acc w = (Ok r, w')"
  shows "r = acc @ filter (svc_alive U w) svcs \<and> U w' = U w"
  using assms(2)
proof (induction svcs arbitrary: acc w)
  case (Cons svc svcs)
  show ?case
  proof (cases "\<exists>s0 s1 ss. Split svc CHR ''/'' = s0 # s1 # ss")
    case False
    then have "sync_svcs C svcs acc w = (Ok r, w')" "\<not> svc_alive U w svc"
      using Cons.prems by (auto simp: svc_alive_def split: list.splits)
    then show ?thesis using Cons.IH by simp
  next
    case True
    then obtain s0 s1 ss where s: "Split svc CHR ''/'' = s0 # s1 # ss" by blast
    obtain g w1 where g: "cGetService C s0 s1 w = (g, w1)" by force
    note law = service_store_get [OF assms(1) g]
    have alive: "svc_alive U w1 = svc_alive U w" using law(1) by (rule svc_alive_mono)
    show ?thesis
    proof (cases g)
      case (Ok x)
      then have "svc_alive U w svc" using law(2) s by (simp add: svc_alive_def)
      then show ?thesis using Cons.IH [of "acc @ [svc]" w1] Cons.prems s g Ok alive law(1) by simp
    next
      case (Err x)
      then have nf: "IsNotFound x" and "sync_svcs C svcs acc w1 = (Ok r, w')"
        using Cons.prems s g by (auto split: if_splits)
      moreover have "\<not> svc_alive U w svc" using law(3) [OF Err nf] s by (simp add: svc_alive_def)
      ultimately show ?thesis using Cons.IH [of acc w1] alive law(1) by simp
    qed (use Cons.prems s g in simp)
  qed
qed simp

definition sync_val :: "('w \<Rightarrow> string \<times> string \<Rightarrow> Service option) \<Rightarrow> 'w \<Rightarrow> string \<Rightarrow> string option" where
  "sync_val U w v =
     (let alive = filter (svc_alive U w) (Split v CHR '';'') in
      if alive = [] then None else Some (Join alive '';''))"

lemma sync_used_Ok:
  assumes "service_store C U" and "sync_used C m acc w = (Ok r, w')"
    and "gomap_wf m" and "mkeys m \<inter> mkeys acc = {}" and "gomap_wf acc"
  shows "U w' = U w \<and> gomap_wf r \<and> mkeys r \<subseteq> mkeys m \<union> mkeys acc \<and>
    (\<forall>a. mget r a = (case mget m a of None \<Rightarrow> mget acc a | Some v \<Rightarrow> sync_val U w v))"
  using assms(2-)
proof (induction m arbitrary: acc w)
  case (Cons kv m)
  obtain k v where kv: "kv = (k, v)" by (cases kv)
  obtain ss w1 where ss: "sync_svcs C (Split v CHR '';'') [] w = (Ok ss, w1)"
    and rest: "sync_used C m (if length ss \<noteq> 0 then mset_at k (Join ss '';'') acc else acc) w1 = (Ok r, w')"
    using Cons.prems(1) by (auto simp: kv res_simps)
  let ?acc = "if length ss \<noteq> 0 then mset_at k (Join ss '';'') acc else acc"
  have s: "ss = filter (svc_alive U w) (Split v CHR '';'')" "U w1 = U w"
    using sync_svcs_Ok [OF assms(1) ss] by auto
  have new: "k \<notin> mkeys m" "k \<notin> mkeys acc" "gomap_wf m" "mkeys m \<inter> mkeys acc = {}"
    using Cons.prems by (auto simp: kv)
  have sv: "sync_val U w1 = sync_val U w" 
    by (intro ext) (simp only: sync_val_def svc_alive_mono [OF s(2)])
  have "gomap_wf ?acc" "mkeys m \<inter> mkeys ?acc = {}" using Cons.prems(4) new by (auto simp: gomap_simps)
  note IH = Cons.IH [OF rest new(3) this(2,1)]
  have acc: "mget ?acc = (mget acc)(k := sync_val U w v)"
    using s(1) new(2) by (auto simp: sync_val_def gomap_simps mget_None_iff)
  have none: "mget m k = None" using new(1) by (simp add: mget_None_iff)
  have "mkeys r \<subseteq> mkeys m \<union> mkeys ?acc" using IH by blast
  also have "\<dots> \<subseteq> mkeys (kv # m) \<union> mkeys acc" by (auto simp: kv gomap_simps)
  finally have keys: "mkeys r \<subseteq> mkeys (kv # m) \<union> mkeys acc" .
  have "mget r a = (case mget (kv # m) a of None \<Rightarrow> mget acc a | Some v \<Rightarrow> sync_val U w v)" for a
  proof -
    have "mget r a = (case mget m a of None \<Rightarrow> mget ?acc a | Some v \<Rightarrow> sync_val U w v)" 
      by (rule IH [unfolded sv, THEN conjunct2, THEN conjunct2, THEN conjunct2, THEN spec])
    also have "\<dots> = (case mget (kv # m) a of None \<Rightarrow> mget acc a | Some v \<Rightarrow> sync_val U w v)"
      unfolding acc using none by (simp add: kv split: option.split)
    finally show ?thesis .
  qed
  then show ?case using IH s(2) keys by simp
qed simp

lemma sync_val_iff:
  "(\<exists>u. sync_val U w v = Some u \<and> s \<in> set (Split u CHR '';'')) \<longleftrightarrow> s \<in> set (Split v CHR '';'') \<and> svc_alive U w s"
proof -
  let ?l = "filter (svc_alive U w) (Split v CHR '';'')"
  have "Split (Join ?l '';'') CHR '';'' = ?l" if "?l \<noteq> []"
    by (rule Split_Join [OF that]) (auto dest: Split_parts_no_sep)
  then show ?thesis by (auto simp: sync_val_def Let_def filter_empty_conv)
qed

lemma syncEip_Ok:
  assumes "service_store C U" and "syncEip C e w = (Ok e', w')" and "gomap_wf (used_of e)"
  shows "U w' = U w" and "holders e' = {(a, s) \<in> holders e. svc_alive U w s}"
    and "gomap_wf (used_of e')" and "mkeys (used_of e') \<subseteq> mkeys (used_of e)"
    and "e' = upd_status (\<lambda>st. st\<lparr>Used := Some (used_of e'), Usage := int (length (used_of e')),
              Occupied := int (length (used_of e')) \<ge> PoolSize st\<rparr>) e"
proof -
  obtain used where u: "sync_used C (used_of e) [] w = (Ok used, w')"
    and e': "e' = upd_status (\<lambda>st. st\<lparr>Used := Some used, Usage := int (length used),
              Occupied := int (length used) \<ge> PoolSize st\<rparr>) e"
    using assms(2) by (auto simp: syncEip_def res_simps)
  note r = sync_used_Ok [OF assms(1) u assms(3)]
  show "U w' = U w" "gomap_wf (used_of e')" "mkeys (used_of e') \<subseteq> mkeys (used_of e)" using r e' by auto
  show "e' = upd_status (\<lambda>st. st\<lparr>Used := Some (used_of e'), Usage := int (length (used_of e')),
              Occupied := int (length (used_of e')) \<ge> PoolSize st\<rparr>) e" using e' by simp
  have "mget used a = (case mget (used_of e) a of None \<Rightarrow> None | Some v \<Rightarrow> sync_val U w v)" for a
    using r by (simp split: option.split)
  then have "(a, s) \<in> holders e' \<longleftrightarrow> (a, s) \<in> holders e \<and> svc_alive U w s" for a s
    using sync_val_iff [of U w _ s] e' by (auto simp: holders_def split: option.splits)
  then show "holders e' = {(a, s) \<in> holders e. svc_alive U w s}" by auto
qed

lemma card_pool: 
  assumes "mkeys m \<subseteq> pool_addr base ` {0..<n}" and "gomap_wf m" and "0 \<le> n"
  shows "int (length m) \<le> n"
proof -
  have "length m = card (mkeys m)" by (rule length_eq_card_mkeys [OF assms(2)])
  also have "\<dots> \<le> card (pool_addr base ` {0..<n})" by (rule card_mono [OF _ assms(1)]) simp
  also have "\<dots> \<le> card {0..<n}" by (rule card_image_le) simp
  finally show ?thesis using assms(3) by simp
qed

text \<open>
  What synchronisation needs of a status to establish the invariant: the counters may be stale.
\<close>

definition eip_pre :: "Eip \<Rightarrow> IP \<Rightarrow> int \<Rightarrow> bool" where
  "eip_pre e base n \<longleftrightarrow>
     sized e base n \<and> PoolSize (e_status e) = n \<and> FirstIP (e_status e) = IP_String base \<and>
     gomap_wf (used_of e) \<and> mkeys (used_of e) \<subseteq> pool_addr base ` {0..<n}"

lemma eip_inv_pre: "eip_inv e base n \<Longrightarrow> eip_pre e base n"
  by (simp add: eip_inv_def eip_pre_def)

lemma syncEip_establishes:
  assumes "service_store C U" and "syncEip C e w = (Ok e', w')" and "eip_pre e base n"
  shows "eip_inv e' base n"
proof -
  have pre: "sized e base n" "PoolSize (e_status e) = n" "FirstIP (e_status e) = IP_String base"
    "gomap_wf (used_of e)" "mkeys (used_of e) \<subseteq> pool_addr base ` {0..<n}"
    using assms(3) by (simp_all add: eip_pre_def)
  note ok = syncEip_Ok [OF assms(1,2) pre(4)]
  have keys: "mkeys (used_of e') \<subseteq> pool_addr base ` {0..<n}" using ok(4) pre(5) by (rule order_trans)
  have "0 \<le> n" using pre(1) by (simp add: sized_def)
  note le = card_pool [OF keys ok(3) this]
  have f: "e_status e' = (e_status e)\<lparr>Used := Some (used_of e'), Usage := int (length (used_of e')),
      Occupied := int (length (used_of e')) \<ge> n\<rparr>" "e_spec e' = e_spec e"
    by (subst ok(5), simp add: pre(2))+
  have "sized e' base n" using pre(1) f(2) by (simp add: sized_def GetSize_def)
  moreover have "Occupied (e_status e') = (int (length (used_of e')) \<ge> n)" "Usage (e_status e') = int (length (used_of e'))"
    "PoolSize (e_status e') = n" "FirstIP (e_status e') = IP_String base"
    by (subst f(1), simp add: pre(2,3))+
  ultimately show ?thesis using keys ok(3) le by (auto simp: eip_inv_def)
qed

text \<open>The status of a new EIP: nothing initialised and nothing in use.\<close>

definition eip_fresh :: "Eip \<Rightarrow> bool" where
  "eip_fresh e \<longleftrightarrow> v4_eip e \<and> FirstIP (e_status e) = [] \<and> used_of e = []"

lemma ParseIP_empty: "ParseIP [] = None"
  by code_simp

lemma assign_fresh: "eip_fresh e \<Longrightarrow> assignIPFromEip (Some r) e \<noteq> (Ok addr, e')"
  by (auto simp: eip_fresh_def assignIPFromEip_def Let_def ParseIP_empty assign_loop.simps split: if_splits)

lemma release_fresh: "eip_fresh e \<Longrightarrow> releaseIPFromEip k e = e"
  by (simp add: eip_fresh_def releaseIPFromEip_def)

text \<open>An EIP of the store: new, or with a status that has the invariant.\<close>

definition eip_settled :: "Eip \<Rightarrow> bool" where
  "eip_settled e \<longleftrightarrow> eip_fresh e \<or> (\<exists>base n. eip_inv e base n)"

lemma eip_settled_wf: "eip_settled e \<Longrightarrow> gomap_wf (used_of e)"
  by (auto simp: eip_settled_def eip_fresh_def eip_inv_def)

lemma assign_settled:
  assumes "eip_settled e" and "assignIPFromEip (Some r) e = (Ok addr, e')"
  obtains base n where "eip_inv e base n" "eip_inv e' base n"
  using assms assign_fresh [of e r] assignIPFromEip_inv [of e] unfolding eip_settled_def by metis

lemma release_settled: "eip_settled e \<Longrightarrow> eip_settled (releaseIPFromEip k e)"
  using release_fresh [of e k] releaseIPFromEip_inv [of e] unfolding eip_settled_def by metis

lemma init_status_pre:
  assumes "eip_fresh e \<or> eip_pre e base n" and "init_status e = Ok e'"
  shows "\<exists>base n. eip_pre e' base n" and "used_of e' = used_of e" and "e_meta e' = e_meta e" and "e_spec e' = e_spec e"
proof -
  have "(\<exists>base n. eip_pre e' base n) \<and> used_of e' = used_of e \<and> e_meta e' = e_meta e \<and> e_spec e' = e_spec e"
  proof (cases "FirstIP (e_status e) = []")
    case False
    then have "e' = e" using assms(2) by (simp add: init_status_def)
    then show ?thesis using assms(1) False by (auto simp: eip_fresh_def)
  next
    case True
    have "\<not> eip_pre e base n"
    proof
      assume "eip_pre e base n"
      then have "valid_ip base" "IP_String base = []" using True by (simp_all add: eip_pre_def sized_def)
      then show False using ParseIP_IP_String [of base] by (simp add: ParseIP_empty)
    qed
    then have fr: "v4_eip e" "used_of e = []" using assms(1) by (simp_all add: eip_fresh_def)
    obtain base n last_ip where "sized e base n" "init_status e = Ok (upd_status (\<lambda>st. st\<lparr>PoolSize := n,
        FirstIP := IP_String base, LastIP := IP_String last_ip, V4 := True\<rparr>) e)"
      by (rule init_status_fresh [OF fr(1) True])
    then show ?thesis using assms(2) fr(2) by (auto simp: eip_pre_def)
  qed
  then show "\<exists>base n. eip_pre e' base n" "used_of e' = used_of e" "e_meta e' = e_meta e" "e_spec e' = e_spec e" by auto
qed

lemma updateEip_Ok:
  assumes "service_store C U" and "updateEip C e w = (Ok e', w')" and "eip_fresh e \<or> eip_pre e base n"
  shows "\<exists>base n. eip_inv e' base n" and "U w' = U w" and "holders e' = {(a, s) \<in> holders e. svc_alive U w s}"
    and "e_meta e' = e_meta e" and "e_spec e' = e_spec e"
proof -
  obtain e1 where e1: "init_status e = Ok e1" "syncEip C e1 w = (Ok e', w')"
    using assms(2) by (auto simp: updateEip_def res_simps)
  note i = init_status_pre [OF assms(3) e1(1)]
  then obtain b k where pre: "eip_pre e1 b k" by auto
  then have wf: "gomap_wf (used_of e1)" by (simp add: eip_pre_def)
  note ok = syncEip_Ok [OF assms(1) e1(2) wf]
  show "\<exists>base n. eip_inv e' base n" using syncEip_establishes [OF assms(1) e1(2) pre] by blast
  show "U w' = U w" by (rule ok(1))
  show "holders e' = {(a, s) \<in> holders e. svc_alive U w s}" using ok(2) i(2) by (simp add: holders_def)
  show "e_meta e' = e_meta e" "e_spec e' = e_spec e" using i(3,4) by (subst ok(5); simp)+
qed

section \<open>Deletion\<close>

abbreviation has_label :: "string \<Rightarrow> Service \<Rightarrow> bool" where
  "has_label name s \<equiv> mget (nmap (m_labels (s_meta s))) OpenELBEIPAnnotationKeyV1Alpha2 = Some name"

lemma mget_mdel_opt: "mget (nmap (mdel_opt k m)) = (mget (nmap m))(k := None)"
  by (cases m) (simp_all add: mdel_opt_def gomap_simps)

lemma unlabel_services_Ok:
  assumes "service_store C U" and "unlabel_services C svcs w = (Ok (), w')"
    and "\<forall>j s. U w j = Some s \<longrightarrow> has_label name s \<longrightarrow> j \<in> set (map (\<lambda>s. svc_key s) svcs)"
  shows "\<forall>j s. U w' j = Some s \<longrightarrow> \<not> has_label name s"
  using assms(2,3)
proof (induction svcs arbitrary: w)
  case (Cons svc svcs)
  let ?svc = "svc\<lparr>s_meta := (s_meta svc)\<lparr>m_labels := mdel_opt OpenELBEIPAnnotationKeyV1Alpha2 (m_labels (s_meta svc))\<rparr>\<rparr>"
  obtain s' w1 where u: "cUpdateService C ?svc w = (Ok s', w1)" and rest: "unlabel_services C svcs w1 = (Ok (), w')"
    using Cons.prems(1) by (auto simp: res_simps)
  have key: "svc_key ?svc = svc_key svc" by simp
  have U: "U w1 = (U w)(svc_key svc := stored s_meta s')" using service_store_update(1) [OF assms(1) u] key by simp
  have "\<not> has_label name s'" using service_store_update(3) [OF assms(1) u] by (simp add: mget_mdel_opt gomap_simps)
  then have gone: "\<not> has_label name s" if "stored s_meta s' = Some s" for s
    using that by (auto simp: stored_def split: if_splits)
  have "\<forall>j s. U w1 j = Some s \<longrightarrow> has_label name s \<longrightarrow> j \<in> set (map (\<lambda>s. svc_key s) svcs)"
  proof (intro allI impI)
    fix j s assume j: "U w1 j = Some s" "has_label name s"
    then have "j \<noteq> svc_key svc" using gone by (auto simp: U)
    then have "U w j = Some s" using j(1) by (simp add: U del: prod.inject split: if_splits)
    then have "j \<in> set (map (\<lambda>s. svc_key s) (svc # svcs))" using Cons.prems(2) j(2) by blast
    then show "j \<in> set (map (\<lambda>s. svc_key s) svcs)" using \<open>j \<noteq> svc_key svc\<close> by simp
  qed
  then show ?case by (rule Cons.IH [OF rest])
qed auto

lemma unlabel_services_apart:
  assumes "stores_apart C V U" and "unlabel_services C svcs w = (r, w')"
  shows "V w' = V w"
  using assms(2)
proof (induction svcs arbitrary: w)
  case (Cons svc svcs)
  let ?svc = "svc\<lparr>s_meta := (s_meta svc)\<lparr>m_labels := mdel_opt OpenELBEIPAnnotationKeyV1Alpha2 (m_labels (s_meta svc))\<rparr>\<rparr>"
  obtain r1 w1 where u: "cUpdateService C ?svc w = (r1, w1)" by force
  then have "V w1 = V w" by (rule apart_run(7) [OF assms(1)])
  then show ?case using Cons u by (cases r1) auto
qed simp

lemma removeEip_Ok:
  assumes "api_laws C V U" and "removeEip C e w = (Ok (), w')"
  shows "\<forall>j s. U w' j = Some s \<longrightarrow> \<not> has_label (e_name e) s" and "V w' = V w"
proof -
  have laws: "service_store C U" "stores_apart C V U" using assms(1) by (simp_all add: api_laws_def)
  obtain svcs w1 where l: "cListServicesByLabel C OpenELBEIPAnnotationKeyV1Alpha2 (e_name e) w = (Ok svcs, w1)"
    and rest: "unlabel_services C svcs w1 = (Ok (), w')"
    using assms(2) by (auto simp: removeEip_def res_simps)
  note lb = service_store_label [OF laws(1) l]
  have "\<forall>j s. U w1 j = Some s \<longrightarrow> has_label (e_name e) s \<longrightarrow> j \<in> set (map (\<lambda>s. svc_key s) svcs)"
  proof (intro allI impI)
    fix j s assume j: "U w1 j = Some s" "has_label (e_name e) s"
    then have "U w j = Some s" using lb(1) by simp
    moreover from lb(4) [OF refl this] have "svc_key s = j" .
    ultimately have "s \<in> set svcs" using lb(3) [OF refl, of s] j(2) by simp
    then show "j \<in> set (map (\<lambda>s. svc_key s) svcs)" using \<open>svc_key s = j\<close> by force
  qed
  then show "\<forall>j s. U w' j = Some s \<longrightarrow> \<not> has_label (e_name e) s" by (rule unlabel_services_Ok [OF laws(1) rest])
  show "V w' = V w" using unlabel_services_apart [OF laws(2) rest] apart_run(5) [OF laws(2) l] by simp
qed

lemma eip_pre_same: "e_spec b = e_spec a \<Longrightarrow> e_status b = e_status a \<Longrightarrow> eip_pre a base n \<Longrightarrow> eip_pre b base n"
  by (simp add: eip_pre_def sized_def GetSize_def)

lemma eip_fresh_same: "e_spec b = e_spec a \<Longrightarrow> e_status b = e_status a \<Longrightarrow> eip_fresh a \<Longrightarrow> eip_fresh b"
  by (simp add: eip_fresh_def v4_eip_def GetSize_def)

lemma eip_settled_same: "e_spec b = e_spec a \<Longrightarrow> e_status b = e_status a \<Longrightarrow> eip_settled a \<Longrightarrow> eip_settled b"
  using eip_fresh_same [of b a] eip_inv_same [of a _ _ b] unfolding eip_settled_def by metis

lemma DeepEqual_inv:
  assumes "eip_inv c base n" and "DeepEqual_status (e_status c) (e_status e)" and "e_spec e = e_spec c" and "gomap_wf (used_of e)"
  shows "eip_inv e base n"
proof -
  have u: "mget (used_of c) = mget (used_of e)" and f: "PoolSize (e_status c) = PoolSize (e_status e)"
    "FirstIP (e_status c) = FirstIP (e_status e)" "Usage (e_status c) = Usage (e_status e)"
    "Occupied (e_status c) = Occupied (e_status e)"
    using assms(2) by (auto simp: DeepEqual_status_def dest: DeepEqualMap_nmap)
  have k: "mkeys (used_of c) = mkeys (used_of e)" 
    using arg_cong [OF u, of dom] by (simp add: dom_map_of_conv_image_fst)
  then have "length (used_of c) = length (used_of e)"
    using length_eq_card_mkeys [of "used_of c"] length_eq_card_mkeys [OF assms(4)] assms(1) by (simp add: eip_inv_def)
  moreover have "sized e base n" using assms(1,3) by (simp add: eip_inv_def sized_def GetSize_def)
  ultimately show ?thesis using assms(1,4) f k by (simp add: eip_inv_def)
qed

lemma sync_svcs_apart:
  assumes "stores_apart C V U" and "sync_svcs C svcs acc w = (r, w')"
  shows "V w' = V w"
  using assms(2)
proof (induction svcs arbitrary: acc w)
  case (Cons svc svcs)
  show ?case
  proof (cases "\<exists>s0 s1 ss. Split svc CHR ''/'' = s0 # s1 # ss")
    case True
    then obtain s0 s1 ss where s: "Split svc CHR ''/'' = s0 # s1 # ss" by blast
    obtain g w1 where g: "cGetService C s0 s1 w = (g, w1)" by force
    have "V w1 = V w" by (rule apart_run(6) [OF assms(1) g])
    then show ?thesis using Cons s g by (cases g) (auto split: if_splits)
  qed (use Cons in \<open>auto split: list.splits\<close>)
qed simp

lemma sync_used_apart:
  assumes "stores_apart C V U" and "sync_used C m acc w = (r, w')"
  shows "V w' = V w"
  using assms(2)
proof (induction m arbitrary: acc w)
  case (Cons kv m)
  obtain k v where kv: "kv = (k, v)" by (cases kv)
  obtain r1 w1 where s: "sync_svcs C (Split v CHR '';'') [] w = (r1, w1)" by force
  have "V w1 = V w" by (rule sync_svcs_apart [OF assms(1) s])
  then show ?case using Cons s kv by (cases r1) auto
qed simp

lemma updateEip_apart:
  assumes "stores_apart C V U" and "updateEip C e w = (Ok e', w')"
  shows "V w' = V w"
  using assms(2) sync_used_apart [OF assms(1)] by (auto simp: updateEip_def syncEip_def res_simps)

text \<open>The step that adds the finalizer stores the object with its specification and status unchanged.\<close>

lemma finalizer_step:
  assumes "eip_store C V" and "service_store C U" and "stores_apart C V U"
    and "(if NeedToAddFinalizer (e_meta e) fin then cUpdateEip C (e\<lparr>e_meta := AddFinalizer fin (e_meta e)\<rparr>) w
          else (Ok e, w)) = (Ok e2, w2)"
    and "V w (e_name e) = Some e" and "\<not> e_deleting e"
  shows "V w2 (e_name e) = Some e2" and "e_name e2 = e_name e" and "e_status e2 = e_status e" and "e_spec e2 = e_spec e"
    and "U w2 = U w"
proof -
  have "V w2 (e_name e) = Some e2 \<and> e_name e2 = e_name e \<and> e_status e2 = e_status e \<and> e_spec e2 = e_spec e \<and> U w2 = U w"
  proof (cases "NeedToAddFinalizer (e_meta e) fin")
    case True
    let ?e = "e\<lparr>e_meta := AddFinalizer fin (e_meta e)\<rparr>"
    have n: "e_name ?e = e_name e" by (simp add: AddFinalizer_def)
    have u: "cUpdateEip C ?e w = (Ok e2, w2)" using True assms(4) by simp
    note p = eip_store_put [OF assms(1) u, unfolded n]
    have "stored e_meta e2 = Some e2" using p(5) assms(5,6) by (auto simp: stored_def collected_def)
    then show ?thesis using p assms(5) apart_run(3) [OF assms(3) u] by auto
  qed (use assms in simp)
  then show "V w2 (e_name e) = Some e2" "e_name e2 = e_name e" "e_status e2 = e_status e" "e_spec e2 = e_spec e"
    "U w2 = U w" by simp_all
qed

lemma EIP_Reconcile_get:
  assumes "eip_store C V" and "V w name = Some e" and "EIP_Reconcile C name w = (Ok (), w')"
  obtains w1 where "cGetEip C name w = (Ok e, w1)"
  using assms(3) eip_store_get(1) [OF assms(1)] eip_store_get_err(2) [OF assms(1)] assms(2)
  by (cases "cGetEip C name w"; cases "fst (cGetEip C name w)") (auto simp: EIP_Reconcile_def split: if_splits)

section \<open>Whole reconciliations\<close>

text \<open>
  (C5) A successful reconciliation of an IPv4 EIP that is not being deleted, new or already
  initialised, stores a status that satisfies the invariant of the address manager and in which
  exactly the services that still exist keep their addresses; it changes no service.
\<close>

theorem EIP_Reconcile_settles:
  assumes "api_laws C V U" and "V w name = Some e" and "\<not> e_deleting e"
    and "eip_fresh e \<or> eip_inv e base n" and "EIP_Reconcile C name w = (Ok (), w')"
  shows "\<exists>e' base n. V w' name = Some e' \<and> eip_inv e' base n \<and> e_spec e' = e_spec e \<and> U w' = U w \<and>
    holders e' = {(a, s) \<in> holders e. svc_alive U w s}"
proof -
  have laws: "eip_store C V" "service_store C U" "stores_apart C V U" using assms(1) by (simp_all add: api_laws_def)
  obtain w1 where g: "cGetEip C name w = (Ok e, w1)" by (rule EIP_Reconcile_get [OF laws(1) assms(2,5)])
  have w1: "V w1 = V w" "U w1 = U w" "e_name e = name" using eip_store_get [OF laws(1) g] apart_run(1) [OF laws(3) g] by auto
  have nd: "\<not> IsDeletionCandidate (e_meta e) IPAMFinalizerName" using assms(3) by (simp add: IsDeletionCandidate_def)
  let ?fin = "if NeedToAddFinalizer (e_meta e) IPAMFinalizerName
    then cUpdateEip C (e\<lparr>e_meta := AddFinalizer IPAMFinalizerName (e_meta e)\<rparr>) w1 else (Ok e, w1)"
  obtain e2 w2 where f: "?fin = (Ok e2, w2)"
    using assms(5) by (cases "?fin"; cases "fst ?fin") (simp_all add: EIP_Reconcile_def g nd)
  have e2: "V w2 name = Some e2" "e_name e2 = name" "e_status e2 = e_status e" "e_spec e2 = e_spec e" "U w2 = U w"
    using finalizer_step [OF laws f] assms(2,3) w1 by auto
  have "eip_fresh e2 \<or> eip_pre e2 base n"
    using assms(4) e2(3,4) eip_inv_pre [of e base n] eip_pre_same [of e2 e] eip_fresh_same [of e2 e] by auto
  note upd = updateEip_Ok [OF laws(2) _ this]
  have wf: "gomap_wf (used_of e)" using assms(4) by (auto simp: eip_fresh_def eip_inv_def)
  obtain c w3 where c: "updateEip C e2 w2 = (Ok c, w3)"
    using assms(5) by (cases "updateEip C e2 w2"; cases "fst (updateEip C e2 w2)") (simp_all add: EIP_Reconcile_def g nd f)
  obtain b k where inv: "eip_inv c b k" using upd(1) [OF c] by blast
  have h: "holders c = {(a, s) \<in> holders e. svc_alive U w s}"
    using upd(3) [OF c] holders_status [OF e2(3)] svc_alive_mono [of U w2 w] e2(5) by simp
  have V3: "V w3 = V w2" by (rule updateEip_apart [OF laws(3) c])
  have n: "e_name c = name" "e_spec c = e_spec e" using upd(4,5) [OF c] e2(2,4) by simp_all
  show ?thesis
  proof (cases "DeepEqual_status (e_status c) (e_status e2)")
    case True
    then have "w' = w3" using assms(5) by (simp add: EIP_Reconcile_def g nd f c)
    moreover have "eip_inv e2 b k" by (rule DeepEqual_inv [OF inv True]) (use n e2 wf in simp_all)
    moreover have "holders e2 = holders c" using True by (auto simp: holders_def DeepEqual_status_def dest!: DeepEqualMap_nmap)
    ultimately show ?thesis using V3 e2 h upd(2) [OF c] by auto
  next
    case False
    then obtain e4 where u: "cUpdateEipStatus C c w3 = (Ok e4, w')"
      using assms(5) by (auto simp: EIP_Reconcile_def g nd f c res_simps)
    note st = eip_store_update [OF laws(1) u]
    have "e_spec e4 = e_spec c" using st(4) V3 e2(1,4) n by auto
    then have "eip_inv e4 b k" using eip_inv_same [OF inv] st(3) by simp
    then show ?thesis
      using st(1,3) n h holders_status [OF st(3)] apart_run(4) [OF laws(3) u] upd(2) [OF c] e2(5) \<open>e_spec e4 = e_spec c\<close> by auto
  qed
qed

definition sample_shared :: Eip where
  "sample_shared = upd_status (\<lambda>st. st\<lparr>Used := Some [(''192.168.0.100'', ''ns/old;ns/web''), (''192.168.0.101'', ''ns/gone'')],
     Usage := 2\<rparr>) sample_pool"

definition sample_eip_mem :: mem where
  "sample_eip_mem = empty_mem\<lparr>mEips := [sample_shared], mServices := [sample_service]\<rparr>"

lemma sample_shared_inv: "eip_inv sample_shared [192, 168, 0, 100] 4"
proof -
  have p: "pool_addr [192, 168, 0, 100] 1 = ''192.168.0.101''" "pool_addr [192, 168, 0, 100] 0 = ''192.168.0.100''"
    by code_simp+
  have "pool_addr [192, 168, 0, 100] i \<in> pool_addr [192, 168, 0, 100] ` {0..<4}" if "i \<in> {0, 1}" for i
    using that by auto
  from this [of 0] this [of 1]
  have "{''192.168.0.100'', ''192.168.0.101''} \<subseteq> pool_addr [192, 168, 0, 100] ` {0..<4}" unfolding p by simp
  then show ?thesis
    using sample_pool_sized
    by (simp add: eip_inv_def sample_shared_def sample_pool_def sample_pool_strings zero_EipStatus_def)
qed

theorem EIP_Reconcile_settles_witness:
  "\<exists>w' e'. EIP_Reconcile mem_client ''a'' sample_eip_mem = (Ok (), w') \<and> mem_eip w' ''a'' = Some e' \<and>
     holders e' = {(''192.168.0.100'', ''ns/web'')}"
proof -
  have "fst (EIP_Reconcile mem_client ''a'' sample_eip_mem) = Ok ()" by code_simp
  then obtain w' where run: "EIP_Reconcile mem_client ''a'' sample_eip_mem = (Ok (), w')"
    by (metis prod.collapse)
  have e: "mem_eip sample_eip_mem ''a'' = Some sample_shared" "\<not> e_deleting sample_shared"
    using sample_pool_usable(1) by (simp_all add: sample_eip_mem_def mem_eip_def sample_shared_def sample_pool_def)
  have h: "holders sample_shared = {(''192.168.0.100'', ''ns/old''), (''192.168.0.100'', ''ns/web''), (''192.168.0.101'', ''ns/gone'')}"
    by (auto simp: holders_def sample_shared_def split: if_splits)
  have a: "svc_alive mem_service sample_eip_mem ''ns/web''" "\<not> svc_alive mem_service sample_eip_mem ''ns/old''"
    "\<not> svc_alive mem_service sample_eip_mem ''ns/gone''"
    by code_simp+
  from EIP_Reconcile_settles [OF mem_api_laws e _ run] sample_shared_inv
  obtain e' where "mem_eip w' ''a'' = Some e'"
    "holders e' = {(a, s) \<in> holders sample_shared. svc_alive mem_service sample_eip_mem s}"
    by blast
  then show ?thesis using run a by (auto simp: h)
qed

text \<open>
  (C25) After a successful reconciliation of an EIP that is being deleted and carries the finalizer
  of the address manager, no service is labelled with the EIP any more, and the finalizer is gone:
  the EIP is deleted, or waits for the finalizers of others only.
\<close>

theorem EIP_Reconcile_deletes:
  assumes "api_laws C V U" and "V w name = Some e" and "IsDeletionCandidate (e_meta e) IPAMFinalizerName"
    and "EIP_Reconcile C name w = (Ok (), w')"
  shows "(\<forall>j s. U w' j = Some s \<longrightarrow> \<not> has_label name s) \<and>
    (if set (m_finalizers (e_meta e)) = {IPAMFinalizerName} then V w' name = None
     else \<exists>e'. V w' name = Some e' \<and> e_spec e' = e_spec e \<and> e_status e' = e_status e \<and>
       set (m_finalizers (e_meta e')) = set (m_finalizers (e_meta e)) - {IPAMFinalizerName})"
proof -
  have laws: "eip_store C V" "stores_apart C V U" using assms(1) by (simp_all add: api_laws_def)
  obtain w1 where g: "cGetEip C name w = (Ok e, w1)" by (rule EIP_Reconcile_get [OF laws(1) assms(2,4)])
  let ?e = "e\<lparr>e_meta := RemoveFinalizer IPAMFinalizerName (e_meta e)\<rparr>"
  obtain w2 e3 where r: "removeEip C e w1 = (Ok (), w2)" and u: "cUpdateEip C ?e w2 = (Ok e3, w')"
    using assms(3,4) by (auto simp: EIP_Reconcile_def g res_simps)
  have n: "e_name e = name" "V w1 = V w" using eip_store_get [OF laws(1) g] by auto
  note rm = removeEip_Ok [OF assms(1) r]
  note p = eip_store_put [OF laws(1) u]
  have V2: "V w2 name = Some e" using rm(2) n assms(2) by simp
  have d: "e_deleting e" "IPAMFinalizerName \<in> set (m_finalizers (e_meta e))"
    using assms(3) by (simp_all add: IsDeletionCandidate_def ContainsString_iff)
  have V': "V w' name = stored e_meta e3" using p(1) n by simp
  have old: "m_deletionTimestamp (e_meta e3) = m_deletionTimestamp (e_meta e)" "e_status e3 = e_status e"
    using p(5) V2 n by simp_all
  have fin: "set (m_finalizers (e_meta e3)) = set (m_finalizers (e_meta e)) - {IPAMFinalizerName}"
    using p(4) by simp
  have "m_finalizers (e_meta e3) = [] \<longleftrightarrow> set (m_finalizers (e_meta e)) = {IPAMFinalizerName}"
    unfolding set_empty [symmetric] fin using d(2) by blast
  then have st: "stored e_meta e3 = (if set (m_finalizers (e_meta e)) = {IPAMFinalizerName} then None else Some e3)"
    using d(1) old(1) by (simp add: stored_def collected_def)
  have "\<forall>j s. U w' j = Some s \<longrightarrow> \<not> has_label name s" using rm(1) apart_run(3) [OF laws(2) u] n by simp
  then show ?thesis using V' st old(2) fin p(3) by simp
qed

definition sample_dying :: Eip where
  "sample_dying = sample_shared\<lparr>e_meta := (e_meta sample_shared)\<lparr>m_finalizers := [IPAMFinalizerName],
     m_deletionTimestamp := Some 1\<rparr>\<rparr>"

definition sample_dying_mem :: mem where
  "sample_dying_mem = empty_mem\<lparr>mEips := [sample_dying],
     mServices := [sample_service\<lparr>s_meta := (s_meta sample_service)\<lparr>m_labels := Some [(OpenELBEIPAnnotationKeyV1Alpha2, ''a'')]\<rparr>\<rparr>]\<rparr>"

theorem EIP_Reconcile_deletes_witness:
  "\<exists>w'. EIP_Reconcile mem_client ''a'' sample_dying_mem = (Ok (), w') \<and> mem_eip w' ''a'' = None \<and>
     (\<forall>j s. mem_service w' j = Some s \<longrightarrow> \<not> has_label ''a'' s)"
proof -
  have "fst (EIP_Reconcile mem_client ''a'' sample_dying_mem) = Ok ()" by code_simp
  then obtain w' where run: "EIP_Reconcile mem_client ''a'' sample_dying_mem = (Ok (), w')"
    by (metis prod.collapse)
  have e: "mem_eip sample_dying_mem ''a'' = Some sample_dying"
    "IsDeletionCandidate (e_meta sample_dying) IPAMFinalizerName" "m_finalizers (e_meta sample_dying) = [IPAMFinalizerName]"
    by (simp_all add: sample_dying_mem_def mem_eip_def sample_dying_def sample_shared_def sample_pool_def
        IsDeletionCandidate_def IsZero_def)
  from EIP_Reconcile_deletes [OF mem_api_laws e(1,2) run] e(3) show ?thesis using run by simp
qed
end
