(* ===== verification/NodeProxy.thy ===== *)
theory NodeProxy
  imports Util StoreRules
begin

text \<open>
  The node proxy, \<open>pkg/controllers/lb/nodeproxy.go\<close>: services that are exposed by proxy pods on the
  nodes instead of by an EIP. For each such service the controller keeps one deployment or one
  daemon set in its own namespace.

  \<open>np_client\<close> holds the calls to the API server this file makes besides those of \<open>client\<close>;
  \<open>workload_store\<close> says what a caller may rely on while it is the only writer. \<open>reconcileNPNormal_proxy\<close>
  shows that after a successful reconciliation the workload of the requested kind is the one computed
  from the service and the other kind does not exist.
\<close>

section \<open>Calls outside the repository\<close>

record 'w np_client =
  nGetWorkload :: "WorkloadKind \<Rightarrow> string \<Rightarrow> string \<Rightarrow> 'w \<Rightarrow> Workload res \<times> 'w"
  nDeleteWorkload :: "Workload \<Rightarrow> 'w \<Rightarrow> unit res \<times> 'w"
  nUpdateWorkload :: "Workload \<Rightarrow> 'w \<Rightarrow> Workload res \<times> 'w"
  nCreateWorkload :: "Workload \<Rightarrow> 'w \<Rightarrow> Workload res \<times> 'w"
  nUpdateNode :: "Node \<Rightarrow> 'w \<Rightarrow> Node res \<times> 'w"
  nGetConfigMap :: "string \<Rightarrow> string \<Rightarrow> 'w \<Rightarrow> (string, string) gomap option res \<times> 'w"
  nListPods :: "string \<Rightarrow> (string, string) gomap \<Rightarrow> string \<Rightarrow> 'w \<Rightarrow> Pod list res \<times> 'w"

section \<open>Names\<close>

definition HasPrefix :: "string \<Rightarrow> string \<Rightarrow> bool" where
  "HasPrefix s p = (take (length p) s = p)"

definition isProxyResc :: "'w client \<Rightarrow> ObjectMeta \<Rightarrow> bool" where
  "isProxyResc C obj \<longleftrightarrow> m_namespace obj = EnvNamespace C \<and> HasPrefix (m_name obj) NodeProxyWorkloadPrefix"

definition proxyRescName :: "string \<Rightarrow> string \<Rightarrow> string" where
  "proxyRescName svcName svcNs = NodeProxyWorkloadPrefix @ svcName @ NameSeparator @ svcNs"

text \<open>A slice expression \<open>s[a:b]\<close> panics unless \<open>a \<le> b \<le> len(s)\<close>.\<close>

definition slice_string :: "string \<Rightarrow> int \<Rightarrow> int \<Rightarrow> string res" where
  "slice_string s a b =
     (if 0 \<le> a \<and> a \<le> b \<and> b \<le> int (length s) then Ok (take (nat (b - a)) (drop (nat a) s))
      else Panic ''slice bounds out of range'')"

definition svcName :: "string \<Rightarrow> string \<Rightarrow> string res" where
  "svcName rescName svcNs =
     slice_string rescName (int (length NodeProxyWorkloadPrefix))
       (int (length rescName) - int (length svcNs) - int (length NameSeparator))"

definition IsOpenELBNPService :: "Service \<Rightarrow> bool" where
  "IsOpenELBNPService svc \<longleftrightarrow>
     HasOpenELBAnnotation (m_annotations (s_meta svc)) \<and> IsTypeLoadBalancer svc \<and>
     HasOpenELBNPAnnotation (m_annotations (s_meta svc))"

definition shouldReconcileDeDs :: "'w client \<Rightarrow> ObjectMeta \<Rightarrow> 'w \<Rightarrow> bool res \<times> 'w" where
  "shouldReconcileDeDs C e w =
     (if \<not> isProxyResc C e then (Ok False, w)
      else
        (case mget (nmap (m_annotations e)) NodeProxyTypeAnnotationKey of
           None \<Rightarrow> (Ok False, w)
         | Some ns \<Rightarrow>
             andThen (svcName (m_name e) ns, w) (\<lambda>name w.
               case cGetService C ns name w of
                 (Err err, w) \<Rightarrow> (Ok (\<not> IsNotFound err), w)
               | (Ok svc, w) \<Rightarrow> (Ok (IsOpenELBNPService svc), w)
               | (Panic p, w) \<Rightarrow> (Panic p, w))))"

section \<open>The workload of a service\<close>

definition newProxyRescAnno :: "Service \<Rightarrow> (string, string) gomap" where
  "newProxyRescAnno svc =
     [(OpenELBAnnotationKey, OpenELBAnnotationValue), (NodeProxyTypeAnnotationKey, m_namespace (s_meta svc))]"

definition newProxyRescOM :: "'w client \<Rightarrow> Service \<Rightarrow> ObjectMeta" where
  "newProxyRescOM C svc =
     zero_meta\<lparr>m_name := proxyRescName (m_name (s_meta svc)) (m_namespace (s_meta svc)),
       m_namespace := EnvNamespace C, m_annotations := Some (newProxyRescAnno svc)\<rparr>"

definition newProxyRescSel :: "Service \<Rightarrow> (string, string) gomap" where
  "newProxyRescSel svc = [(''name'', proxyRescName (m_name (s_meta svc)) (m_namespace (s_meta svc)))]"

definition getNPConfig :: "'w client \<Rightarrow> 'w np_client \<Rightarrow> 'w \<Rightarrow> (string, string) gomap option res \<times> 'w" where
  "getNPConfig C N w = nGetConfigMap N (EnvNamespace C) OpenELBImagesConfigMap w"

definition getForwardImage :: "'w client \<Rightarrow> 'w np_client \<Rightarrow> 'w \<Rightarrow> string res \<times> 'w" where
  "getForwardImage C N w =
     (case getNPConfig C N w of
        (Err e, w) \<Rightarrow> (Ok NodeProxyDefaultForwardImage, w)
      | (Panic p, w) \<Rightarrow> (Panic p, w)
      | (Ok data, w) \<Rightarrow>
          (case mget (nmap data) NodeProxyConfigMapForwardImage of
             None \<Rightarrow> (Ok NodeProxyDefaultForwardImage, w)
           | Some img \<Rightarrow> (Ok img, w)))"

definition getProxyImage :: "'w client \<Rightarrow> 'w np_client \<Rightarrow> 'w \<Rightarrow> string res \<times> 'w" where
  "getProxyImage C N w =
     (case getNPConfig C N w of
        (Err e, w) \<Rightarrow> (Ok NodeProxyDefaultProxyImage, w)
      | (Panic p, w) \<Rightarrow> (Panic p, w)
      | (Ok data, w) \<Rightarrow>
          (case mget (nmap data) NodeProxyConfigMapProxyImage of
             None \<Rightarrow> (Ok NodeProxyDefaultProxyImage, w)
           | Some img \<Rightarrow> (Ok img, w)))"

fun proxy_args :: "ServicePort list \<Rightarrow> string \<Rightarrow> string" where
  "proxy_args [] clusterIP = []"
| "proxy_args (port # ports) clusterIP =
     clusterIP @ EnvArgSplitter @ Itoa (sp_port port) @ EnvArgSplitter @ Itoa (sp_port port) @ EnvArgSplitter @
     ToLower (sp_protocol port) @ EnvArgSplitter @ proxy_args ports clusterIP"

definition newProxyCtnEnvArgs :: "ServicePort list \<Rightarrow> string \<Rightarrow> EnvVar list" where
  "newProxyCtnEnvArgs ports clusterIP = [\<lparr>ev_name = ''PROXY_ARGS'', ev_value = proxy_args ports clusterIP\<rparr>]"

definition newProxyCtnPorts :: "ServicePort list \<Rightarrow> ContainerPort list" where
  "newProxyCtnPorts ports =
     map (\<lambda>port. \<lparr>cp_containerPort = sp_port port, cp_hostPort = sp_port port, cp_name = sp_name port,
                  cp_protocol = sp_protocol port\<rparr>) ports"

definition newProxyCtn :: "'w client \<Rightarrow> 'w np_client \<Rightarrow> Service \<Rightarrow> 'w \<Rightarrow> Container res \<times> 'w" where
  "newProxyCtn C N svc w =
     andThen (getProxyImage C N w) (\<lambda>img w.
       (Ok \<lparr>c_name = proxyRescName (m_name (s_meta svc)) (m_namespace (s_meta svc)), c_image = img,
            c_ports = newProxyCtnPorts (s_ports svc), c_env = newProxyCtnEnvArgs (s_ports svc) (s_clusterIP svc),
            c_capabilities_add = [''NET_ADMIN''], c_privileged = None\<rparr>, w))"

definition newForwardCtn :: "'w client \<Rightarrow> 'w np_client \<Rightarrow> string \<Rightarrow> 'w \<Rightarrow> Container res \<times> 'w" where
  "newForwardCtn C N name w =
     andThen (getForwardImage C N w) (\<lambda>img w.
       (Ok \<lparr>c_name = name, c_image = img, c_ports = [], c_env = [], c_capabilities_add = [],
            c_privileged = Some True\<rparr>, w))"

definition newProxyPoTepl :: "'w client \<Rightarrow> 'w np_client \<Rightarrow> Service \<Rightarrow> 'w \<Rightarrow> PodTemplateSpec res \<times> 'w" where
  "newProxyPoTepl C N svc w =
     andThen (newProxyCtn C N svc w) (\<lambda>proxy w.
     andThen (newForwardCtn C N (m_name (s_meta svc)) w) (\<lambda>forward w.
       (Ok \<lparr>t_labels = [(''name'', proxyRescName (m_name (s_meta svc)) (m_namespace (s_meta svc)))],
            t_containers = [proxy], t_initContainers = [forward],
            t_required = [[\<lparr>req_key = LabelNodeProxyExcludeNode, req_operator = ''DoesNotExist''\<rparr>]],
            t_preferred = [(10, [\<lparr>req_key = LabelNodeProxyExternalIPPreffered, req_operator = ''Exists''\<rparr>])],
            t_tolerations = [\<lparr>tol_key = KubernetesMasterLabel, tol_operator = ''Exists'', tol_effect = ''NoSchedule''\<rparr>]\<rparr>, w)))"

definition newProxyDe :: "'w client \<Rightarrow> 'w np_client \<Rightarrow> Service \<Rightarrow> 'w \<Rightarrow> Workload res \<times> 'w" where
  "newProxyDe C N svc w =
     andThen (newProxyPoTepl C N svc w) (\<lambda>tepl w.
       (Ok \<lparr>wl_kind = Deployment, wl_meta = newProxyRescOM C svc, wl_matchLabels = newProxyRescSel svc,
            wl_template = tepl\<rparr>, w))"

definition newProxyDs :: "'w client \<Rightarrow> 'w np_client \<Rightarrow> Service \<Rightarrow> 'w \<Rightarrow> Workload res \<times> 'w" where
  "newProxyDs C N svc w =
     andThen (newProxyPoTepl C N svc w) (\<lambda>tepl w.
       (Ok \<lparr>wl_kind = DaemonSet, wl_meta = newProxyRescOM C svc, wl_matchLabels = newProxyRescSel svc,
            wl_template = tepl\<rparr>, w))"

text \<open>The value of the annotation that the switches of this file look at.\<close>

definition proxy_kind :: "Service \<Rightarrow> WorkloadKind option" where
  "proxy_kind svc =
     (let v = mget_str (m_annotations (s_meta svc)) NodeProxyTypeAnnotationKey in
      if v = NodeProxyTypeDeployment then Some Deployment
      else if v = NodeProxyTypeDaemonSet then Some DaemonSet else None)"

text \<open>The object is nil for another value.\<close>

definition newProxyResc :: "'w client \<Rightarrow> 'w np_client \<Rightarrow> Service \<Rightarrow> 'w \<Rightarrow> Workload option res \<times> 'w" where
  "newProxyResc C N svc w =
     (case proxy_kind svc of
        None \<Rightarrow> (Ok None, w)
      | Some Deployment \<Rightarrow> andThen (newProxyDe C N svc w) (\<lambda>x w. (Ok (Some x), w))
      | Some DaemonSet \<Rightarrow> andThen (newProxyDs C N svc w) (\<lambda>x w. (Ok (Some x), w)))"

section \<open>Reconciliation\<close>

text \<open>
  The loops over the nodes and their addresses. Of \<open>nodeWithExternalIP\<close> and \<open>nodeWithInternalIP\<close>
  only the keys are used afterwards.
\<close>

fun label_addresses ::
    "'w np_client \<Rightarrow> Node \<Rightarrow> NodeAddress list \<Rightarrow> (string, unit) gomap \<Rightarrow> (string, unit) gomap \<Rightarrow> 'w \<Rightarrow>
     ((string, unit) gomap \<times> (string, unit) gomap) res \<times> 'w" where
  "label_addresses N node [] ext intl w = (Ok (ext, intl), w)"
| "label_addresses N node (nodeAddr # nodeAddrs) ext intl w =
     andThen
       (if na_type nodeAddr = ''ExternalIP'' \<and>
           mget (nmap (m_labels (n_meta node))) LabelNodeProxyExternalIPPreffered = None then
          (case m_labels (n_meta node) of
             None \<Rightarrow> (Panic ''assignment to entry in nil map'', w)
           | Some labels \<Rightarrow>
               nUpdateNode N
                 (node\<lparr>n_meta := (n_meta node)\<lparr>m_labels :=
                    Some (mset_at LabelNodeProxyExternalIPPreffered [] labels)\<rparr>\<rparr>) w)
        else (Ok node, w))
       (\<lambda>node w.
         label_addresses N node nodeAddrs
           (if na_type nodeAddr = ''ExternalIP'' then mset_at (na_address nodeAddr) () ext else ext)
           (if na_type nodeAddr = ''InternalIP'' then mset_at (na_address nodeAddr) () intl else intl) w)"

fun label_nodes ::
    "'w np_client \<Rightarrow> Node list \<Rightarrow> (string, unit) gomap \<Rightarrow> (string, unit) gomap \<Rightarrow> 'w \<Rightarrow>
     ((string, unit) gomap \<times> (string, unit) gomap) res \<times> 'w" where
  "label_nodes N [] ext intl w = (Ok (ext, intl), w)"
| "label_nodes N (node # nodes) ext intl w =
     andThen (label_addresses N node (n_addresses node) ext intl w)
       (\<lambda>(ext, intl) w. label_nodes N nodes ext intl w)"

text \<open>Set the annotation to the sorted addresses, or delete it when there is none.\<close>

definition put_ips :: "string \<Rightarrow> string list \<Rightarrow> (string, string) gomap \<Rightarrow> (string, string) gomap" where
  "put_ips key ips annotations =
     (if length ips \<noteq> 0 then mset_at key (Join (insertion_sort bytes_less ips) IPSeparator) annotations
      else mdel key annotations)"

text \<open>The part that follows when the proxy exists.\<close>

definition expose_pods ::
    "'w client \<Rightarrow> 'w np_client \<Rightarrow> Service \<Rightarrow> (string, unit) gomap \<Rightarrow> (string, unit) gomap \<Rightarrow> 'w \<Rightarrow> unit res \<times> 'w" where
  "expose_pods C N svc ext intl w =
     (case nListPods N (EnvNamespace C) [(''name'', proxyRescName (m_name (s_meta svc)) (m_namespace (s_meta svc)))]
             ''Running'' w of
        (Panic p, w) \<Rightarrow> (Panic p, w)
      | (Err e, w) \<Rightarrow> (Err e, w)
      | (Ok pods, w) \<Rightarrow>
          if length pods = 0 then (Ok (), w)
          else
            (let hosts = map po_hostIP pods;
                 podInExternalIPNode = filter (\<lambda>h. mget ext h \<noteq> None) hosts;
                 podInInternalIPNode = filter (\<lambda>h. mget intl h \<noteq> None) hosts in
             case m_annotations (s_meta svc) of
               None \<Rightarrow>
                 if length podInExternalIPNode \<noteq> 0 \<or> length podInInternalIPNode \<noteq> 0
                 then (Panic ''assignment to entry in nil map'', w)
                 else andThen (cUpdateService C svc w) (\<lambda>_ w. (Ok (), w))
             | Some annotations \<Rightarrow>
                 andThen
                   (cUpdateService C
                      (svc\<lparr>s_meta := (s_meta svc)\<lparr>m_annotations :=
                         Some (put_ips NodeProxyInternalIPAnnotationKey podInInternalIPNode
                           (put_ips NodeProxyExternalIPAnnotationKey podInExternalIPNode annotations))\<rparr>\<rparr>) w)
                   (\<lambda>_ w. (Ok (), w))))"

definition other_kind :: "WorkloadKind \<Rightarrow> WorkloadKind" where
  "other_kind k = (case k of Deployment \<Rightarrow> DaemonSet | DaemonSet \<Rightarrow> Deployment)"

text \<open>Delete the workload of a kind if it exists.\<close>

definition remove_kind :: "'w np_client \<Rightarrow> WorkloadKind \<Rightarrow> string \<Rightarrow> string \<Rightarrow> 'w \<Rightarrow> unit res \<times> 'w" where
  "remove_kind N kind ns name w =
     (case nGetWorkload N kind ns name w of
        (Ok resc, w) \<Rightarrow> nDeleteWorkload N resc w
      | (Err e, w) \<Rightarrow> if IsNotFound e then (Ok (), w) else (Err e, w)
      | (Panic p, w) \<Rightarrow> (Panic p, w))"

text \<open>Update the workload of the requested kind and expose its pods, or create it.\<close>

definition ensure_kind ::
    "'w client \<Rightarrow> 'w np_client \<Rightarrow> Service \<Rightarrow> WorkloadKind \<Rightarrow> (string, unit) gomap \<Rightarrow> (string, unit) gomap \<Rightarrow> 'w \<Rightarrow>
     unit res \<times> 'w" where
  "ensure_kind C N svc kind ext intl w =
     (case nGetWorkload N kind (EnvNamespace C) (proxyRescName (m_name (s_meta svc)) (m_namespace (s_meta svc))) w of
        (Panic p, w) \<Rightarrow> (Panic p, w)
      | (Ok _, w) \<Rightarrow>
          andThen (newProxyResc C N svc w) (\<lambda>resc w.
          andThen (case resc of None \<Rightarrow> (Panic ''nil object'', w) | Some x \<Rightarrow> nUpdateWorkload N x w) (\<lambda>_ w.
            expose_pods C N svc ext intl w))
      | (Err e, w) \<Rightarrow>
          if \<not> IsNotFound e then (Err e, w)
          else
            andThen (newProxyResc C N svc w) (\<lambda>resc w.
            andThen (case resc of None \<Rightarrow> (Panic ''nil object'', w) | Some x \<Rightarrow> nCreateWorkload N x w) (\<lambda>_ w.
              (Ok (), w))))"

definition reconcileNPNormal :: "'w client \<Rightarrow> 'w np_client \<Rightarrow> Service \<Rightarrow> 'w \<Rightarrow> unit res \<times> 'w" where
  "reconcileNPNormal C N svc w =
     andThen
       (if \<not> ContainsString (m_finalizers (s_meta svc)) NodeProxyFinalizerName
        then cUpdateService C (svc\<lparr>s_meta := AddFinalizer NodeProxyFinalizerName (s_meta svc)\<rparr>) w
        else (Ok svc, w))
       (\<lambda>svc w.
     andThen (cListNodes C w) (\<lambda>nodes w.
     andThen (label_nodes N nodes [] [] w) (\<lambda>(ext, intl) w.
       case proxy_kind svc of
         None \<Rightarrow> (Ok (), w)
       | Some kind \<Rightarrow>
           andThen
             (remove_kind N (other_kind kind) (EnvNamespace C)
                (proxyRescName (m_name (s_meta svc)) (m_namespace (s_meta svc))) w)
             (\<lambda>_ w. ensure_kind C N svc kind ext intl w))))"

definition reconcileNPDelete :: "'w client \<Rightarrow> 'w np_client \<Rightarrow> Service \<Rightarrow> 'w \<Rightarrow> unit res \<times> 'w" where
  "reconcileNPDelete C N svc w =
     (if ContainsString (m_finalizers (s_meta svc)) NodeProxyFinalizerName then
        (case proxy_kind svc of
           None \<Rightarrow> (Ok (), w)
         | Some kind \<Rightarrow>
             (case nGetWorkload N kind (EnvNamespace C)
                     (proxyRescName (m_name (s_meta svc)) (m_namespace (s_meta svc))) w of
                (Panic p, w) \<Rightarrow> (Panic p, w)
              | (Err e, w) \<Rightarrow> if IsNotFound e then (Ok (), w) else (Err e, w)
              | (Ok resc, w) \<Rightarrow>
                  andThen (nDeleteWorkload N resc w) (\<lambda>_ w.
                  andThen (cUpdateService C (svc\<lparr>s_meta := RemoveFinalizer NodeProxyFinalizerName (s_meta svc)\<rparr>) w)
                    (\<lambda>_ w. (Ok (), w)))))
      else (Ok (), w))"

definition reconcileNP :: "'w client \<Rightarrow> 'w np_client \<Rightarrow> Service \<Rightarrow> 'w \<Rightarrow> unit res \<times> 'w" where
  "reconcileNP C N svc w =
     (if IsZero (m_deletionTimestamp (s_meta svc)) then reconcileNPNormal C N svc w
      else reconcileNPDelete C N svc w)"

section \<open>Names are unambiguous within a namespace\<close>

text \<open>
  The name of the proxy of a service gives back the name of the service when its namespace is
  known, as the watch on deployments and daemon sets needs.
\<close>

theorem svcName_proxyRescName: "svcName (proxyRescName n ns) ns = Ok n"
  by (simp add: svcName_def proxyRescName_def slice_string_def)

section \<open>The workloads while the controller is their only writer\<close>

abbreviation wl_key :: "Workload \<Rightarrow> string \<times> string" where
  "wl_key x \<equiv> (m_namespace (wl_meta x), m_name (wl_meta x))"

definition workload_store ::
    "'w client \<Rightarrow> 'w np_client \<Rightarrow> ('w \<Rightarrow> WorkloadKind \<times> string \<times> string \<Rightarrow> Workload option) \<Rightarrow>
     ('w \<Rightarrow> string \<times> string \<Rightarrow> Service option) \<Rightarrow> bool" where
  "workload_store C N P U \<longleftrightarrow>
     (\<forall>k ns n w r w'. nGetWorkload N k ns n w = (r, w') \<longrightarrow> P w' = P w \<and> U w' = U w \<and>
        (\<forall>x. r = Ok x \<longrightarrow> P w (k, ns, n) = Some x \<and> wl_kind x = k \<and> wl_key x = (ns, n)) \<and>
        (\<forall>e. r = Err e \<and> IsNotFound e \<longrightarrow> P w (k, ns, n) = None)) \<and>
     (\<forall>x w r w'. nDeleteWorkload N x w = (r, w') \<longrightarrow> U w' = U w \<and>
        (r = Ok () \<longrightarrow> P w' = (P w)((wl_kind x, wl_key x) := None))) \<and>
     (\<forall>x w y w'. nUpdateWorkload N x w = (Ok y, w') \<or> nCreateWorkload N x w = (Ok y, w') \<longrightarrow>
        P w' = (P w)((wl_kind x, wl_key x) \<mapsto> y) \<and> wl_matchLabels y = wl_matchLabels x \<and>
        wl_template y = wl_template x \<and> m_annotations (wl_meta y) = m_annotations (wl_meta x)) \<and>
     (\<forall>node w. P (snd (nUpdateNode N node w)) = P w) \<and>
     (\<forall>ns n w. P (snd (nGetConfigMap N ns n w)) = P w) \<and>
     (\<forall>ns l p w. P (snd (nListPods N ns l p w)) = P w) \<and>
     (\<forall>s w. P (snd (cUpdateService C s w)) = P w) \<and> (\<forall>w. P (snd (cListNodes C w)) = P w)"

lemma workload_get:
  assumes "workload_store C N P U" and "nGetWorkload N k ns n w = (r, w')"
  shows "P w' = P w" and "U w' = U w"
    and "r = Ok x \<Longrightarrow> P w (k, ns, n) = Some x \<and> wl_kind x = k \<and> wl_key x = (ns, n)"
    and "r = Err e \<Longrightarrow> IsNotFound e \<Longrightarrow> P w (k, ns, n) = None"
proof -
  note law = assms(1) [unfolded workload_store_def, THEN conjunct1, rule_format, OF assms(2)]
  show "P w' = P w" "U w' = U w" using law by blast+
  show "P w (k, ns, n) = Some x \<and> wl_kind x = k \<and> wl_key x = (ns, n)" if "r = Ok x" using law that by blast
  show "P w (k, ns, n) = None" if "r = Err e" "IsNotFound e" using law that by blast
qed

lemma workload_delete:
  assumes "workload_store C N P U" and "nDeleteWorkload N x w = (r, w')"
  shows "U w' = U w" and "r = Ok () \<Longrightarrow> P w' = (P w)((wl_kind x, wl_key x) := None)"
  using assms(1) [unfolded workload_store_def, THEN conjunct2, THEN conjunct1, rule_format, OF assms(2)] by simp_all

lemma workload_put:
  assumes "workload_store C N P U" and "nUpdateWorkload N x w = (Ok y, w') \<or> nCreateWorkload N x w = (Ok y, w')"
  shows "P w' = (P w)((wl_kind x, wl_key x) \<mapsto> y)" and "wl_matchLabels y = wl_matchLabels x"
    and "wl_template y = wl_template x" and "m_annotations (wl_meta y) = m_annotations (wl_meta x)"
  using assms(1) [unfolded workload_store_def, THEN conjunct2, THEN conjunct2, THEN conjunct1, rule_format, OF assms(2)]
  by simp_all

lemma workload_apart:
  assumes "workload_store C N P U"
  shows "nUpdateNode N node w = (r1, w') \<Longrightarrow> P w' = P w" and "nGetConfigMap N ns n w = (r2, w') \<Longrightarrow> P w' = P w"
    and "nListPods N ns l p w = (r3, w') \<Longrightarrow> P w' = P w" and "cUpdateService C s w = (r4, w') \<Longrightarrow> P w' = P w"
    and "cListNodes C w = (r5, w') \<Longrightarrow> P w' = P w"
proof -
  note rest = assms [unfolded workload_store_def, THEN conjunct2, THEN conjunct2, THEN conjunct2]
  show "nUpdateNode N node w = (r1, w') \<Longrightarrow> P w' = P w" "nGetConfigMap N ns n w = (r2, w') \<Longrightarrow> P w' = P w"
    "nListPods N ns l p w = (r3, w') \<Longrightarrow> P w' = P w" "cUpdateService C s w = (r4, w') \<Longrightarrow> P w' = P w"
    "cListNodes C w = (r5, w') \<Longrightarrow> P w' = P w"
    using rest by (metis snd_conv)+
qed

lemma newProxyResc_Ok:
  assumes "workload_store C N P U" and "newProxyResc C N svc w = (Ok r, w')" and "proxy_kind svc = Some k"
  shows "P w' = P w"
    and "\<exists>x. r = Some x \<and> wl_kind x = k \<and> wl_meta x = newProxyRescOM C svc \<and>
      wl_matchLabels x = newProxyRescSel svc \<and> t_labels (wl_template x) = newProxyRescSel svc"
proof -
  have cfg: "P v' = P v" if "getNPConfig C N v = (r', v')" for v r' v'
    using workload_apart(2) [OF assms(1)] that by (simp add: getNPConfig_def)
  have img: "P v' = P v" if "getProxyImage C N v = (Ok i, v') \<or> getForwardImage C N v = (Ok i, v')" for v i v'
    using that cfg
    by (cases "getNPConfig C N v"; cases "fst (getNPConfig C N v)")
      (auto simp: getProxyImage_def getForwardImage_def split: option.splits)
  have tepl: "P v' = P v \<and> t_labels t = newProxyRescSel svc" if "newProxyPoTepl C N svc v = (Ok t, v')" for v t v'
    using that img by (fastforce simp: newProxyPoTepl_def newProxyCtn_def newForwardCtn_def newProxyRescSel_def res_simps)
  have "P w' = P w \<and> (\<exists>x. r = Some x \<and> wl_kind x = k \<and> wl_meta x = newProxyRescOM C svc \<and>
      wl_matchLabels x = newProxyRescSel svc \<and> t_labels (wl_template x) = newProxyRescSel svc)"
    using assms(2,3) tepl
    by (cases k) (fastforce simp: newProxyResc_def newProxyDe_def newProxyDs_def res_simps)+
  then show "P w' = P w" "\<exists>x. r = Some x \<and> wl_kind x = k \<and> wl_meta x = newProxyRescOM C svc \<and>
      wl_matchLabels x = newProxyRescSel svc \<and> t_labels (wl_template x) = newProxyRescSel svc" by simp_all
qed

lemma label_addresses_apart:
  assumes "workload_store C N P U" and "label_addresses N node as ext intl w = (r, w')"
  shows "P w' = P w"
  using assms(2)
proof (induction as arbitrary: node ext intl w)
  case (Cons a as)
  let ?new = "na_type a = ''ExternalIP'' \<and> mget (nmap (m_labels (n_meta node))) LabelNodeProxyExternalIPPreffered = None"
  show ?case
  proof (cases ?new)
    case False
    then show ?thesis using Cons by auto
  next
    case True
    show ?thesis
    proof (cases "m_labels (n_meta node)")
      case None
      then show ?thesis using True Cons.prems by simp
    next
      case (Some l)
      let ?node = "node\<lparr>n_meta := (n_meta node)\<lparr>m_labels := Some (mset_at LabelNodeProxyExternalIPPreffered [] l)\<rparr>\<rparr>"
      obtain r1 w1 where u: "nUpdateNode N ?node w = (r1, w1)" by force
      have "P w1 = P w" by (rule workload_apart(1) [OF assms(1) u])
      then show ?thesis using True Some Cons u by (cases r1) auto
    qed
  qed
qed simp

lemma label_nodes_apart:
  assumes "workload_store C N P U" and "label_nodes N nodes ext intl w = (r, w')"
  shows "P w' = P w"
  using assms(2)
proof (induction nodes arbitrary: ext intl w)
  case (Cons node nodes)
  obtain r1 w1 where l: "label_addresses N node (n_addresses node) ext intl w = (r1, w1)" by force
  have "P w1 = P w" by (rule label_addresses_apart [OF assms(1) l])
  then show ?case using Cons l by (cases r1) (auto split: prod.splits)
qed simp

lemma expose_pods_apart:
  assumes "workload_store C N P U" and "expose_pods C N svc ext intl w = (Ok (), w')"
  shows "P w' = P w"
proof -
  let ?l = "nListPods N (EnvNamespace C) [(''name'', proxyRescName (m_name (s_meta svc)) (m_namespace (s_meta svc)))] ''Running'' w"
  obtain pods w1 where l: "?l = (Ok pods, w1)"
    using assms(2) by (cases ?l; cases "fst ?l") (simp_all add: expose_pods_def)
  have "P w1 = P w" by (rule workload_apart(3) [OF assms(1) l])
  then show ?thesis
    using assms(2) l workload_apart(4) [OF assms(1)]
    by (auto simp: expose_pods_def Let_def res_simps split: if_splits option.splits)
qed

lemma remove_kind_Ok:
  assumes "workload_store C N P U" and "remove_kind N k ns n w = (Ok (), w')"
  shows "P w' = (P w)((k, ns, n) := None)"
proof -
  obtain r w1 where g: "nGetWorkload N k ns n w = (r, w1)" by force
  note get = workload_get [OF assms(1) g]
  show ?thesis
  proof (cases r)
    case (Ok x)
    then have "nDeleteWorkload N x w1 = (Ok (), w')" using assms(2) g by (simp add: remove_kind_def)
    from workload_delete(2) [OF assms(1) this] show ?thesis using get(1) get(3) [OF Ok] by simp
  next
    case (Err e)
    then have "IsNotFound e" "w' = w1" using assms(2) g by (auto simp: remove_kind_def split: if_splits)
    then show ?thesis using get(1) get(4) [OF Err] by auto
  qed (use assms(2) g in \<open>simp add: remove_kind_def\<close>)
qed

abbreviation proxy_key :: "'w client \<Rightarrow> Service \<Rightarrow> string \<times> string" where
  "proxy_key C svc \<equiv> (EnvNamespace C, proxyRescName (m_name (s_meta svc)) (m_namespace (s_meta svc)))"

lemma put_proxy_Ok:
  assumes "workload_store C N P U" and "newProxyResc C N svc w = (Ok r, w1)" and "proxy_kind svc = Some k"
    and "(case r of None \<Rightarrow> (Panic ''nil object'', w1) | Some x \<Rightarrow> put x w1) = (Ok y, w')"
    and "put = nUpdateWorkload N \<or> put = nCreateWorkload N"
  shows "P w' = (P w)((k, proxy_key C svc) \<mapsto> y)"
    and "wl_matchLabels y = newProxyRescSel svc" and "t_labels (wl_template y) = newProxyRescSel svc"
proof -
  note np = newProxyResc_Ok [OF assms(1-3)]
  then obtain x where x: "r = Some x" "wl_kind x = k" "wl_meta x = newProxyRescOM C svc"
    "wl_matchLabels x = newProxyRescSel svc" "t_labels (wl_template x) = newProxyRescSel svc" by auto
  have "nUpdateWorkload N x w1 = (Ok y, w') \<or> nCreateWorkload N x w1 = (Ok y, w')" using assms(4,5) x(1) by auto
  note p = workload_put [OF assms(1) this]
  have "wl_key x = proxy_key C svc" by (simp add: x(3) newProxyRescOM_def)
  then show "P w' = (P w)((k, proxy_key C svc) \<mapsto> y)" using p(1) np(1) x(2) by simp
  show "wl_matchLabels y = newProxyRescSel svc" "t_labels (wl_template y) = newProxyRescSel svc"
    using p(2,3) x(4,5) by simp_all
qed

lemma ensure_kind_Ok:
  assumes "workload_store C N P U" and "ensure_kind C N svc k ext intl w = (Ok (), w')" and "proxy_kind svc = Some k"
  shows "\<exists>y. P w' = (P w)((k, proxy_key C svc) \<mapsto> y) \<and> wl_matchLabels y = newProxyRescSel svc \<and>
    t_labels (wl_template y) = newProxyRescSel svc"
proof -
  let ?g = "nGetWorkload N k (EnvNamespace C) (proxyRescName (m_name (s_meta svc)) (m_namespace (s_meta svc))) w"
  obtain r w1 where g: "?g = (r, w1)" by force
  note get = workload_get(1) [OF assms(1) g]
  show ?thesis
  proof (cases r)
    case (Ok x)
    then obtain o2 w2 y w3 where n: "newProxyResc C N svc w1 = (Ok o2, w2)"
      and u: "(case o2 of None \<Rightarrow> (Panic ''nil object'', w2) | Some x \<Rightarrow> nUpdateWorkload N x w2) = (Ok y, w3)"
      and e: "expose_pods C N svc ext intl w3 = (Ok (), w')"
      using assms(2) g by (auto simp: ensure_kind_def res_simps)
    show ?thesis
      using put_proxy_Ok [where put = "nUpdateWorkload N", OF assms(1) n assms(3) u] expose_pods_apart [OF assms(1) e] get by auto
  next
    case (Err x)
    then obtain o2 w2 y where n: "newProxyResc C N svc w1 = (Ok o2, w2)"
      and u: "(case o2 of None \<Rightarrow> (Panic ''nil object'', w2) | Some x \<Rightarrow> nCreateWorkload N x w2) = (Ok y, w')"
      using assms(2) g by (auto simp: ensure_kind_def res_simps split: if_splits)
    show ?thesis using put_proxy_Ok [where put = "nCreateWorkload N", OF assms(1) n assms(3) u] get by auto
  qed (use assms(2) g in \<open>simp add: ensure_kind_def\<close>)
qed

section \<open>One proxy per service\<close>

text \<open>
  (C28) A successful reconciliation of a service that asks for a deployment or a daemon set leaves
  exactly that workload for the service: it exists, its selector selects the labels of its own pods,
  the workload of the other kind does not exist, and no other workload is touched.
\<close>

theorem reconcileNPNormal_proxy:
  assumes "workload_store C N P U" and "service_store C U" and "proxy_kind svc = Some k"
    and "reconcileNPNormal C N svc w = (Ok (), w')"
  shows "\<exists>y. P w' = (P w)((other_kind k, proxy_key C svc) := None, (k, proxy_key C svc) \<mapsto> y) \<and>
    wl_matchLabels y = t_labels (wl_template y) \<and> P w' (other_kind k, proxy_key C svc) = None"
proof -
  let ?f = "if \<not> ContainsString (m_finalizers (s_meta svc)) NodeProxyFinalizerName
        then cUpdateService C (svc\<lparr>s_meta := AddFinalizer NodeProxyFinalizerName (s_meta svc)\<rparr>) w else (Ok svc, w)"
  obtain svc1 w1 nodes w2 ext intl w3 where f: "?f = (Ok svc1, w1)" and nd: "cListNodes C w1 = (Ok nodes, w2)"
    and lb: "label_nodes N nodes [] [] w2 = (Ok (ext, intl), w3)"
    and rest: "(case proxy_kind svc1 of None \<Rightarrow> (Ok (), w3)
       | Some kind \<Rightarrow> andThen (remove_kind N (other_kind kind) (EnvNamespace C)
                (proxyRescName (m_name (s_meta svc1)) (m_namespace (s_meta svc1))) w3)
             (\<lambda>_ w. ensure_kind C N svc1 kind ext intl w)) = (Ok (), w')"
    using assms(4) by (auto simp: reconcileNPNormal_def res_simps)
  have s1: "svc_key svc1 = svc_key svc \<and> m_annotations (s_meta svc1) = m_annotations (s_meta svc) \<and> P w1 = P w"
  proof (cases "ContainsString (m_finalizers (s_meta svc)) NodeProxyFinalizerName")
    case False
    then have u: "cUpdateService C (svc\<lparr>s_meta := AddFinalizer NodeProxyFinalizerName (s_meta svc)\<rparr>) w = (Ok svc1, w1)"
      using f by simp
    show ?thesis using service_store_update(2,5) [OF assms(2) u] workload_apart(4) [OF assms(1) u] by simp
  qed (use f in simp)
  have k: "proxy_kind svc1 = Some k" using assms(3) s1 by (simp add: proxy_kind_def)
  have w3: "P w3 = P w" using label_nodes_apart [OF assms(1) lb] workload_apart(5) [OF assms(1) nd] s1 by simp
  obtain w4 where r: "remove_kind N (other_kind k) (EnvNamespace C)
      (proxyRescName (m_name (s_meta svc)) (m_namespace (s_meta svc))) w3 = (Ok (), w4)"
    and e: "ensure_kind C N svc1 k ext intl w4 = (Ok (), w')"
    using rest k s1 by (auto simp: res_simps)
  have "other_kind k \<noteq> k" by (cases k) (simp_all add: other_kind_def)
  then show ?thesis
    using ensure_kind_Ok [OF assms(1) e k] remove_kind_Ok [OF assms(1) r] w3 s1 by auto
qed

text \<open>The calls on the server in memory.\<close>

definition is_workload :: "WorkloadKind \<Rightarrow> string \<Rightarrow> string \<Rightarrow> Workload \<Rightarrow> bool" where
  "is_workload k ns n x \<longleftrightarrow> wl_kind x = k \<and> m_namespace (wl_meta x) = ns \<and> m_name (wl_meta x) = n"

definition mem_np :: "mem np_client" where
  "mem_np = \<lparr>
     nGetWorkload = \<lambda>k ns n w. (find_obj ''workload'' (is_workload k ns n) (mWorkloads w), w),
     nDeleteWorkload = \<lambda>x w.
       (Ok (), w\<lparr>mWorkloads := filter (\<lambda>y. \<not> is_workload (wl_kind x) (fst (wl_key x)) (snd (wl_key x)) y) (mWorkloads w)\<rparr>),
     nUpdateWorkload = \<lambda>x w.
       (Ok x, w\<lparr>mWorkloads := x # filter (\<lambda>y. \<not> is_workload (wl_kind x) (fst (wl_key x)) (snd (wl_key x)) y) (mWorkloads w)\<rparr>),
     nCreateWorkload = \<lambda>x w.
       if list_ex (is_workload (wl_kind x) (fst (wl_key x)) (snd (wl_key x))) (mWorkloads w)
       then (Err (ApiError ''already exists''), w) else (Ok x, w\<lparr>mWorkloads := x # mWorkloads w\<rparr>),
     nUpdateNode = \<lambda>node w.
       (Ok node, w\<lparr>mNodes := replace_first (\<lambda>n. m_name (n_meta n) = m_name (n_meta node)) node (mNodes w)\<rparr>),
     nGetConfigMap = \<lambda>ns n w.
       (case find (\<lambda>(m, d). m_namespace m = ns \<and> m_name m = n) (mConfigMaps w) of
          None \<Rightarrow> (Err (NotFound ''configmap not found''), w) | Some (m, d) \<Rightarrow> (Ok d, w)),
     nListPods = \<lambda>ns ls phase w.
       (Ok (filter (\<lambda>p. m_namespace (po_meta p) = ns \<and> po_phase p = phase \<and>
              list_all (\<lambda>(k, v). mget (nmap (m_labels (po_meta p))) k = Some v) ls) (mPods w)), w) \<rparr>"

definition mem_workload :: "mem \<Rightarrow> WorkloadKind \<times> string \<times> string \<Rightarrow> Workload option" where
  "mem_workload w = (\<lambda>(k, ns, n). find (is_workload k ns n) (mWorkloads w))"

lemma find_filter_workload:
  "find (is_workload k ns n) (filter (\<lambda>y. \<not> is_workload k' ns' n' y) xs) =
     (if (k, ns, n) = (k', ns', n') then None else find (is_workload k ns n) xs)"
proof -
  have w: "is_workload k ns n = (\<lambda>x. (wl_kind x, wl_key x) = (k, ns, n))" for k ns n
    by (auto simp: is_workload_def)
  show ?thesis unfolding w by (rule find_filter_key [of "\<lambda>x. (wl_kind x, wl_key x)"])
qed

lemma find_workload_Cons:
  "find (is_workload k ns n) (x # xs) =
     (if (k, ns, n) = (wl_kind x, wl_key x) then Some x else find (is_workload k ns n) xs)"
  by (auto simp: is_workload_def)

lemma mem_workload_store: "workload_store mem_client mem_np mem_workload mem_service"
  unfolding workload_store_def
proof (intro conjI allI impI)
  fix k ns n w r w'
  assume g: "nGetWorkload mem_np k ns n w = (r, w')"
  then show "mem_workload w' = mem_workload w" "mem_service w' = mem_service w" by (simp_all add: mem_np_def)
  show "mem_workload w (k, ns, n) = Some x" "wl_kind x = k" "wl_key x = (ns, n)" if "r = Ok x" for x
    using g that by (auto simp: mem_np_def mem_workload_def find_obj_Ok is_workload_def dest: find_Some_P)
  show "mem_workload w (k, ns, n) = None" if "r = Err e \<and> IsNotFound e" for e
    using g that by (auto simp: mem_np_def mem_workload_def dest: find_obj_NotFound)
next
  fix x w r w'
  assume d: "nDeleteWorkload mem_np x w = (r, w')"
  then show "mem_service w' = mem_service w" by (auto simp: mem_np_def mem_service_def)
  show "mem_workload w' = (mem_workload w)((wl_kind x, wl_key x) := None)"
    using d by (auto simp: mem_np_def mem_workload_def fun_eq_iff find_filter_workload)
next
  fix x w y w'
  assume "nUpdateWorkload mem_np x w = (Ok y, w') \<or> nCreateWorkload mem_np x w = (Ok y, w')"
  then show "mem_workload w' = (mem_workload w)((wl_kind x, wl_key x) \<mapsto> y)" "wl_matchLabels y = wl_matchLabels x"
    "wl_template y = wl_template x" "m_annotations (wl_meta y) = m_annotations (wl_meta x)"
    by (auto simp: mem_np_def mem_workload_def fun_eq_iff find_filter_workload find_workload_Cons
        simp del: find.simps split: if_splits)
qed (auto simp: mem_np_def mem_workload_def mem_put_service_def Let_def split: option.splits prod.splits)

definition sample_np :: Service where
  "sample_np = \<lparr>s_meta = zero_meta\<lparr>m_name := ''web'', m_namespace := ''ns'',
       m_annotations := Some [(OpenELBAnnotationKey, OpenELBAnnotationValue), (NodeProxyTypeAnnotationKey, NodeProxyTypeDeployment)]\<rparr>,
     s_type = ServiceTypeLoadBalancer, s_loadBalancerIP = [], s_ipFamilies = [''IPv4''],
     s_externalTrafficPolicy = ''Cluster'', s_clusterIP = ''10.96.0.7'',
     s_ports = [\<lparr>sp_name = ''http'', sp_protocol = ''TCP'', sp_port = 80\<rparr>], s_ingress = None\<rparr>"

text \<open>A world with the service and a daemon set left over from an earlier annotation.\<close>

definition sample_np_mem :: mem where
  "sample_np_mem =
     snd (newProxyDs mem_client mem_np sample_np empty_mem)
       \<lparr>mServices := [sample_np],
         mWorkloads := (case fst (newProxyDs mem_client mem_np sample_np empty_mem) of Ok x \<Rightarrow> [x] | _ \<Rightarrow> [])\<rparr>"

theorem reconcileNPNormal_proxy_witness:
  "\<exists>w' y. reconcileNPNormal mem_client mem_np sample_np sample_np_mem = (Ok (), w') \<and>
     mem_workload w' (Deployment, proxy_key mem_client sample_np) = Some y \<and>
     mem_workload w' (DaemonSet, proxy_key mem_client sample_np) = None"
proof -
  have "fst (reconcileNPNormal mem_client mem_np sample_np sample_np_mem) = Ok ()" by code_simp
  then obtain w' where run: "reconcileNPNormal mem_client mem_np sample_np sample_np_mem = (Ok (), w')"
    by (metis prod.collapse)
  have k: "proxy_kind sample_np = Some Deployment" by code_simp
  from reconcileNPNormal_proxy [OF mem_workload_store mem_service_store k run]
  show ?thesis using run by (auto simp: other_kind_def)
qed

section \<open>Deletion\<close>

text \<open>
  (C29) What a successful reconciliation of a service that is being deleted does, depending on
  whether its proxy still exists. If it does, the proxy is deleted and the finalizer is taken off
  the stored service. If it does not, nothing is written at all: the service keeps the finalizer,
  and every later reconciliation ends the same way, so the service is never deleted.
\<close>

theorem reconcileNPDelete_outcome:
  assumes "workload_store C N P U" and "service_store C U" and "proxy_kind svc = Some k"
    and "NodeProxyFinalizerName \<in> set (m_finalizers (s_meta svc))"
    and "reconcileNPDelete C N svc w = (Ok (), w')"
  shows "(case P w (k, proxy_key C svc) of
      None \<Rightarrow> U w' = U w \<and> P w' = P w
    | Some x \<Rightarrow> P w' = (P w)((k, proxy_key C svc) := None) \<and>
        (\<exists>s'. U w' = (U w)(svc_key svc := stored s_meta s') \<and>
          set (m_finalizers (s_meta s')) = set (m_finalizers (s_meta svc)) - {NodeProxyFinalizerName}))"
proof -
  let ?g = "nGetWorkload N k (EnvNamespace C) (proxyRescName (m_name (s_meta svc)) (m_namespace (s_meta svc))) w"
  obtain r w1 where g: "?g = (r, w1)" by force
  note get = workload_get [OF assms(1) g]
  show ?thesis
  proof (cases r)
    case (Ok x)
    then obtain w2 s' where d: "nDeleteWorkload N x w1 = (Ok (), w2)"
      and u: "cUpdateService C (svc\<lparr>s_meta := RemoveFinalizer NodeProxyFinalizerName (s_meta svc)\<rparr>) w2 = (Ok s', w')"
      using assms(3-5) g by (auto simp: reconcileNPDelete_def res_simps)
    have "P w' = (P w)((k, proxy_key C svc) := None)"
      using workload_apart(4) [OF assms(1) u] workload_delete(2) [OF assms(1) d] get(1) get(3) [OF Ok] by simp
    moreover have "U w' = (U w)(svc_key svc := stored s_meta s')"
      "set (m_finalizers (s_meta s')) = set (m_finalizers (s_meta svc)) - {NodeProxyFinalizerName}"
      using service_store_update(1,4) [OF assms(2) u] workload_delete(1) [OF assms(1) d] get(2) by simp_all
    ultimately show ?thesis using get(3) [OF Ok] by auto
  next
    case (Err e)
    then have "IsNotFound e" "w' = w1"
      using assms(3-5) g by (auto simp: reconcileNPDelete_def split: if_splits)
    then show ?thesis using get(1,2) get(4) [OF Err] by simp
  qed (use assms(3-5) g in \<open>simp add: reconcileNPDelete_def\<close>)
qed

definition sample_np_dying :: Service where
  "sample_np_dying = sample_np\<lparr>s_meta := (s_meta sample_np)\<lparr>m_finalizers := [NodeProxyFinalizerName],
     m_deletionTimestamp := Some 1\<rparr>\<rparr>"

theorem reconcileNPDelete_outcome_witness:
  "\<exists>w'. reconcileNPDelete mem_client mem_np sample_np_dying (empty_mem\<lparr>mServices := [sample_np_dying]\<rparr>) = (Ok (), w') \<and>
     mem_service w' (''ns'', ''web'') = Some sample_np_dying"
proof -
  let ?w = "empty_mem\<lparr>mServices := [sample_np_dying]\<rparr>"
  have "fst (reconcileNPDelete mem_client mem_np sample_np_dying ?w) = Ok ()" by code_simp
  then obtain w' where run: "reconcileNPDelete mem_client mem_np sample_np_dying ?w = (Ok (), w')"
    by (metis prod.collapse)
  have k: "proxy_kind sample_np_dying = Some Deployment"
    "NodeProxyFinalizerName \<in> set (m_finalizers (s_meta sample_np_dying))" by code_simp+
  have "mem_workload ?w (Deployment, proxy_key mem_client sample_np_dying) = None"
    by (simp add: mem_workload_def empty_mem_def)
  moreover have "mem_service ?w (''ns'', ''web'') = Some sample_np_dying"
    by (simp add: mem_service_def sample_np_dying_def sample_np_def)
  ultimately show ?thesis
    using reconcileNPDelete_outcome [OF mem_workload_store mem_service_store k run] run by simp
qed
end
