(* ===== verification/LBController.thy ===== *)
theory LBController
  imports EipController NodeProxy
begin

text \<open>
  The controller of the services: \<open>pkg/controllers/lb/controller.go\<close> and the event handlers of
  \<open>pkg/controllers/lb/eventhandler.go\<close>. It asks the address manager what a service needs, releases
  and assigns, and writes the result into the labels, the finalizers and the status of the service.

  \<open>holders\<close> of the stored EIPs is the abstract state: which service holds which address of which EIP. The
  theorems follow it, the service and the EIPs through whole reconciliations: a successful assignment ends with the address
  in the EIP and in the status of the service; a settled service is left alone; a service gives up
  its address before it can disappear.
\<close>

section \<open>Definitions\<close>

definition IsOpenELBService :: "Service \<Rightarrow> bool" where
  "IsOpenELBService svc =
     (if mget (nmap (m_labels (s_meta svc))) OpenELBEIPAnnotationKeyV1Alpha2 \<noteq> None then True
      else HasOpenELBAnnotation (m_annotations (s_meta svc)) \<and> IsTypeLoadBalancer svc)"

text \<open>The event filters of \<open>SetupWithManager\<close>, one per watched kind.\<close>

definition lb_eip_update_event :: "Eip \<Rightarrow> Eip \<Rightarrow> bool" where
  "lb_eip_update_event oldEip newEip \<longleftrightarrow>
     DeepEqual_status (e_status oldEip) zero_EipStatus \<and> \<not> DeepEqual_status (e_status newEip) zero_EipStatus"

fun internal_external_loop :: "NodeAddress list \<Rightarrow> string \<times> string \<Rightarrow> string \<times> string" where
  "internal_external_loop [] r = r"
| "internal_external_loop (addr # as) (externalIP, internalIP) =
     internal_external_loop as
       (if na_type addr = ''ExternalIP'' then na_address addr else externalIP,
        if na_type addr = ''InternalIP'' then na_address addr else internalIP)"

definition nodeInternalAndExternalIP :: "Node \<Rightarrow> string \<times> string" where
  "nodeInternalAndExternalIP node = internal_external_loop (n_addresses node) ([], [])"

definition nodeAddrChange :: "Node \<Rightarrow> Node \<Rightarrow> bool" where
  "nodeAddrChange oldObj newObj =
     (let (oldExternalIP, oldInternalIP) = nodeInternalAndExternalIP oldObj;
          (newExternalIP, newInternalIP) = nodeInternalAndExternalIP newObj in
      oldExternalIP \<noteq> newExternalIP \<or> oldInternalIP \<noteq> newInternalIP)"

definition lb_node_update_event :: "Node \<Rightarrow> Node \<Rightarrow> bool" where
  "lb_node_update_event old new =
     (if NodeReady old \<noteq> NodeReady new then True
      else if nodeAddrChange old new then True else False)"

text \<open>The services that an event of a node, an EIP or a proxy workload puts into the queue.\<close>

definition node_getServices :: "'w client \<Rightarrow> 'w \<Rightarrow> Service list \<times> 'w" where
  "node_getServices C w =
     (case cListServices C w of
        (Ok svcs, w) \<Rightarrow> (filter IsOpenELBService svcs, w)
      | (_, w) \<Rightarrow> ([], w))"

definition deds_getServices :: "'w client \<Rightarrow> 'w \<Rightarrow> Service list \<times> 'w" where
  "deds_getServices C w =
     (case cListServices C w of
        (Ok svcs, w) \<Rightarrow> (filter IsOpenELBNPService svcs, w)
      | (_, w) \<Rightarrow> ([], w))"

text \<open>\<open>q.Add\<close> for each of them; the work queue drops a request that is already waiting.\<close>

definition enqueue :: "(string \<times> string) list \<Rightarrow> Service \<Rightarrow> (string \<times> string) list" where
  "enqueue q svc = (if svc_key svc \<in> set q then q else q @ [svc_key svc])"

definition node_handle :: "'w client \<Rightarrow> (string \<times> string) list \<Rightarrow> 'w \<Rightarrow> (string \<times> string) list \<times> 'w" where
  "node_handle C q w = (let (svcs, w) = node_getServices C w in (foldl enqueue q svcs, w))"

definition deds_handle :: "'w client \<Rightarrow> (string \<times> string) list \<Rightarrow> 'w \<Rightarrow> (string \<times> string) list \<times> 'w" where
  "deds_handle C q w = (let (svcs, w) = deds_getServices C w in (foldl enqueue q svcs, w))"

definition deds_update_event :: "'w client \<Rightarrow> ObjectMeta \<Rightarrow> ObjectMeta \<Rightarrow> 'w \<Rightarrow> bool res \<times> 'w" where
  "deds_update_event C new old w =
     andThen (shouldReconcileDeDs C new w) (\<lambda>b w.
       if b then (Ok True, w) else shouldReconcileDeDs C old w)"

text \<open>\<open>updateReconcileResult\<close>: the object when the labels changed, then the status.\<close>

definition updateReconcileResult :: "'w client \<Rightarrow> Service \<Rightarrow> Service \<Rightarrow> 'w \<Rightarrow> unit res \<times> 'w" where
  "updateReconcileResult C svc resultSvc w =
     andThen
       (if \<not> DeepEqualMap (m_labels (s_meta svc)) (m_labels (s_meta resultSvc))
        then cUpdateService C resultSvc w else (Ok resultSvc, w))
       (\<lambda>clone w.
         if s_ingress svc \<noteq> s_ingress resultSvc then
           (case cUpdateServiceStatus C (clone\<lparr>s_ingress := s_ingress resultSvc\<rparr>) w of
              (Ok _, w) \<Rightarrow> (Ok (), w)
            | (Err e, w) \<Rightarrow> (Err e, cEvent C (svc_ref svc) EventTypeWarning ''UpdateServiceStatus'' (error_text e) w)
            | (Panic p, w) \<Rightarrow> (Panic p, w))
         else (Ok (), w))"

text \<open>The two updates of the copy of the service, after a release and after an assignment.\<close>

definition released :: "Service \<Rightarrow> Service" where
  "released clone =
     clone\<lparr>s_meta := (RemoveFinalizer FinalizerName (s_meta clone))\<lparr>m_labels :=
       mdel_opt OpenELBEIPAnnotationKeyV1Alpha2 (m_labels (s_meta clone))\<rparr>\<rparr>"

definition assigned :: "string \<Rightarrow> Service \<Rightarrow> Service" where
  "assigned eip clone =
     clone\<lparr>s_meta := (if \<not> ContainsString (m_finalizers (s_meta clone)) FinalizerName
         then AddFinalizer FinalizerName (s_meta clone) else s_meta clone)\<lparr>m_labels :=
       Some (mset_at OpenELBEIPAnnotationKeyV1Alpha2 eip (nmap (m_labels (s_meta clone))))\<rparr>\<rparr>"

text \<open>The step that releases, and the step that assigns; both pass on the copy and the new status.\<close>

definition lb_release ::
    "'w client \<Rightarrow> Service \<Rightarrow> svcRecord option \<Rightarrow> 'w \<Rightarrow> (Service \<times> LoadBalancerIngress list option) res \<times> 'w" where
  "lb_release C svc release w =
     (case release of
        None \<Rightarrow> (Ok (svc, s_ingress svc), w)
      | Some r \<Rightarrow>
          (case ReleaseIP C (Some r) w of
             (Panic p, w) \<Rightarrow> (Panic p, w)
           | (Err e, w) \<Rightarrow> (Err e, cEvent C (svc_ref svc) EventTypeWarning ''ReleaseIPFailed'' (error_text e) w)
           | (Ok _, w) \<Rightarrow>
               (Ok (released svc, Some []),
                cEvent C (svc_ref svc) EventTypeNormal ''ReleaseIP'' (''success to release ip: '' @ sr_IP r) w)))"

definition lb_assign ::
    "'w client \<Rightarrow> Service \<Rightarrow> svcRecord option \<Rightarrow> Service \<Rightarrow> LoadBalancerIngress list option \<Rightarrow> 'w \<Rightarrow>
     (Service \<times> LoadBalancerIngress list option) res \<times> 'w" where
  "lb_assign C svc allocate clone statusIPs w =
     (case allocate of
        None \<Rightarrow> (Ok (clone, statusIPs), w)
      | Some a \<Rightarrow>
          (case AssignIP C (s_ipFamilies svc) (Some a) w of
             (Panic p, w) \<Rightarrow> (Panic p, w)
           | (Err e, w) \<Rightarrow>
               (let w = cEvent C (svc_ref svc) EventTypeWarning ''AssignIPFailed'' (error_text e) w in
                case updateReconcileResult C svc (clone\<lparr>s_ingress := statusIPs\<rparr>) w of
                  (Panic p, w) \<Rightarrow> (Panic p, w)
                | (_, w) \<Rightarrow> (Err e, w))
           | (Ok a', w) \<Rightarrow>
               (let ip = (case a' of None \<Rightarrow> [] | Some x \<Rightarrow> sr_IP x) in
                (Ok (assigned (sr_Eip a) clone, Some [\<lparr>ing_IP = ip, ing_Hostname = []\<rparr>]),
                 cEvent C (svc_ref svc) EventTypeNormal ''AssignIP'' (''success to assign ip: '' @ ip) w))))"

definition LB_Reconcile :: "'w client \<Rightarrow> 'w np_client \<Rightarrow> string \<Rightarrow> string \<Rightarrow> 'w \<Rightarrow> unit res \<times> 'w" where
  "LB_Reconcile C N ns name w =
     (case cGetService C ns name w of
        (Err e, w) \<Rightarrow> if IsNotFound e then (Ok (), w) else (Err e, w)
      | (Panic p, w) \<Rightarrow> (Panic p, w)
      | (Ok svc, w) \<Rightarrow>
          if HasOpenELBNPAnnotation (m_annotations (s_meta svc)) then reconcileNP C N svc w
          else
            andThen (ConstructRequest C svc w) (\<lambda>request w.
              if Release request = None \<and> Allocate request = None then (Ok (), w)
              else
                andThen (lb_release C svc (Release request) w) (\<lambda>(clone, statusIPs) w.
                andThen (lb_assign C svc (Allocate request) clone statusIPs w) (\<lambda>(clone, statusIPs) w.
                  updateReconcileResult C svc (clone\<lparr>s_ingress := statusIPs\<rparr>) w))))"

lemma api_list:
  assumes "api_laws C V U" and "cListEips C w = (r, w')"
  shows "V w' = V w \<and> U w' = U w"
proof -
  have laws: "eip_store C V" "stores_apart C V U" using assms(1) by (simp_all add: api_laws_def)
  have "V w' = V w"
    using laws(1) [unfolded eip_store_def, THEN conjunct2, THEN conjunct1, rule_format, OF assms(2)] by simp
  then show ?thesis using apart_run(2) [OF laws(2) assms(2)] by simp
qed

lemma api_get:
  assumes "api_laws C V U" and "cGetEip C n w = (r, w')"
  shows "V w' = V w \<and> U w' = U w"
proof -
  have laws: "eip_store C V" "stores_apart C V U" using assms(1) by (simp_all add: api_laws_def)
  have "V w' = V w"
    using laws(1) [unfolded eip_store_def, THEN conjunct1, rule_format, OF assms(2)] by simp
  then show ?thesis using apart_run(1) [OF laws(2) assms(2)] by simp
qed

lemma api_namespace:
  assumes "api_laws C V U" and "cGetNamespace C n w = (r, w')"
  shows "V w' = V w \<and> U w' = U w"
  using apart_run(9,10) [OF _ assms(2)] assms(1) by (auto simp: api_laws_def)

lemma api_event:
  assumes "api_laws C V U"
  shows "V (cEvent C obj t rs msg w) = V w" "U (cEvent C obj t rs msg w) = U w"
  using stores_apartD(11,12) [of C V U] assms by (simp_all add: api_laws_def)

section \<open>What the steps leave alone\<close>

lemma getAllocatedEIPInfo_apart:
  assumes "api_laws C V U" and "getAllocatedEIPInfo C k w = (r, w')"
  shows "V w' = V w \<and> U w' = U w"
proof -
  obtain r1 w1 where l: "cListEips C w = (r1, w1)" by force
  then have "V w1 = V w \<and> U w1 = U w"
    using api_list [OF assms(1) l] by simp
  then show ?thesis using assms(2) l by (cases r1) (auto simp: getAllocatedEIPInfo_def)
qed

lemma getEIP_apart:
  assumes "api_laws C V U" and "getEIP C ns svcip spec w = (r, w')"
  shows "V w' = V w \<and> U w' = U w"
proof -
  have list: "V v' = V v \<and> U v' = U v" if "cListEips C v = (x, v')" for v x v' by (rule api_list [OF assms(1) that])
  have get: "V v' = V v \<and> U v' = U v" if "cGetEip C n v = (x, v')" for n v x v' by (rule api_get [OF assms(1) that])
  have ns: "V v' = V v \<and> U v' = U v" if "cGetNamespace C n v = (x, v')" for n v x v'
    by (rule api_namespace [OF assms(1) that])
  have dflt: "V v' = V v \<and> U v' = U v" if "getDefaultEIP C n v = (x, v')" for n v x v'
  proof -
    obtain r1 v1 where g: "cGetNamespace C n v = (r1, v1)" by force
    obtain r2 v2 where l: "cListEips C v1 = (r2, v2)" by force
    show ?thesis
      using that ns [OF g] list [OF l] g l
      by (cases r1; cases r2) (auto simp: getDefaultEIP_def andThen_def split: res.splits prod.splits option.splits if_splits)
  qed
  have based: "V v' = V v \<and> U v' = U v" if "getEIPBasedOnIP C n v = (x, v')" for n v x v'
  proof -
    obtain r2 v2 where l: "cListEips C v = (r2, v2)" by force
    show ?thesis using that list [OF l] l by (cases r2) (auto simp: getEIPBasedOnIP_def)
  qed
  obtain r1 w1 where g: "cGetEip C spec w = (r1, w1)" by force
  show ?thesis
    using assms(2) dflt based get [OF g] g
    by (cases r1) (auto simp: getEIP_def Let_def split: if_splits)
qed

lemma ConstructRequest_apart:
  assumes "api_laws C V U" and "ConstructRequest C svc w = (r, w')"
  shows "V w' = V w \<and> U w' = U w"
proof (cases "m_annotations (s_meta svc)")
  case None
  then show ?thesis using assms(2) by (simp add: ConstructRequest_def)
next
  case (Some ann)
  let ?key = "NamespacedName (m_namespace (s_meta svc)) (m_name (s_meta svc))"
  obtain r1 w1 where a: "getAllocatedEIPInfo C ?key w = (r1, w1)" by force
  note w1 = getAllocatedEIPInfo_apart [OF assms(1) a]
  let ?lbip = "case mget ann OpenELBEIPAnnotationKey of Some value \<Rightarrow> value | None \<Rightarrow> s_loadBalancerIP svc"
  let ?g = "getEIP C (m_namespace (s_meta svc)) ?lbip [] w1"
  obtain r2 w2 where g: "?g = (r2, w2)" by force
  note w2 = getEIP_apart [OF assms(1) g]
  have ev: "V (cEvent C obj t rs msg v) = V v" "U (cEvent C obj t rs msg v) = U v" for obj t rs msg v
    using stores_apartD(11,12) [of C V U] assms(1) by (simp_all add: api_laws_def)
  show ?thesis
    using assms(2) w1 w2 ev
    by (cases r1; cases r2) (auto simp: ConstructRequest_def Some a g Let_def split: if_splits prod.splits option.splits)
qed

lemma ReleaseIP_apart:
  assumes "api_laws C V U" and "ReleaseIP C r w = (x, w')"
  shows "U w' = U w"
proof (cases r)
  case (Some y)
  obtain r1 w1 where g: "cGetEip C (sr_Eip y) w = (r1, w1)" by force
  note w1 = api_get [OF assms(1) g]
  have upd: "U v' = U v" if "cUpdateEipStatus C e v = (z, v')" for e v z v'
    using apart_run(4) [OF _ that] assms(1) by (auto simp: api_laws_def)
  show ?thesis
    using assms(2) w1 upd by (cases r1) (auto simp: ReleaseIP_def Some g Let_def andThen_def split: if_splits prod.splits res.splits)
qed (use assms(2) in \<open>simp add: ReleaseIP_def\<close>)

lemma AssignIP_apart:
  assumes "api_laws C V U" and "AssignIP C fams r w = (x, w')"
  shows "U w' = U w"
proof (cases r)
  case (Some y)
  obtain r1 w1 where g: "cGetEip C (sr_Eip y) w = (r1, w1)" by force
  note w1 = api_get [OF assms(1) g]
  have upd: "U v' = U v" if "cUpdateEipStatus C e v = (z, v')" for e v z v'
    using apart_run(4) [OF _ that] assms(1) by (auto simp: api_laws_def)
  show ?thesis
    using assms(2) w1 upd
    by (cases r1) (auto simp: AssignIP_def Some g Let_def andThen_def split: if_splits prod.splits res.splits option.splits)
qed (use assms(2) in \<open>simp add: AssignIP_def\<close>)

lemma updateReconcileResult_apart:
  assumes "api_laws C V U" and "updateReconcileResult C svc resultSvc w = (x, w')"
  shows "V w' = V w"
proof -
  have a: "stores_apart C V U" using assms(1) by (simp add: api_laws_def)
  have u: "V v' = V v" if "cUpdateService C s v = (z, v')" for s v z v' by (rule apart_run(7) [OF a that])
  have st: "V v' = V v" if "cUpdateServiceStatus C s v = (z, v')" for s v z v' by (rule apart_run(8) [OF a that])
  show ?thesis
    using assms(2) u st api_event(1) [OF assms(1)]
    by (auto simp: updateReconcileResult_def andThen_def split: if_splits prod.splits res.splits)
qed

section \<open>The stored service after \<open>updateReconcileResult\<close>\<close>

text \<open>
  The object that ends up in the store. Labels and finalizers are written only when the labels changed.
\<close>

definition svc_result :: "Service \<Rightarrow> Service \<Rightarrow> Service \<Rightarrow> bool" where
  "svc_result svc resultSvc s' \<longleftrightarrow>
     s_ingress s' = s_ingress resultSvc \<and> s_type s' = s_type svc \<and> s_loadBalancerIP s' = s_loadBalancerIP svc \<and>
     m_annotations (s_meta s') = m_annotations (s_meta svc) \<and> svc_key s' = svc_key svc \<and>
     m_deletionTimestamp (s_meta s') = m_deletionTimestamp (s_meta svc) \<and> svc_rest s' = svc_rest svc \<and>
     (if DeepEqualMap (m_labels (s_meta svc)) (m_labels (s_meta resultSvc))
      then m_labels (s_meta s') = m_labels (s_meta svc) \<and> m_finalizers (s_meta s') = m_finalizers (s_meta svc)
      else m_labels (s_meta s') = m_labels (s_meta resultSvc) \<and> m_finalizers (s_meta s') = m_finalizers (s_meta resultSvc))"

text \<open>\<open>resultSvc\<close> differs from \<open>svc\<close> in labels, finalizers and ingress only.\<close>

definition svc_edit :: "Service \<Rightarrow> Service \<Rightarrow> bool" where
  "svc_edit svc resultSvc \<longleftrightarrow>
     svc_key resultSvc = svc_key svc \<and> s_type resultSvc = s_type svc \<and> s_loadBalancerIP resultSvc = s_loadBalancerIP svc \<and>
     m_annotations (s_meta resultSvc) = m_annotations (s_meta svc) \<and> svc_rest resultSvc = svc_rest svc"

lemma updateReconcileResult_Ok:
  assumes "service_store C U" and "U w (svc_key svc) = Some svc" and "svc_edit svc res"
    and "updateReconcileResult C svc res w = (Ok (), w')"
  shows "\<exists>s'. svc_result svc res s' \<and>
    (U w' = (U w)(svc_key svc \<mapsto> s') \<or> U w' = (U w)(svc_key svc := None) \<and> collected (s_meta s'))"
proof -
  let ?eq = "DeepEqualMap (m_labels (s_meta svc)) (m_labels (s_meta res))"
  obtain s1 w1 where u: "(if \<not> ?eq then cUpdateService C res w else (Ok res, w)) = (Ok s1, w1)"
    and rest: "(if s_ingress svc \<noteq> s_ingress res then
           (case cUpdateServiceStatus C (s1\<lparr>s_ingress := s_ingress res\<rparr>) w1 of
              (Ok _, w) \<Rightarrow> (Ok (), w)
            | (Err e, w) \<Rightarrow> (Err e, cEvent C (svc_ref svc) EventTypeWarning ''UpdateServiceStatus'' (error_text e) w)
            | (Panic p, w) \<Rightarrow> (Panic p, w))
         else (Ok (), w1)) = (Ok (), w')"
    using assms(4) unfolding updateReconcileResult_def andThen_Ok_iff by blast
  have ed: "svc_key res = svc_key svc" "s_type res = s_type svc" "s_loadBalancerIP res = s_loadBalancerIP svc"
    "m_annotations (s_meta res) = m_annotations (s_meta svc)" "svc_rest res = svc_rest svc"
    using assms(3) by (simp_all add: svc_edit_def)
  have mid: "\<exists>x. U w1 = (U w)(svc_key svc := x) \<and> svc_key s1 = svc_key svc \<and>
      (x = Some svc \<and> ?eq \<or> x = stored s_meta s1 \<and> \<not> ?eq \<and> svc_result svc (res\<lparr>s_ingress := s_ingress svc\<rparr>) s1)"
  proof (cases ?eq)
    case True
    then show ?thesis using u assms(2) ed by (intro exI [of _ "Some svc"]) auto
  next
    case False
    then have c: "cUpdateService C res w = (Ok s1, w1)" using u by simp
    note up = service_store_update [OF assms(1) c, unfolded ed(1)]
    show ?thesis
      using up assms(2) ed False by (intro exI [of _ "stored s_meta s1"]) (auto simp: svc_result_def)
  qed
  then obtain x where x: "U w1 = (U w)(svc_key svc := x)" "svc_key s1 = svc_key svc"
      "x = Some svc \<and> ?eq \<or> x = stored s_meta s1 \<and> \<not> ?eq \<and> svc_result svc (res\<lparr>s_ingress := s_ingress svc\<rparr>) s1" by blast
  show ?thesis
  proof (cases "s_ingress svc = s_ingress res")
    case True
    then have "w' = w1" "res\<lparr>s_ingress := s_ingress svc\<rparr> = res" using rest by simp_all
    then show ?thesis
      using x True by (auto simp: stored_def svc_result_def split: if_splits)
  next
    case False
    let ?s = "s1\<lparr>s_ingress := s_ingress res\<rparr>"
    obtain s2 where c: "cUpdateServiceStatus C ?s w1 = (Ok s2, w')"
      using rest False by (auto split: prod.splits res.splits)
    have k: "svc_key ?s = svc_key svc" using x(2) by simp
    note st = service_store_status [OF assms(1) c, unfolded k]
    obtain old where "U w1 (svc_key svc) = Some old" and old: "m_labels (s_meta s2) = m_labels (s_meta old)"
      "m_finalizers (s_meta s2) = m_finalizers (s_meta old)" "m_annotations (s_meta s2) = m_annotations (s_meta old)"
      "m_deletionTimestamp (s_meta s2) = m_deletionTimestamp (s_meta old)" "s_type s2 = s_type old"
      "s_loadBalancerIP s2 = s_loadBalancerIP old" "svc_rest s2 = svc_rest old"
      using st(4) by blast
    then have "x = Some old" using x(1) by simp
    then have "svc_result svc res s2"
      using x(3) old st(2,3) by (auto simp: svc_result_def stored_def split: if_splits)
    moreover have "U w' = (U w)(svc_key svc \<mapsto> s2)" using st(1) x(1) by simp
    ultimately show ?thesis by blast
  qed
qed

section \<open>The EIPs through a reconciliation\<close>

definition all_inv :: "('w \<Rightarrow> string \<Rightarrow> Eip option) \<Rightarrow> 'w \<Rightarrow> bool" where
  "all_inv V w \<longleftrightarrow> (\<forall>m e. V w m = Some e \<longrightarrow> eip_settled e)"

lemma all_inv_same: "V w' = V w \<Longrightarrow> all_inv V w' = all_inv V w"
  by (simp add: all_inv_def)

lemma all_invD: "all_inv V w \<Longrightarrow> V w m = Some e \<Longrightarrow> eip_settled e"
  by (simp add: all_inv_def)

lemma all_inv_put: "all_inv V w \<Longrightarrow> V w' = (V w)(m \<mapsto> e) \<Longrightarrow> eip_settled e \<Longrightarrow> all_inv V w'"
  by (auto simp: all_inv_def)

lemma ReleaseIP_all_inv:
  assumes "eip_store C V" and "all_inv V w" and "ReleaseIP C (Some r) w = (Ok (), w')"
  shows "all_inv V w'"
proof -
  obtain x w1 where g: "cGetEip C (sr_Eip r) w = (x, w1)" by force
  show ?thesis
  proof (cases x)
    case (Ok e)
    have e: "V w (sr_Eip r) = Some e" "e_name e = sr_Eip r" "V w1 = V w" using eip_store_get [OF assms(1)] g Ok by auto
    have inv: "eip_settled e" by (rule all_invD [OF assms(2) e(1)])
    let ?c = "releaseIPFromEip (sr_Key r) e"
    show ?thesis
    proof (cases "DeepEqual_Eip ?c e")
      case True
      then have "w' = w1" using assms(3) g Ok by (simp add: ReleaseIP_def Let_def)
      then show ?thesis using e(3) assms(2) all_inv_same [of V w1 w] by simp
    next
      case False
      then obtain e2 where u: "cUpdateEipStatus C ?c w1 = (Ok e2, w')"
        using assms(3) g Ok by (auto simp: ReleaseIP_def Let_def res_simps)
      note st = eip_store_update [OF assms(1) u]
      have n: "e_name ?c = sr_Eip r" "e_spec ?c = e_spec e" using e(2) by (simp_all add: releaseIPFromEip_def)
      then have "e_spec e2 = e_spec ?c" using st(4) e by auto
      then have "eip_settled e2" by (rule eip_settled_same [OF _ st(3) release_settled [OF inv]])
      then show ?thesis using all_inv_put [OF assms(2), of w'] st(1) e(3) n by simp
    qed
  next
    case (Err y)
    have "releaseIPFromEip (sr_Key r) zero_Eip = zero_Eip" by (simp add: releaseIPFromEip_def zero_Eip_def zero_EipStatus_def)
    then have "w' = w1" using assms(3) g Err by (auto simp: ReleaseIP_def Let_def split: if_splits)
    then show ?thesis using eip_store_get_err(1) [OF assms(1)] g Err assms(2) all_inv_same [of V w1 w] by simp
  qed (use assms(3) g in \<open>simp add: ReleaseIP_def\<close>)
qed

text \<open>An EIP keeps its specification and its metadata, the version apart.\<close>

definition eip_kept :: "Eip \<Rightarrow> Eip \<Rightarrow> bool" where
  "eip_kept e e' \<longleftrightarrow> e_spec e' = e_spec e \<and> same_meta (e_meta e') (e_meta e)"

lemma AssignIP_all_inv:
  assumes "eip_store C V" and "all_inv V w" and "AssignIP C fams (Some r) w = (Ok r', w')" and "CHR '';'' \<notin> set (sr_Key r)"
  shows "all_inv V w'"
    and "\<exists>addr e e'. r' = Some (r\<lparr>sr_IP := addr\<rparr>) \<and> V w (sr_Eip r) = Some e \<and> V w' = (V w)(sr_Eip r \<mapsto> e') \<and>
      holders e' = insert (addr, sr_Key r) (holders e) \<and> \<not> e_deleting e' \<and> eip_kept e e'"
proof -
  obtain e w1 addr clone where "cGetEip C (sr_Eip r) w = (Ok e, w1)" and asg: "assignIPFromEip (Some r) e = (Ok addr, clone)"
    using AssignIP_OkE [OF assms(3)] by metis
  then have e: "V w (sr_Eip r) = Some e" using eip_store_get(1) [OF assms(1)] by blast
  obtain base n where inv: "eip_inv e base n" by (rule assign_settled [OF all_invD [OF assms(2) e] asg])
  obtain addr e' where a: "r' = Some (r\<lparr>sr_IP := addr\<rparr>)" "V w' (sr_Eip r) = Some e'" "eip_inv e' base n"
    "holders e' = insert (addr, sr_Key r) (holders e)" "\<forall>m. m \<noteq> sr_Eip r \<longrightarrow> V w' m = V w m" "\<not> e_deleting e'" "eip_kept e e'"
    using AssignIP_Ok [OF assms(1) e inv assms(4,3)] unfolding eip_kept_def by blast
  have V': "V w' = (V w)(sr_Eip r \<mapsto> e')" using a(2,5) by auto
  show "all_inv V w'" by (rule all_inv_put [OF assms(2) V']) (use a(3) in \<open>auto simp: eip_settled_def\<close>)
  show "\<exists>addr e e'. r' = Some (r\<lparr>sr_IP := addr\<rparr>) \<and> V w (sr_Eip r) = Some e \<and> V w' = (V w)(sr_Eip r \<mapsto> e') \<and>
      holders e' = insert (addr, sr_Key r) (holders e) \<and> \<not> e_deleting e' \<and> eip_kept e e'"
    using a e V' by blast
qed

lemma lb_release_Ok:
  assumes "api_laws C V U" and "all_inv V w" and "lb_release C svc rel w = (Ok (clone, ips), w')"
  shows "all_inv V w'" and "U w' = U w" and "rel = None \<Longrightarrow> V w' = V w"
    and "clone = (if rel = None then svc else released svc)" and "ips = (if rel = None then s_ingress svc else Some [])"
proof -
  have "all_inv V w' \<and> U w' = U w \<and> (rel = None \<longrightarrow> V w' = V w) \<and>
    clone = (if rel = None then svc else released svc) \<and> ips = (if rel = None then s_ingress svc else Some [])"
  proof (cases rel)
    case None
    then show ?thesis using assms(2,3) by (auto simp: lb_release_def)
  next
    case (Some r)
    obtain x w1 where x: "ReleaseIP C (Some r) w = (x, w1)" by force
    then have ok: "x = Ok ()"
      and rest: "clone = released svc" "ips = Some []"
        "w' = cEvent C (svc_ref svc) EventTypeNormal ''ReleaseIP'' (''success to release ip: '' @ sr_IP r) w1"
      using assms(3) Some by (cases x; simp add: lb_release_def)+
    have "eip_store C V" using assms(1) by (simp add: api_laws_def)
    then have "all_inv V w1" by (rule ReleaseIP_all_inv [OF _ assms(2) x [unfolded ok]])
    then have "all_inv V w'" using all_inv_same [of V w' w1] api_event(1) [OF assms(1)] rest(3) by simp
    then show ?thesis
      using rest Some ReleaseIP_apart [OF assms(1) x] api_event(2) [OF assms(1)] by simp
  qed
  then show "all_inv V w'" "U w' = U w" "rel = None \<Longrightarrow> V w' = V w"
    "clone = (if rel = None then svc else released svc)" "ips = (if rel = None then s_ingress svc else Some [])" by blast+
qed

lemma lb_assign_Ok:
  assumes "api_laws C V U" and "all_inv V w" and "lb_assign C svc (Some a) clone ips w = (Ok (clone', ips'), w')"
    and "CHR '';'' \<notin> set (sr_Key a)"
  shows "all_inv V w'" and "U w' = U w"
    and "\<exists>addr e e'. V w (sr_Eip a) = Some e \<and> V w' = (V w)(sr_Eip a \<mapsto> e') \<and>
      holders e' = insert (addr, sr_Key a) (holders e) \<and> \<not> e_deleting e' \<and> eip_kept e e' \<and>
      clone' = assigned (sr_Eip a) clone \<and> ips' = Some [\<lparr>ing_IP = addr, ing_Hostname = []\<rparr>]"
proof -
  obtain x w1 where x: "AssignIP C (s_ipFamilies svc) (Some a) w = (x, w1)" by force
  have st: "eip_store C V" using assms(1) by (simp add: api_laws_def)
  obtain r' where ok: "x = Ok r'"
  proof (cases x)
    case (Err e)
    then show ?thesis using assms(3) x by (auto simp: lb_assign_def Let_def split: prod.splits res.splits)
  qed (use assms(3) x in \<open>auto simp: lb_assign_def\<close>)
  let ?ip = "case r' of None \<Rightarrow> [] | Some x \<Rightarrow> sr_IP x"
  have rest: "clone' = assigned (sr_Eip a) clone" "ips' = Some [\<lparr>ing_IP = ?ip, ing_Hostname = []\<rparr>]"
    "w' = cEvent C (svc_ref svc) EventTypeNormal ''AssignIP'' (''success to assign ip: '' @ ?ip) w1"
    using assms(3) x ok by (simp_all add: lb_assign_def Let_def)
  note asg = AssignIP_all_inv [OF st assms(2) x [unfolded ok] assms(4)]
  show "all_inv V w'" using asg(1) all_inv_same [of V w' w1] api_event(1) [OF assms(1)] rest(3) by simp
  show "U w' = U w" using AssignIP_apart [OF assms(1) x] api_event(2) [OF assms(1)] rest(3) by simp
  show "\<exists>addr e e'. V w (sr_Eip a) = Some e \<and> V w' = (V w)(sr_Eip a \<mapsto> e') \<and>
      holders e' = insert (addr, sr_Key a) (holders e) \<and> \<not> e_deleting e' \<and> eip_kept e e' \<and>
      clone' = assigned (sr_Eip a) clone \<and> ips' = Some [\<lparr>ing_IP = addr, ing_Hostname = []\<rparr>]"
    using asg(2) rest api_event(1) [OF assms(1)] by auto
qed

lemma LB_Reconcile_OkE:
  assumes "api_laws C V U" and "U w (ns, name) = Some svc"
    and "\<not> HasOpenELBNPAnnotation (m_annotations (s_meta svc))" and "LB_Reconcile C N ns name w = (r, w')"
    and "r = Ok () \<or> U w' (ns, name) = None"
  obtains w1 req w2 where "cGetService C ns name w = (Ok svc, w1)" "ConstructRequest C svc w1 = (Ok req, w2)"
    "V w1 = V w" "U w1 = U w" "V w2 = V w" "U w2 = U w" "svc_key svc = (ns, name)"
    "(if Release req = None \<and> Allocate req = None then (Ok (), w2)
      else andThen (lb_release C svc (Release req) w2) (\<lambda>(clone, statusIPs) w.
        andThen (lb_assign C svc (Allocate req) clone statusIPs w) (\<lambda>(clone, statusIPs) w.
          updateReconcileResult C svc (clone\<lparr>s_ingress := statusIPs\<rparr>) w))) = (r, w')"
proof -
  have laws: "service_store C U" "stores_apart C V U" using assms(1) by (simp_all add: api_laws_def)
  obtain x w1 where g: "cGetService C ns name w = (x, w1)" by force
  note get = service_store_get [OF laws(1) g]
  have w1: "V w1 = V w" "U w1 = U w" using apart_run(6) [OF laws(2) g] get(1) by auto
  have x: "x = Ok svc"
  proof (cases x)
    case (Ok s)
    then show ?thesis using get(2) assms(2) by simp
  next
    case (Err e)
    then have "\<not> IsNotFound e" using get(3) assms(2) by auto
    then show ?thesis using assms(2,4,5) g Err w1(2) by (simp add: LB_Reconcile_def)
  next
    case (Panic p)
    then show ?thesis using assms(2,4,5) g w1(2) by (simp add: LB_Reconcile_def)
  qed
  obtain y w2 where c: "ConstructRequest C svc w1 = (y, w2)" by force
  note w2 = ConstructRequest_apart [OF assms(1) c]
  obtain req where y: "y = Ok req"
    using assms(2-5) g x c w1 w2 by (cases y) (auto simp: LB_Reconcile_def)
  show ?thesis
  proof (rule that)
    show "cGetService C ns name w = (Ok svc, w1)" "ConstructRequest C svc w1 = (Ok req, w2)" using g x c y by simp_all
    show "V w1 = V w" "U w1 = U w" "V w2 = V w" "U w2 = U w" using w1 w2 by simp_all
    show "svc_key svc = (ns, name)" using get(2) x by blast
    show "(if Release req = None \<and> Allocate req = None then (Ok (), w2)
      else andThen (lb_release C svc (Release req) w2) (\<lambda>(clone, statusIPs) w.
        andThen (lb_assign C svc (Allocate req) clone statusIPs w) (\<lambda>(clone, statusIPs) w.
          updateReconcileResult C svc (clone\<lparr>s_ingress := statusIPs\<rparr>) w))) = (r, w')"
      using assms(3,4) g x c y by (simp add: LB_Reconcile_def)
  qed
qed

lemma ConstructRequest_key:
  assumes "ConstructRequest C svc w = (Ok req, w')" and "Allocate req = Some a"
  shows "sr_Key a = NamespacedName (m_namespace (s_meta svc)) (m_name (s_meta svc))"
  using assms
  by (auto simp: ConstructRequest_def empty_Request_def Let_def andThen_def split: option.splits prod.splits res.splits if_splits)

lemma no_semicolon: "CHR '';'' \<notin> set ns \<Longrightarrow> CHR '';'' \<notin> set n \<Longrightarrow> CHR '';'' \<notin> set (NamespacedName ns n)"
  by (simp add: NamespacedName_def)

lemma LB_keeps_inv:
  assumes "api_laws C V U" and "U w (ns, name) = Some svc" and "\<not> HasOpenELBNPAnnotation (m_annotations (s_meta svc))"
    and "CHR '';'' \<notin> set ns" and "CHR '';'' \<notin> set name" and "all_inv V w"
    and "LB_Reconcile C N ns name w = (Ok (), w')"
  shows "all_inv V w'"
proof -
  obtain w1 req w2 where c: "ConstructRequest C svc w1 = (Ok req, w2)" and V2: "V w2 = V w" and k: "svc_key svc = (ns, name)"
    and run: "(if Release req = None \<and> Allocate req = None then (Ok (), w2)
      else andThen (lb_release C svc (Release req) w2) (\<lambda>(clone, statusIPs) w.
        andThen (lb_assign C svc (Allocate req) clone statusIPs w) (\<lambda>(clone, statusIPs) w.
          updateReconcileResult C svc (clone\<lparr>s_ingress := statusIPs\<rparr>) w))) = (Ok (), w')"
    using LB_Reconcile_OkE [OF assms(1-3,7)] by blast
  have inv2: "all_inv V w2" using assms(6) all_inv_same [OF V2] by simp
  show ?thesis
  proof (cases "Release req = None \<and> Allocate req = None")
    case False
    then obtain cl ips w3 cl' ips' w4 where rel: "lb_release C svc (Release req) w2 = (Ok (cl, ips), w3)"
      and asg: "lb_assign C svc (Allocate req) cl ips w3 = (Ok (cl', ips'), w4)"
      and upd: "updateReconcileResult C svc (cl'\<lparr>s_ingress := ips'\<rparr>) w4 = (Ok (), w')"
      using run by (auto simp: res_simps)
    have inv3: "all_inv V w3" by (rule lb_release_Ok(1) [OF assms(1) inv2 rel])
    have "all_inv V w4"
    proof (cases "Allocate req")
      case None
      then show ?thesis using asg inv3 by (simp add: lb_assign_def)
    next
      case (Some a)
      have "CHR '';'' \<notin> set (sr_Key a)" using ConstructRequest_key [OF c Some] k no_semicolon assms(4,5) by simp
      then show ?thesis by (rule lb_assign_Ok(1) [OF assms(1) inv3 asg [unfolded Some]])
    qed
    then show ?thesis using all_inv_same [OF updateReconcileResult_apart [OF assms(1) upd]] by simp
  qed (use run inv2 in simp)
qed

text \<open>
  A successful reconciliation of a service keeps every stored EIP new or with the invariant of its status.
\<close>

theorem LB_Reconcile_keeps_inv:
  assumes "api_laws C V U" and "U w (ns, name) = Some svc" and "\<not> HasOpenELBNPAnnotation (m_annotations (s_meta svc))"
    and "CHR '';'' \<notin> set ns" and "CHR '';'' \<notin> set name" and "all_inv V w"
    and "LB_Reconcile C N ns name w = (Ok (), w')"
  shows "all_inv V w'"
  by (rule LB_keeps_inv [OF assms])

section \<open>A service without an address gets one\<close>

text \<open>
  A service that waits for its first address: annotated for OpenELB and with the name of an EIP, of
  type LoadBalancer, not deleted, not labelled yet, and without an address in its status.
\<close>

definition awaits :: "Service \<Rightarrow> string \<Rightarrow> bool" where
  "awaits svc eip \<longleftrightarrow>
     \<not> HasOpenELBNPAnnotation (m_annotations (s_meta svc)) \<and> \<not> needRelease svc \<and>
     mget (nmap (m_annotations (s_meta svc))) OpenELBEIPAnnotationKeyV1Alpha2 = Some eip \<and> eip \<noteq> [] \<and>
     mget (nmap (m_labels (s_meta svc))) OpenELBEIPAnnotationKeyV1Alpha2 = None \<and> status_ips svc = []"

lemma awaitsD:
  assumes "awaits svc eip"
  shows "\<not> HasOpenELBNPAnnotation (m_annotations (s_meta svc))" and "\<not> needRelease svc"
    and "mget (nmap (m_annotations (s_meta svc))) OpenELBEIPAnnotationKeyV1Alpha2 = Some eip" and "eip \<noteq> []"
    and "mget (nmap (m_labels (s_meta svc))) OpenELBEIPAnnotationKeyV1Alpha2 = None" and "status_ips svc = []"
  using assms by (simp_all add: awaits_def)

definition free_of :: "('w \<Rightarrow> string \<Rightarrow> Eip option) \<Rightarrow> 'w \<Rightarrow> string \<Rightarrow> bool" where
  "free_of V w key \<longleftrightarrow> (\<forall>m e a. V w m = Some e \<longrightarrow> (a, key) \<notin> holders e)"

lemma all_inv_wf: "all_inv V w \<Longrightarrow> V w m = Some e \<Longrightarrow> gomap_wf (used_of e)"
  by (rule eip_settled_wf [OF all_invD])

lemma listed_stored:
  assumes "eip_store C V" and "cListEips C w = (Ok eips, w')" and "e \<in> set eips"
  shows "V w (e_name e) = Some e"
proof -
  have d: "distinct (map e_name eips)" and v: "V w (e_name e) = find (\<lambda>x. e_name x = e_name e) eips"
    using eip_store_list [OF assms(1,2)] by auto
  have "find (\<lambda>x. e_name x = e_name e) eips = Some e" using d assms(3)
    by (induction eips) (auto simp: image_iff)
  then show ?thesis using v by simp
qed

lemma allocated_info:
  assumes "eip_store C V" and "all_inv V w" and "getAllocatedEIPInfo C key w = (Ok (n, a), w')"
  shows "free_of V w key \<Longrightarrow> n = [] \<and> a = []"
    and "V w m = Some e \<Longrightarrow> \<not> e_deleting e \<Longrightarrow> (b, key) \<in> holders e \<Longrightarrow>
      \<exists>e'. V w n = Some e' \<and> \<not> e_deleting e' \<and> (a, key) \<in> holders e'"
proof -
  obtain eips where l: "cListEips C w = (Ok eips, w')" and al: "allocated_loop key eips = (n, a)"
    using assms(3) by (auto simp: getAllocatedEIPInfo_def res_simps)
  note stored = listed_stored [OF assms(1) l]
  have wf: "\<forall>e\<in>set eips. gomap_wf (used_of e)" using all_inv_wf [OF assms(2)] stored by blast
  note cases = allocated_loop_cases [OF wf, of key, unfolded al]
  show "n = [] \<and> a = []" if f: "free_of V w key"
  proof -
    have "\<not> holds_somewhere eips key" using f stored by (auto simp: holds_somewhere_def free_of_def)
    then show ?thesis using cases by simp
  qed
  show "\<exists>e'. V w n = Some e' \<and> \<not> e_deleting e' \<and> (a, key) \<in> holders e'"
    if e: "V w m = Some e" "\<not> e_deleting e" "(b, key) \<in> holders e"
  proof -
    have "find (\<lambda>x. e_name x = m) eips = Some e" using e(1) eip_store_list(3) [OF assms(1) l] by simp
    then have "e \<in> set eips" by (auto simp: find_Some_iff)
    then have "holds_somewhere eips key" using e(2,3) by (auto simp: holds_somewhere_def)
    then show ?thesis using cases stored by auto
  qed
qed

lemma ConstructRequest_awaits:
  assumes "eip_store C V" and "all_inv V w" and "awaits svc eip" and "ConstructRequest C svc w = (Ok req, w')"
    and "free_of V w (NamespacedName (m_namespace (s_meta svc)) (m_name (s_meta svc)))"
  shows "Release req = None" and "\<exists>ip. Allocate req = Some \<lparr>sr_Key = NamespacedName (m_namespace (s_meta svc)) (m_name (s_meta svc)),
    sr_IP = ip, sr_Eip = eip\<rparr>"
proof -
  obtain ann where ann: "m_annotations (s_meta svc) = Some ann"
    using awaitsD(3) [OF assms(3)] by (cases "m_annotations (s_meta svc)") auto
  obtain n a w1 where i: "getAllocatedEIPInfo C (NamespacedName (m_namespace (s_meta svc)) (m_name (s_meta svc))) w = (Ok (n, a), w1)"
    using assms(4) ann by (auto simp: ConstructRequest_def res_simps Let_def)
  have none: "n = []" "a = []" using allocated_info(1) [OF assms(1,2) i assms(5)] by simp_all
  have "Release req = None \<and> (\<exists>ip. Allocate req = Some \<lparr>sr_Key = NamespacedName (m_namespace (s_meta svc)) (m_name (s_meta svc)),
    sr_IP = ip, sr_Eip = eip\<rparr>)"
    using assms(4) awaitsD [OF assms(3)] ann i none
    by (auto simp: ConstructRequest_def Let_def constructRelease_def)
  then show "Release req = None" "\<exists>ip. Allocate req = Some \<lparr>sr_Key = NamespacedName (m_namespace (s_meta svc)) (m_name (s_meta svc)),
    sr_IP = ip, sr_Eip = eip\<rparr>" by simp_all
qed

lemma assigned_edit: "svc_edit svc (assigned eip svc\<lparr>s_ingress := i\<rparr>)"
  by (auto simp: svc_edit_def assigned_def svc_rest_def)

text \<open>What an assignment from \<open>eip\<close> makes of a service: one label, one finalizer, and nothing else but the status.\<close>

definition svc_marked :: "string \<Rightarrow> Service \<Rightarrow> Service \<Rightarrow> bool" where
  "svc_marked eip svc s' \<longleftrightarrow>
     mget (nmap (m_labels (s_meta s'))) = (mget (nmap (m_labels (s_meta svc))))(OpenELBEIPAnnotationKeyV1Alpha2 \<mapsto> eip) \<and>
     set (m_finalizers (s_meta s')) = insert FinalizerName (set (m_finalizers (s_meta svc))) \<and>
     m_annotations (s_meta s') = m_annotations (s_meta svc) \<and> svc_key s' = svc_key svc \<and>
     m_deletionTimestamp (s_meta s') = m_deletionTimestamp (s_meta svc) \<and> s_type s' = s_type svc \<and>
     s_loadBalancerIP s' = s_loadBalancerIP svc \<and> svc_rest s' = svc_rest svc"

lemma assigned_label:
  assumes "svc_result svc (assigned eip svc\<lparr>s_ingress := i\<rparr>) s'"
    and "mget (nmap (m_labels (s_meta svc))) OpenELBEIPAnnotationKeyV1Alpha2 = None"
  shows "svc_marked eip svc s'"
proof -
  let ?res = "assigned eip svc\<lparr>s_ingress := i\<rparr>"
  have l: "m_labels (s_meta ?res) = Some (mset_at OpenELBEIPAnnotationKeyV1Alpha2 eip (nmap (m_labels (s_meta svc))))"
    by (simp add: assigned_def)
  have f: "set (m_finalizers (s_meta ?res)) = insert FinalizerName (set (m_finalizers (s_meta svc)))"
    by (auto simp: assigned_def ContainsString_iff)
  have "\<not> DeepEqualMap (m_labels (s_meta svc)) (m_labels (s_meta ?res))"
  proof
    assume "DeepEqualMap (m_labels (s_meta svc)) (m_labels (s_meta ?res))"
    from fun_cong [OF DeepEqualMap_nmap [OF this], of OpenELBEIPAnnotationKeyV1Alpha2] show False
      using assms(2) unfolding l by (simp add: gomap_simps)
  qed
  then have "m_labels (s_meta s') = m_labels (s_meta ?res)" "m_finalizers (s_meta s') = m_finalizers (s_meta ?res)"
    using assms(1) by (simp_all add: svc_result_def)
  then show ?thesis
    using assms(1) l f by (simp add: svc_marked_def svc_result_def gomap_simps fun_eq_iff)
qed

lemma LB_first_assign:
  assumes "api_laws C V U" and "all_inv V w" and "U w (ns, name) = Some svc" and "awaits svc eip"
    and "CHR '';'' \<notin> set ns" and "CHR '';'' \<notin> set name" and "free_of V w (NamespacedName ns name)"
    and "LB_Reconcile C N ns name w = (Ok (), w')"
  obtains e e' s' addr where "V w eip = Some e" "V w' = (V w)(eip \<mapsto> e')"
    "holders e' = insert (addr, NamespacedName ns name) (holders e)" "\<not> e_deleting e'" "eip_kept e e'"
    "U w' = (U w)((ns, name) \<mapsto> s')" "s_ingress s' = Some [\<lparr>ing_IP = addr, ing_Hostname = []\<rparr>]" "svc_marked eip svc s'"
    "svc_result svc (assigned eip svc\<lparr>s_ingress := Some [\<lparr>ing_IP = addr, ing_Hostname = []\<rparr>]\<rparr>) s'"
proof -
  have laws: "eip_store C V" "service_store C U" using assms(1) by (simp_all add: api_laws_def)
  note aw = awaitsD [OF assms(4)]
  obtain w1 req w2 where c: "ConstructRequest C svc w1 = (Ok req, w2)" and W: "V w1 = V w" "V w2 = V w" "U w2 = U w"
    and k: "svc_key svc = (ns, name)"
    and run: "(if Release req = None \<and> Allocate req = None then (Ok (), w2)
      else andThen (lb_release C svc (Release req) w2) (\<lambda>(clone, statusIPs) w.
        andThen (lb_assign C svc (Allocate req) clone statusIPs w) (\<lambda>(clone, statusIPs) w.
          updateReconcileResult C svc (clone\<lparr>s_ingress := statusIPs\<rparr>) w))) = (Ok (), w')"
    using LB_Reconcile_OkE [OF assms(1,3) aw(1) assms(8)] by blast
  have inv: "all_inv V w1" "all_inv V w2" using assms(2) W all_inv_same [of V w1 w] all_inv_same [of V w2 w] by simp_all
  have fr: "free_of V w1 (NamespacedName (m_namespace (s_meta svc)) (m_name (s_meta svc)))"
    using assms(7) k W(1) by (simp add: free_of_def)
  obtain ip where rel: "Release req = None" and al: "Allocate req = Some \<lparr>sr_Key = NamespacedName ns name, sr_IP = ip, sr_Eip = eip\<rparr>"
    using ConstructRequest_awaits [OF laws(1) inv(1) assms(4) c fr] k by auto
  let ?a = "\<lparr>sr_Key = NamespacedName ns name, sr_IP = ip, sr_Eip = eip\<rparr>"
  obtain cl' ips' w4 where asg: "lb_assign C svc (Some ?a) svc (s_ingress svc) w2 = (Ok (cl', ips'), w4)"
    and upd: "updateReconcileResult C svc (cl'\<lparr>s_ingress := ips'\<rparr>) w4 = (Ok (), w')"
    using run rel al by (auto simp: res_simps lb_release_def)
  have sc: "CHR '';'' \<notin> set (sr_Key ?a)" using no_semicolon assms(5,6) by simp
  note as = lb_assign_Ok [OF assms(1) inv(2) asg sc]
  obtain addr e e' where e: "V w2 eip = Some e" "V w4 = (V w2)(eip \<mapsto> e')"
    "holders e' = insert (addr, NamespacedName ns name) (holders e)" "\<not> e_deleting e'" "eip_kept e e'"
    and cl: "cl' = assigned eip svc" "ips' = Some [\<lparr>ing_IP = addr, ing_Hostname = []\<rparr>]"
    using as(3) by auto
  have "U w4 (svc_key svc) = Some svc" using as(2) W(3) assms(3) k by simp
  from updateReconcileResult_Ok [OF laws(2) this assigned_edit upd [unfolded cl]]
  obtain s' where s': "svc_result svc (assigned eip svc\<lparr>s_ingress := Some [\<lparr>ing_IP = addr, ing_Hostname = []\<rparr>]\<rparr>) s'"
    and U': "U w' = (U w4)(svc_key svc \<mapsto> s') \<or> U w' = (U w4)(svc_key svc := None) \<and> collected (s_meta s')" by blast
  have "\<not> collected (s_meta s')"
    using s' aw(2) by (auto simp: collected_def svc_result_def needRelease_def split: if_splits)
  then have U'': "U w' = (U w)((ns, name) \<mapsto> s')" using U' as(2) W(3) k by simp
  have V': "V w' = (V w)(eip \<mapsto> e')" using updateReconcileResult_apart [OF assms(1) upd] e(2) W(2) by simp
  have ing: "s_ingress s' = Some [\<lparr>ing_IP = addr, ing_Hostname = []\<rparr>]" using s' by (simp add: svc_result_def)
  show ?thesis
    by (rule that [OF _ V' e(3-5) U'' ing assigned_label [OF s' aw(5)] s']) (use e(1) W(2) in simp)
qed

text \<open>
  (C3) A successful reconciliation of a service that waits for an address of an EIP it names by annotation ends with
  the address everywhere it belongs, and nowhere else. The EIP records the service as a holder of the address in
  addition to the holders it had, and keeps its specification and metadata. The status of the service shows exactly
  that address; the service has the label of the EIP and the finalizer in addition to the labels and finalizers
  it had, and keeps its annotations and specification. No other EIP and no other service changes.

  The EIPs are new or have a consistent status, none of them records the service before, and there is no semicolon
  in the name and namespace of the service. Services that leave the choice of the EIP to the controller are not covered.
\<close>

theorem LB_Reconcile_assigns:
  assumes "api_laws C V U" and "all_inv V w" and "U w (ns, name) = Some svc" and "awaits svc eip"
    and "CHR '';'' \<notin> set ns" and "CHR '';'' \<notin> set name" and "free_of V w (NamespacedName ns name)"
    and "LB_Reconcile C N ns name w = (Ok (), w')"
  shows "\<exists>e e' s' addr. V w eip = Some e \<and> V w' = (V w)(eip \<mapsto> e') \<and> eip_kept e e' \<and>
    holders e' = insert (addr, NamespacedName ns name) (holders e) \<and> U w' = (U w)((ns, name) \<mapsto> s') \<and>
    s_ingress s' = Some [\<lparr>ing_IP = addr, ing_Hostname = []\<rparr>] \<and> svc_marked eip svc s'"
  using LB_first_assign [OF assms] by metis

section \<open>A settled service is left alone\<close>

lemma LB_settled:
  assumes "api_laws C V U" and "all_inv V w" and "U w (ns, name) = Some s"
    and "\<not> HasOpenELBNPAnnotation (m_annotations (s_meta s))" and "\<not> needRelease s"
    and "mget (nmap (m_annotations (s_meta s))) OpenELBEIPAnnotationKeyV1Alpha2 = Some eip" and "eip \<noteq> []"
    and "mget (nmap (m_annotations (s_meta s))) OpenELBEIPAnnotationKey = None" and "s_loadBalancerIP s = []"
    and "mget (nmap (m_labels (s_meta s))) OpenELBEIPAnnotationKeyV1Alpha2 \<noteq> None" and "status_ips s = addr"
    and "V w eip = Some e" and "\<not> e_deleting e" and "(addr, NamespacedName ns name) \<in> holders e"
    and "\<forall>m e a. V w m = Some e \<longrightarrow> (a, NamespacedName ns name) \<in> holders e \<longrightarrow> m = eip \<and> a = addr"
    and "LB_Reconcile C N ns name w = (r, w')"
  shows "V w' = V w \<and> U w' = U w"
proof -
  have laws: "eip_store C V" "service_store C U" "stores_apart C V U" using assms(1) by (simp_all add: api_laws_def)
  obtain x w1 where g: "cGetService C ns name w = (x, w1)" by force
  note get = service_store_get [OF laws(2) g]
  have w1: "V w1 = V w" "U w1 = U w" using apart_run(6) [OF laws(3) g] get(1) by auto
  show ?thesis
  proof (cases x)
    case (Ok s1)
    then have s1: "s1 = s" "svc_key s = (ns, name)" using get(2) assms(3) by auto
    obtain ann where ann: "m_annotations (s_meta s) = Some ann" using assms(6) by (cases "m_annotations (s_meta s)") auto
    obtain y w2 where al: "getAllocatedEIPInfo C (NamespacedName ns name) w1 = (y, w2)" by force
    note w2 = getAllocatedEIPInfo_apart [OF assms(1) al]
    have inv: "all_inv V w1" using assms(2) all_inv_same [OF w1(1)] by simp
    have "ConstructRequest C s w1 = (case y of Ok _ \<Rightarrow> Ok empty_Request | Err z \<Rightarrow> Err z | Panic z \<Rightarrow> Panic z, w2)"
    proof (cases y)
      case (Ok na)
      obtain n a where na: "na = (n, a)" by force
      have "\<exists>e'. V w1 n = Some e' \<and> \<not> e_deleting e' \<and> (a, NamespacedName ns name) \<in> holders e'"
        by (rule allocated_info(2) [OF laws(1) inv al [unfolded Ok na], of eip e addr]) (use assms(12-14) w1 in simp_all)
      then have "n = eip" "a = addr" using assms(15) w1 by auto
      then show ?thesis
        using al s1(2) ann assms(5-11) Ok na by (simp add: ConstructRequest_def Let_def needUpdate_def)
    qed (use al s1(2) ann in \<open>simp_all add: ConstructRequest_def Let_def\<close>)
    then show ?thesis
      using assms(4,16) g Ok s1 w1 w2 by (cases y) (auto simp: LB_Reconcile_def empty_Request_def)
  qed (use assms(16) g w1 in \<open>auto simp: LB_Reconcile_def split: if_splits\<close>)
qed

text \<open>
  (C26) Reconciliation converges: when the reconciliation of a service that waits for an address of an EIP it names by
  annotation, without asking for a particular address, has succeeded, the next reconciliation writes neither
  an EIP nor a service, whatever its outcome. The EIPs are as in the property of the assignment. A service that
  leaves the choice of the EIP to the controller is not covered: it may be given another EIP later.
\<close>

theorem LB_Reconcile_converges:
  assumes "api_laws C V U" and "all_inv V w" and "U w (ns, name) = Some svc" and "awaits svc eip"
    and "CHR '';'' \<notin> set ns" and "CHR '';'' \<notin> set name" and "free_of V w (NamespacedName ns name)"
    and "mget (nmap (m_annotations (s_meta svc))) OpenELBEIPAnnotationKey = None" and "s_loadBalancerIP svc = []"
    and "LB_Reconcile C N ns name w = (Ok (), w1)" and "LB_Reconcile C N ns name w1 = (r, w2)"
  shows "V w2 = V w1 \<and> U w2 = U w1"
proof -
  note aw = awaitsD [OF assms(4)]
  obtain e e' s' addr where V1: "V w eip = Some e" "V w1 = (V w)(eip \<mapsto> e')"
    and h: "holders e' = insert (addr, NamespacedName ns name) (holders e)" and nd: "\<not> e_deleting e'"
    and U1: "U w1 = (U w)((ns, name) \<mapsto> s')" and ing: "s_ingress s' = Some [\<lparr>ing_IP = addr, ing_Hostname = []\<rparr>]"
    and lb: "svc_marked eip svc s'"
    and res: "svc_result svc (assigned eip svc\<lparr>s_ingress := Some [\<lparr>ing_IP = addr, ing_Hostname = []\<rparr>]\<rparr>) s'"
    by (rule LB_first_assign [OF assms(1-7,10)])
  have same: "m_annotations (s_meta s') = m_annotations (s_meta svc)" "s_type s' = s_type svc"
    "s_loadBalancerIP s' = s_loadBalancerIP svc" "m_deletionTimestamp (s_meta s') = m_deletionTimestamp (s_meta svc)"
    using res by (simp_all add: svc_result_def)
  have inv1: "all_inv V w1" by (rule LB_keeps_inv [OF assms(1,3) aw(1) assms(5,6,2,10)])
  have s: "U w1 (ns, name) = Some s'" "V w1 eip = Some e'" using U1 V1 by simp_all
  have st: "status_ips s' = addr" by (simp add: status_ips_def ing)
  have "needRelease s' = needRelease svc" by (simp only: needRelease_def same)
  then have nr: "\<not> needRelease s'" using aw(2) by simp
  have uniq: "\<forall>m e a. V w1 m = Some e \<longrightarrow> (a, NamespacedName ns name) \<in> holders e \<longrightarrow> m = eip \<and> a = addr"
    using assms(7) V1 h by (auto simp: free_of_def split: if_splits)
  show ?thesis
    by (rule LB_settled [OF assms(1) inv1 s(1) _ nr _ aw(4) _ _ _ st s(2) nd _ uniq assms(11)])
      (use aw(1,3) assms(8,9) same lb h in \<open>simp_all add: svc_marked_def\<close>)
qed

section \<open>A service gives up its address before it disappears\<close>

lemma ReleaseIP_missing:
  assumes "eip_store C V" and "V w (sr_Eip r) = None" and "ReleaseIP C (Some r) w = (Ok (), w')"
  shows "V w' = V w"
proof -
  obtain x w1 where g: "cGetEip C (sr_Eip r) w = (x, w1)" by force
  have z: "releaseIPFromEip (sr_Key r) zero_Eip = zero_Eip" by (simp add: releaseIPFromEip_def zero_Eip_def zero_EipStatus_def)
  show ?thesis
  proof (cases x)
    case (Ok e)
    then show ?thesis using eip_store_get(1) [OF assms(1)] g assms(2) by auto
  next
    case (Err y)
    then have "w' = w1" using assms(3) g z by (auto simp: ReleaseIP_def Let_def split: if_splits)
    then show ?thesis using eip_store_get_err(1) [OF assms(1)] g Err by simp
  qed (use assms(3) g in \<open>simp add: ReleaseIP_def\<close>)
qed

text \<open>No EIP that stays holds the key.\<close>

definition given_up :: "('w \<Rightarrow> string \<Rightarrow> Eip option) \<Rightarrow> 'w \<Rightarrow> string \<Rightarrow> bool" where
  "given_up V w key \<longleftrightarrow> (\<forall>m e a. V w m = Some e \<longrightarrow> \<not> e_deleting e \<longrightarrow> (a, key) \<notin> holders e)"

lemma not_holds_given_up:
  assumes "eip_store C V" and "cListEips C w = (Ok eips, w')"
  shows "holds_somewhere eips key \<longleftrightarrow> \<not> given_up V w key"
proof -
  have "e \<in> set eips" if "V w m = Some e" for m e
    using that eip_store_list(3) [OF assms, of m] by (auto simp: find_Some_iff)
  then show ?thesis
    using listed_stored [OF assms] unfolding holds_somewhere_def given_up_def by blast
qed

text \<open>Every service has its address in one EIP at most, and the status of the EIPs is well formed.\<close>

definition one_holder :: "('w \<Rightarrow> string \<Rightarrow> Eip option) \<Rightarrow> 'w \<Rightarrow> string \<Rightarrow> bool" where
  "one_holder V w key \<longleftrightarrow>
     (\<forall>m e. V w m = Some e \<longrightarrow> gomap_wf (used_of e) \<and> svcs_distinct e \<and> m \<noteq> []) \<and>
     (\<forall>m m' e e' a a'. V w m = Some e \<longrightarrow> V w m' = Some e' \<longrightarrow>
        (a, key) \<in> holders e \<longrightarrow> (a', key) \<in> holders e' \<longrightarrow> m = m')"

lemma ReleaseIP_gives_up:
  assumes "eip_store C V" and "one_holder V w key" and "ReleaseIP C (Some r) w = (Ok (), w')" and "sr_Key r = key"
    and "if given_up V w key then sr_Eip r = []
         else \<exists>e a. V w (sr_Eip r) = Some e \<and> \<not> e_deleting e \<and> (a, key) \<in> holders e"
  shows "given_up V w' key"
proof (cases "given_up V w key")
  case True
  then have "V w (sr_Eip r) = None" using assms(2,5) by (cases "V w []") (auto simp: one_holder_def)
  from ReleaseIP_missing [OF assms(1) this assms(3)] show ?thesis using True by (simp add: given_up_def)
next
  case False
  then obtain e a where e: "V w (sr_Eip r) = Some e" "\<not> e_deleting e" "(a, key) \<in> holders e" using assms(5) by auto
  have wf: "gomap_wf (used_of e)" "svcs_distinct e" using assms(2) e(1) by (auto simp: one_holder_def)
  obtain e' where e': "V w' (sr_Eip r) = Some e'" "holders e' = {(a, s) \<in> holders e. s \<noteq> key}"
    "\<forall>m. m \<noteq> sr_Eip r \<longrightarrow> V w' m = V w m"
    using ReleaseIP_Ok [OF assms(1) e(1) wf e(2) assms(3)] assms(4) by blast
  show ?thesis
    unfolding given_up_def
  proof (intro allI impI)
    fix m f b assume f: "V w' m = Some f" "\<not> e_deleting f"
    show "(b, key) \<notin> holders f"
    proof (cases "m = sr_Eip r")
      case True
      then show ?thesis using f e' by simp
    next
      case False
      then have "V w m = Some f" using f e'(3) by simp
      then show ?thesis using assms(2) e(1,3) False unfolding one_holder_def by blast
    qed
  qed
qed

text \<open>
  (C4) A service that is deleted, is no longer of type LoadBalancer or lost its annotation gives up its address: when
  its reconciliation succeeds, or has made the service disappear from the store, no EIP that stays records
  the service any more. At most one EIP recorded it, and no EIP records a service twice for an address.

  The exception is a service without any annotations, whose map of annotations is nil: it is to be released too, but
  its reconciliation writes neither an EIP nor a service, so that its EIP keeps recording it. This is recorded
  as a finding.
\<close>

theorem LB_Reconcile_releases:
  assumes "api_laws C V U" and "U w (ns, name) = Some svc"
    and "\<not> HasOpenELBNPAnnotation (m_annotations (s_meta svc))" and "needRelease svc"
    and "one_holder V w (NamespacedName ns name)"
    and "LB_Reconcile C N ns name w = (r, w')" and "r = Ok () \<or> U w' (ns, name) = None"
  shows "if m_annotations (s_meta svc) = None then V w' = V w \<and> U w' = U w
    else given_up V w' (NamespacedName ns name)"
proof -
  let ?key = "NamespacedName ns name"
  have st: "eip_store C V" using assms(1) by (simp add: api_laws_def)
  obtain w1 req w2 where c: "ConstructRequest C svc w1 = (Ok req, w2)" and W: "V w1 = V w" "V w2 = V w" "U w2 = U w"
    and k: "svc_key svc = (ns, name)"
    and run: "(if Release req = None \<and> Allocate req = None then (Ok (), w2)
      else andThen (lb_release C svc (Release req) w2) (\<lambda>(clone, statusIPs) w.
        andThen (lb_assign C svc (Allocate req) clone statusIPs w) (\<lambda>(clone, statusIPs) w.
          updateReconcileResult C svc (clone\<lparr>s_ingress := statusIPs\<rparr>) w))) = (r, w')"
    using LB_Reconcile_OkE [OF assms(1-3,6,7)] by blast
  have "V w' = V w \<and> U w' = U w" if "m_annotations (s_meta svc) = None"
    using c run W that by (auto simp: ConstructRequest_def empty_Request_def)
  moreover have "given_up V w' ?key" if ann: "m_annotations (s_meta svc) \<noteq> None"
  proof -
    obtain eips w3 where l: "cListEips C w1 = (Ok eips, w3)"
      using c ann by (auto simp: ConstructRequest_def getAllocatedEIPInfo_def Let_def res_simps)
    have wf: "\<forall>e\<in>set eips. gomap_wf (used_of e) \<and> e_name e \<noteq> []"
      using listed_stored [OF st l] W(1) assms(5) by (auto simp: one_holder_def)
    have key: "?key = NamespacedName (m_namespace (s_meta svc)) (m_name (s_meta svc))" using k by simp
    note req = ConstructRequest_release [OF ann assms(4) l wf c key]
    have hs: "holds_somewhere eips ?key \<longleftrightarrow> \<not> given_up V w ?key"
      using not_holds_given_up [OF st l, of ?key] W(1) by (simp add: given_up_def)
    show ?thesis
    proof (cases "Release req")
      case None
      then have "w' = w2" "given_up V w ?key" using req run hs by simp_all
      then show ?thesis using W(2) by (simp add: given_up_def)
    next
      case (Some rec)
      have rk: "sr_Key rec = ?key" using req Some by simp
      have gu: "given_up V w2 ?key = given_up V w ?key" using W(2) by (simp add: given_up_def)
      have re: "if given_up V w2 ?key then sr_Eip rec = []
           else \<exists>e a. V w2 (sr_Eip rec) = Some e \<and> \<not> e_deleting e \<and> (a, ?key) \<in> holders e"
      proof (cases "given_up V w ?key")
        case True
        then show ?thesis using req Some hs gu by simp
      next
        case False
        then obtain e where "e \<in> set eips" "\<not> e_deleting e" "e_name e = sr_Eip rec" "(sr_IP rec, ?key) \<in> holders e"
          using req Some hs by auto
        then show ?thesis using listed_stored [OF st l, of e] W gu False by auto
      qed
      obtain x w4 where rl: "ReleaseIP C (Some rec) w2 = (x, w4)" by force
      have U4: "U w4 = U w" using ReleaseIP_apart [OF assms(1) rl] W(3) by simp
      have x: "x = Ok ()"
        using run Some rl assms(2,7) U4 api_event(2) [OF assms(1)] by (cases x) (auto simp: lb_release_def)
      have "one_holder V w2 ?key" using assms(5) W(2) by (simp add: one_holder_def)
      then have "given_up V w4 ?key" using ReleaseIP_gives_up [OF st _ rl [unfolded x] rk re] by blast
      moreover have "V w' = V w4"
        using run Some rl x req updateReconcileResult_apart [OF assms(1)] api_event(1) [OF assms(1)]
        by (auto simp: lb_release_def lb_assign_def)
      ultimately show ?thesis by (simp add: given_up_def)
    qed
  qed
  ultimately show ?thesis by simp
qed


section \<open>Concrete runs\<close>

definition sample_lb_mem :: mem where
  "sample_lb_mem = empty_mem\<lparr>mEips := [sample_pool], mServices := [sample_service]\<rparr>"

lemma sample_lb_facts:
  "mem_service sample_lb_mem (''ns'', ''web'') = Some sample_service" "all_inv mem_eip sample_lb_mem"
  "awaits sample_service ''a''" "free_of mem_eip sample_lb_mem (NamespacedName ''ns'' ''web'')"
proof -
  show "mem_service sample_lb_mem (''ns'', ''web'') = Some sample_service"
    by (simp add: mem_service_def sample_lb_mem_def sample_service_def)
  have eip: "mem_eip sample_lb_mem m = (if m = ''a'' then Some sample_pool else None)" for m
    by (simp add: mem_eip_def sample_lb_mem_def sample_pool_def)
  have "holders sample_pool = {}" using sample_pool_usable(3) by (simp add: holders_def)
  then show "all_inv mem_eip sample_lb_mem" "free_of mem_eip sample_lb_mem (NamespacedName ''ns'' ''web'')"
    using sample_pool_inv by (auto simp: all_inv_def eip_settled_def free_of_def eip split: if_splits)
  show "awaits sample_service ''a''" by code_simp
qed

lemma sample_lb_run:
  obtains w' where "LB_Reconcile mem_client mem_np ''ns'' ''web'' sample_lb_mem = (Ok (), w')"
proof -
  have "fst (LB_Reconcile mem_client mem_np ''ns'' ''web'' sample_lb_mem) = Ok ()" by code_simp
  then show ?thesis using that by (metis prod.collapse)
qed

theorem LB_Reconcile_keeps_inv_witness:
  "\<exists>w'. LB_Reconcile mem_client mem_np ''ns'' ''web'' sample_lb_mem = (Ok (), w') \<and> all_inv mem_eip w'"
proof -
  obtain w' where run: "LB_Reconcile mem_client mem_np ''ns'' ''web'' sample_lb_mem = (Ok (), w')" by (rule sample_lb_run)
  have "all_inv mem_eip w'"
    by (rule LB_Reconcile_keeps_inv [OF mem_api_laws sample_lb_facts(1) awaitsD(1) [OF sample_lb_facts(3)] _ _ sample_lb_facts(2) run])
      simp_all
  then show ?thesis using run by blast
qed

theorem LB_Reconcile_assigns_witness:
  "\<exists>w' e' s' addr. LB_Reconcile mem_client mem_np ''ns'' ''web'' sample_lb_mem = (Ok (), w') \<and>
     mem_eip w' ''a'' = Some e' \<and> (addr, ''ns/web'') \<in> holders e' \<and> mem_service w' (''ns'', ''web'') = Some s' \<and>
     s_ingress s' = Some [\<lparr>ing_IP = addr, ing_Hostname = []\<rparr>]"
proof -
  obtain w' where run: "LB_Reconcile mem_client mem_np ''ns'' ''web'' sample_lb_mem = (Ok (), w')" by (rule sample_lb_run)
  have k: "NamespacedName ''ns'' ''web'' = ''ns/web''" by (simp add: NamespacedName_def)
  from LB_Reconcile_assigns [OF mem_api_laws sample_lb_facts(2,1,3) _ _ sample_lb_facts(4) run]
  show ?thesis using run unfolding k by fastforce
qed

theorem LB_Reconcile_converges_witness:
  "\<exists>w1 w2 r. LB_Reconcile mem_client mem_np ''ns'' ''web'' sample_lb_mem = (Ok (), w1) \<and>
     LB_Reconcile mem_client mem_np ''ns'' ''web'' w1 = (r, w2) \<and> mem_eip w2 = mem_eip w1 \<and> mem_service w2 = mem_service w1"
proof -
  obtain w1 where run: "LB_Reconcile mem_client mem_np ''ns'' ''web'' sample_lb_mem = (Ok (), w1)" by (rule sample_lb_run)
  obtain r w2 where run2: "LB_Reconcile mem_client mem_np ''ns'' ''web'' w1 = (r, w2)" by force
  have "mget (nmap (m_annotations (s_meta sample_service))) OpenELBEIPAnnotationKey = None" "s_loadBalancerIP sample_service = []"
    by code_simp+
  from LB_Reconcile_converges [OF mem_api_laws sample_lb_facts(2,1,3) _ _ sample_lb_facts(4) this run run2] run run2
  show ?thesis by auto
qed

definition sample_leaving :: Service where
  "sample_leaving = sample_service\<lparr>s_meta := (s_meta sample_service)\<lparr>m_finalizers := [FinalizerName],
     m_deletionTimestamp := Some 1\<rparr>\<rparr>"

definition sample_leaving_mem :: mem where
  "sample_leaving_mem = empty_mem\<lparr>mEips := [sample_used], mServices := [sample_leaving]\<rparr>"

lemma sample_leaving_facts:
  "mem_service sample_leaving_mem (''ns'', ''web'') = Some sample_leaving"
  "\<not> HasOpenELBNPAnnotation (m_annotations (s_meta sample_leaving))" "needRelease sample_leaving"
  "m_annotations (s_meta sample_leaving) \<noteq> None" "s_deleting sample_leaving"
  "FinalizerName \<in> set (m_finalizers (s_meta sample_leaving))"
  "mget (nmap (m_labels (s_meta sample_leaving))) OpenELBEIPAnnotationKeyV1Alpha2 = None"
  by (simp add: mem_service_def sample_leaving_mem_def sample_leaving_def sample_service_def) code_simp+

lemma sample_leaving_run:
  obtains w' where "LB_Reconcile mem_client mem_np ''ns'' ''web'' sample_leaving_mem = (Ok (), w')"
proof -
  have "fst (LB_Reconcile mem_client mem_np ''ns'' ''web'' sample_leaving_mem) = Ok ()" by code_simp
  then show ?thesis using that by (metis prod.collapse)
qed

theorem LB_Reconcile_releases_witness:
  "\<exists>w'. LB_Reconcile mem_client mem_np ''ns'' ''web'' sample_leaving_mem = (Ok (), w') \<and> given_up mem_eip w' ''ns/web'' \<and>
     \<not> given_up mem_eip sample_leaving_mem ''ns/web''"
proof -
  obtain w' where run: "LB_Reconcile mem_client mem_np ''ns'' ''web'' sample_leaving_mem = (Ok (), w')"
    by (rule sample_leaving_run)
  have k: "NamespacedName ''ns'' ''web'' = ''ns/web''" by (simp add: NamespacedName_def)
  have eip: "mem_eip sample_leaving_mem m = (if m = ''a'' then Some sample_used else None)" for m
    by (simp add: mem_eip_def sample_leaving_mem_def sample_used_def sample_pool_def)
  have u: "used_of sample_used = [(''192.168.0.100'', ''ns/web'')]" "\<not> e_deleting sample_used"
    using sample_pool_usable(1) by (simp_all add: sample_used_def)
  then have one: "one_holder mem_eip sample_leaving_mem (NamespacedName ''ns'' ''web'')"
    by (auto simp: one_holder_def eip svcs_distinct_def split: if_splits)
  have "\<not> given_up mem_eip sample_leaving_mem ''ns/web''" using u by (auto simp: given_up_def eip holders_def)
  then show ?thesis
    using LB_Reconcile_releases [OF mem_api_laws sample_leaving_facts(1-3) one run] sample_leaving_facts(4) run
    unfolding k by auto
qed

end
