(* ===== verification/Cluster.thy ===== *)
theory Cluster
  imports LBController
begin

text \<open>
  The control plane as a whole. The users, the admission webhook, the address manager and the two
  controllers act on the stored EIPs in any order; \<open>cluster\<close> is the set of the states they can reach.

  Each step is one read and one write of an EIP, which the API server refuses when the EIP has changed in
  between; this is the grain at which concurrent reconciliations interleave. The lemmas
  \<open>LB_Reconcile_cluster\<close> and \<open>EIP_Reconcile_cluster\<close> show that a reconciliation of \<open>pkg/controllers/lb\<close> or
  \<open>pkg/controllers/ipam\<close>, with every outcome, is a sequence of these steps.

  Two hypotheses on the API server are named here: \<open>eip_atomic\<close>, a write that fails stores nothing, and
  \<open>np_apart\<close>, calls on nodes, pods and workloads do not touch the EIPs. The admission of an EIP and
  its storing are two events between which anything but the storing of another new EIP may happen: two
  admissions that run at the same time do not see each other's EIPs, and then nothing keeps them apart.
  EIPs of both families take part in all steps; that no address is given out twice is shown for IPv4.
\<close>

section \<open>The API server\<close>

definition eip_atomic :: "'w client \<Rightarrow> ('w \<Rightarrow> string \<Rightarrow> Eip option) \<Rightarrow> bool" where
  "eip_atomic C V \<longleftrightarrow>
     (\<forall>e w r w'. cUpdateEipStatus C e w = (r, w') \<and> \<not> is_Ok r \<longrightarrow> V w' = V w) \<and>
     (\<forall>e w r w'. cUpdateEip C e w = (r, w') \<and> \<not> is_Ok r \<longrightarrow> V w' = V w)"

lemma eip_atomicD:
  assumes "eip_atomic C V"
  shows "cUpdateEipStatus C e w = (r, w') \<Longrightarrow> \<not> is_Ok r \<Longrightarrow> V w' = V w" "cUpdateEip C e w = (r, w') \<Longrightarrow> \<not> is_Ok r \<Longrightarrow> V w' = V w"
  using assms unfolding eip_atomic_def by blast+

definition np_apart :: "'w client \<Rightarrow> 'w np_client \<Rightarrow> ('w \<Rightarrow> string \<Rightarrow> Eip option) \<Rightarrow> bool" where
  "np_apart C N V \<longleftrightarrow>
     (\<forall>k ns n w. V (snd (nGetWorkload N k ns n w)) = V w) \<and> (\<forall>x w. V (snd (nDeleteWorkload N x w)) = V w) \<and>
     (\<forall>x w. V (snd (nUpdateWorkload N x w)) = V w) \<and> (\<forall>x w. V (snd (nCreateWorkload N x w)) = V w) \<and>
     (\<forall>x w. V (snd (nUpdateNode N x w)) = V w) \<and> (\<forall>ns n w. V (snd (nGetConfigMap N ns n w)) = V w) \<and>
     (\<forall>ns l p w. V (snd (nListPods N ns l p w)) = V w) \<and> (\<forall>w. V (snd (cListNodes C w)) = V w)"

lemma mem_eip_atomic: "eip_atomic mem_client mem_eip"
  by (auto simp: eip_atomic_def mem_client_def mem_put_eip_def Let_def split: option.splits if_splits)

section \<open>Calls as runs of steps\<close>

text \<open>A call moves the view \<open>V\<close> of the world by steps of \<open>S\<close>, whatever its outcome.\<close>

definition moves :: "('v \<Rightarrow> 'v \<Rightarrow> bool) \<Rightarrow> ('w \<Rightarrow> 'v) \<Rightarrow> 'w \<Rightarrow> 'a \<times> 'w \<Rightarrow> bool" where
  "moves S V w m \<longleftrightarrow> S\<^sup>*\<^sup>* (V w) (V (snd m))"

named_theorems moves_intros

lemma moves_quiet: "V (snd m) = V w \<Longrightarrow> moves S V w m"
  by (simp add: moves_def)

lemma moves_ret [moves_intros]: "moves S V w (r, w)"
  by (simp add: moves_def)

lemma moves_case [moves_intros]:
  "moves S V w m \<Longrightarrow> (\<And>r v. moves S V v (f r v)) \<Longrightarrow> moves S V w (case m of (r, v) \<Rightarrow> f r v)"
  by (cases m) (auto simp: moves_def intro: rtranclp_trans)

lemma moves_then [moves_intros]:
  assumes "moves S V w m" and "\<And>a v. moves S V v (k a v)"
  shows "moves S V w (andThen m k)"
  using assms by (cases m; cases "fst m") (auto simp: moves_def andThen_def intro: rtranclp_trans)

lemma moves_branches [moves_intros]:
  "(\<And>x. moves S V w (f x)) \<Longrightarrow> (\<And>e. moves S V w (g e)) \<Longrightarrow> (\<And>p. moves S V w (h p)) \<Longrightarrow>
     moves S V w (case r of Ok x \<Rightarrow> f x | Err e \<Rightarrow> g e | Panic p \<Rightarrow> h p)"
  "moves S V w n \<Longrightarrow> (\<And>x. moves S V w (f' x)) \<Longrightarrow> moves S V w (case z of None \<Rightarrow> n | Some x \<Rightarrow> f' x)"
  "moves S V w m \<Longrightarrow> moves S V w m' \<Longrightarrow> moves S V w (if b then m else m')"
  "(\<And>x y. moves S V w (g' x y w)) \<Longrightarrow> moves S V w ((case c of (x, y) \<Rightarrow> g' x y) w)"
  by (simp_all split: res.splits option.splits prod.splits)

section \<open>A proxied service leaves the EIPs alone\<close>

lemma np_moves:
  assumes "np_apart C N V"
  shows "moves S V w (nGetWorkload N k ns n w)" "moves S V w (nDeleteWorkload N x w)"
    "moves S V w (nUpdateWorkload N x w)" "moves S V w (nCreateWorkload N x w)" "moves S V w (nUpdateNode N y w)"
    "moves S V w (nGetConfigMap N ns n w)" "moves S V w (nListPods N ns l p w)" "moves S V w (cListNodes C w)"
  using assms by (auto simp: np_apart_def intro: moves_quiet)

lemma api_moves:
  assumes "api_laws C V U"
  shows "moves S V w (cUpdateService C s w)" "moves S V w (cGetService C ns n w)" "moves S V w (cGetEip C n w)"
    "moves S V w (updateReconcileResult C svc svc' w)" "moves S V w (ConstructRequest C svc w)"
proof -
  have "stores_apart C V U" using assms by (simp add: api_laws_def)
  then show "moves S V w (cUpdateService C s w)" "moves S V w (cGetService C ns n w)"
    using stores_apartD(6,7) [of C V U] by (auto intro: moves_quiet)
  show "moves S V w (updateReconcileResult C svc svc' w)" "moves S V w (ConstructRequest C svc w)" "moves S V w (cGetEip C n w)"
    by (rule moves_quiet; metis updateReconcileResult_apart ConstructRequest_apart api_get assms prod.collapse)+
qed

lemma label_addresses_moves: "np_apart C N V \<Longrightarrow> moves S V w (label_addresses N node nas ext intl w)"
proof (induction nas arbitrary: node ext intl w)
  case (Cons x nas)
  show ?case unfolding label_addresses.simps by (intro moves_intros np_moves [OF Cons.prems] Cons.IH Cons.prems)
qed (simp add: moves_intros)

lemma label_nodes_moves: "np_apart C N V \<Longrightarrow> moves S V w (label_nodes N nodes ext intl w)"
proof (induction nodes arbitrary: ext intl w)
  case (Cons x nodes)
  show ?case
    unfolding label_nodes.simps
    by (intro moves_intros label_addresses_moves [OF Cons.prems] Cons.IH [OF Cons.prems])
qed (simp add: moves_intros)

lemma newProxyResc_moves:
  assumes "np_apart C N V"
  shows "moves S V w (newProxyResc C N svc w)"
  unfolding newProxyResc_def newProxyDe_def newProxyDs_def newProxyPoTepl_def newProxyCtn_def newForwardCtn_def
    getForwardImage_def getProxyImage_def getNPConfig_def
  by (cases "proxy_kind svc"; cases "the (proxy_kind svc)") (auto intro!: moves_intros np_moves [OF assms])

lemma reconcileNP_moves:
  assumes "api_laws C V U" and "np_apart C N V"
  shows "moves S V w (reconcileNP C N svc w)"
proof -
  note prims = np_moves [OF assms(2)] api_moves [OF assms(1)] newProxyResc_moves [OF assms(2)] label_nodes_moves [OF assms(2)]
  have e: "moves S V w (expose_pods C N svc ext intl w)" for svc ext intl w
    unfolding expose_pods_def Let_def by (intro moves_intros prims)
  have k: "moves S V w (ensure_kind C N svc kind ext intl w)" for svc kind ext intl w
    unfolding ensure_kind_def by (intro moves_intros prims e)
  have "moves S V w (remove_kind N kind ns name w)" for kind ns name w
    unfolding remove_kind_def by (intro moves_intros prims)
  note prims = prims this k
  show ?thesis
    unfolding reconcileNP_def reconcileNPNormal_def reconcileNPDelete_def by (intro moves_intros prims)
qed

section \<open>Steps on the stored EIPs\<close>

text \<open>
  A new EIP, with an empty status, was admitted by the webhook in a world \<open>w\<close> and is stored now; no EIP has been
  stored anew since (\<open>none_added\<close>). A user edits its specification and
  metadata, again past the webhook; metadata changes, as by a deletion request or a change of the finalizers;
  an EIP disappears; its status is written by an assignment, a release or the synchronisation.
\<close>

definition status_from :: "Eip \<Rightarrow> Eip \<Rightarrow> Eip \<Rightarrow> bool" where
  "status_from e c e' \<longleftrightarrow> e_name e' = e_name e \<and> e_spec e' = e_spec e \<and> e_status e' = e_status c"

definition none_added :: "(string \<Rightarrow> Eip option) \<Rightarrow> (string \<Rightarrow> Eip option) \<Rightarrow> bool" where
  "none_added s0 s \<longleftrightarrow>
     (\<forall>m e. s m = Some e \<longrightarrow> (\<exists>e0. s0 m = Some e0 \<and> e_name e0 = e_name e \<and> Address (e_spec e0) = Address (e_spec e)))"

inductive cluster_step ::
    "'w client \<Rightarrow> ('w \<Rightarrow> string \<Rightarrow> Eip option) \<Rightarrow> (string \<Rightarrow> Eip option) \<Rightarrow> (string \<Rightarrow> Eip option) \<Rightarrow> bool"
  for C V where
  admit: "ValidateCreate C e w = (Ok (), w') \<Longrightarrow> none_added (V w) s \<Longrightarrow> e_status e = zero_EipStatus \<Longrightarrow> s (e_name e) = None \<Longrightarrow>
    cluster_step C V s (s(e_name e \<mapsto> e))"
| edit: "s m = Some e \<Longrightarrow> ValidateUpdate C e' e w = (Ok (), w') \<Longrightarrow> e_name e' = e_name e \<Longrightarrow>
    e_status e' = e_status e \<Longrightarrow> cluster_step C V s (s(m \<mapsto> e'))"
| metadata: "s m = Some e \<Longrightarrow> status_from e e e' \<Longrightarrow> cluster_step C V s (s(m \<mapsto> e'))"
| gone: "cluster_step C V s (s(m := None))"
| assign: "s m = Some e \<Longrightarrow> assignIPFromEip (Some r) e = (Ok addr, c) \<Longrightarrow> status_from e c e' \<Longrightarrow>
    cluster_step C V s (s(m \<mapsto> e'))"
| release: "s m = Some e \<Longrightarrow> status_from e (releaseIPFromEip k e) e' \<Longrightarrow> cluster_step C V s (s(m \<mapsto> e'))"
| sync: "s m = Some e \<Longrightarrow> updateEip C e w = (Ok c, w') \<Longrightarrow> status_from e c e' \<Longrightarrow> cluster_step C V s (s(m \<mapsto> e'))"

section \<open>The reconciliations consist of these steps\<close>

lemma status_write:
  assumes "eip_store C V" and "eip_atomic C V" and "cUpdateEipStatus C c w = (r, w')"
    and "V w (e_name e) = Some e" and "e_name c = e_name e"
    and "\<And>e'. status_from e c e' \<Longrightarrow> cluster_step C V (V w) ((V w)(e_name e \<mapsto> e'))"
  shows "(cluster_step C V)\<^sup>*\<^sup>* (V w) (V w')"
proof (cases r)
  case (Ok e')
  note st = eip_store_update [OF assms(1) assms(3) [unfolded Ok]]
  have "status_from e c e'" using st assms(4,5) by (auto simp: status_from_def)
  then show ?thesis using assms(5,6) st(1) by auto
next
  case (Err x)
  then have "V w' = V w" using eip_atomicD(1) [OF assms(2,3)] by simp
  then show ?thesis by simp
next
  case (Panic p)
  then have "V w' = V w" using eip_atomicD(1) [OF assms(2,3)] by simp
  then show ?thesis by simp
qed

lemma assign_meta:
  assumes "assignIPFromEip (Some r) e = (x, c)"
  shows "e_meta c = e_meta e"
proof -
  have "e_meta c = e_meta e" if "assign_loop r fixed off e = (x, c)" for fixed off x c e
    using that
  proof (induction r fixed off e rule: assign_loop.induct)
    case (1 r fixed off e)
    show ?case
      using 1(2) by (subst (asm) assign_loop.simps)
        (auto simp: Let_def dest: 1(1) split: if_splits option.splits res.splits)
  qed
  then show ?thesis using assms by (auto simp: assignIPFromEip_def Let_def split: if_splits option.splits)
qed

lemma AssignIP_steps:
  assumes "api_laws C V U" and "eip_atomic C V"
  shows "moves (cluster_step C V) V w (AssignIP C fams a w)"
proof (cases a)
  case (Some r)
  have st: "eip_store C V" using assms(1) by (simp add: api_laws_def)
  obtain x w1 where g: "cGetEip C (sr_Eip r) w = (x, w1)" by force
  have V1: "V w1 = V w" using api_get [OF assms(1) g] by simp
  show ?thesis
  proof (cases x)
    case (Ok e)
    have e: "V w1 (e_name e) = Some e" using eip_store_get [OF st] g Ok V1 by auto
    have put: "moves (cluster_step C V) V w1 (y, w2)"
      if asg: "assignIPFromEip (Some r) e = (Ok addr, c)" and u: "cUpdateEipStatus C c w1 = (z, w2)" for addr c z w2 and y :: "svcRecord option res"
      using status_write [OF st assms(2) u e _ cluster_step.assign [where s = "V w1", OF e asg]] assign_meta [OF asg]
      by (simp add: moves_def)
    have "moves (cluster_step C V) V w1 (AssignIP C fams a w)"
      unfolding AssignIP_def Some option.case g Ok
      by (auto intro!: moves_intros put simp: andThen_def split: res.splits option.splits prod.splits)
    then show ?thesis using V1 by (simp add: moves_def)
  qed (use g V1 in \<open>simp_all add: AssignIP_def Some moves_def\<close>)
qed (simp add: AssignIP_def moves_intros)

lemma ReleaseIP_steps:
  assumes "api_laws C V U" and "eip_atomic C V"
  shows "moves (cluster_step C V) V w (ReleaseIP C a w)"
proof (cases a)
  case (Some r)
  have st: "eip_store C V" using assms(1) by (simp add: api_laws_def)
  obtain x w1 where g: "cGetEip C (sr_Eip r) w = (x, w1)" by force
  have V1: "V w1 = V w" using api_get [OF assms(1) g] by simp
  show ?thesis
  proof (cases x)
    case (Ok e)
    let ?c = "releaseIPFromEip (sr_Key r) e"
    have e: "V w1 (e_name e) = Some e" using eip_store_get [OF st] g Ok V1 by auto
    obtain z w2 where u: "cUpdateEipStatus C ?c w1 = (z, w2)" by force
    have "e_name ?c = e_name e" by (simp add: releaseIPFromEip_def)
    then have "moves (cluster_step C V) V w1 (cUpdateEipStatus C ?c w1)"
      using status_write [OF st assms(2) u e _ cluster_step.release [where s = "V w1", OF e]] u by (simp add: moves_def)
    then have "moves (cluster_step C V) V w1 (ReleaseIP C a w)"
      by (auto simp: ReleaseIP_def Some g Ok Let_def intro!: moves_intros)
    then show ?thesis using V1 by (simp add: moves_def)
  next
    case (Err y)
    have "releaseIPFromEip k zero_Eip = zero_Eip" for k by (simp add: releaseIPFromEip_def zero_Eip_def zero_EipStatus_def)
    then show ?thesis using g V1 Err by (simp add: ReleaseIP_def Some moves_def)
  qed (use g V1 in \<open>simp add: ReleaseIP_def Some moves_def\<close>)
qed (simp add: ReleaseIP_def moves_intros)

lemma event_moves:
  assumes "api_laws C V U"
  shows "moves S V w (r, cEvent C obj t rs msg w)"
  by (simp add: moves_def api_event [OF assms])

lemma lb_steps:
  assumes "api_laws C V U" and "eip_atomic C V"
  shows "moves (cluster_step C V) V w (lb_release C svc rel w)"
    and "moves (cluster_step C V) V w (lb_assign C svc al clone ips w)"
proof -
  have upd: "moves S V w (case updateReconcileResult C svc x (cEvent C obj t rs msg w) of (r, v) \<Rightarrow> f r v)"
    if "\<And>r v. moves S V v (f r v)" for S x obj t rs msg w and f :: "unit res \<Rightarrow> 'a \<Rightarrow> 'b \<times> 'a"
    by (rule moves_case [OF _ that]) (use api_moves(4) [OF assms(1), of S "cEvent C obj t rs msg w" svc x] in \<open>simp add: moves_def api_event [OF assms(1)]\<close>)
  note steps = moves_intros AssignIP_steps [OF assms] ReleaseIP_steps [OF assms] event_moves [OF assms(1)] upd
  show "moves (cluster_step C V) V w (lb_release C svc rel w)"
    unfolding lb_release_def by (intro steps)
  show "moves (cluster_step C V) V w (lb_assign C svc al clone ips w)"
    unfolding lb_assign_def Let_def by (intro steps)
qed

lemma LB_Reconcile_cluster:
  assumes "api_laws C V U" and "eip_atomic C V" and "np_apart C N V"
  shows "moves (cluster_step C V) V w (LB_Reconcile C N ns name w)"
  unfolding LB_Reconcile_def
  by (intro moves_intros api_moves [OF assms(1)] reconcileNP_moves [OF assms(1,3)] lb_steps [OF assms(1,2)])

lemma eip_write:
  assumes "eip_store C V" and "eip_atomic C V" and "cUpdateEip C x w = (r, w')"
    and "V w (e_name e) = Some e" and "e_name x = e_name e" and "e_spec x = e_spec e"
  shows "(cluster_step C V)\<^sup>*\<^sup>* (V w) (V w')"
proof (cases "is_Ok r")
  case True
  then obtain e' where r: "r = Ok e'" by (cases r) auto
  note p = eip_store_put [OF assms(1) assms(3) [unfolded r]]
  have f: "status_from e e e'" using p assms(4-6) by (auto simp: status_from_def)
  have "cluster_step C V (V w) (V w')"
    using p(1) assms(5) cluster_step.metadata [where s = "V w" and C = C and V = V, OF assms(4) f]
      cluster_step.gone [of C V "V w" "e_name e"] by (auto simp: stored_def split: if_splits)
  then show ?thesis by blast
next
  case False
  then show ?thesis using eip_atomicD(2) [OF assms(2,3)] by simp
qed

lemma updateEip_moves:
  assumes "stores_apart C V U"
  shows "moves S V w (updateEip C e w)"
proof -
  have s: "moves S V w (sync_svcs C svcs acc w)" for svcs acc w
    by (rule moves_quiet) (metis sync_svcs_apart [OF assms] prod.collapse)
  have "moves S V w (sync_used C m used w)" for m used w
  proof (induction m arbitrary: used w)
    case (Cons kv m)
    obtain k v where "kv = (k, v)" by force
    then show ?case by (auto intro!: moves_intros s Cons.IH)
  qed (simp add: moves_intros)
  then show ?thesis unfolding updateEip_def syncEip_def by (intro moves_intros)
qed

lemma removeEip_moves:
  assumes "stores_apart C V U"
  shows "moves S V w (removeEip C e w)"
proof -
  have "moves S V w (unlabel_services C svcs w)" for svcs w
    by (induction svcs arbitrary: w)
      (auto intro!: moves_intros moves_quiet [of V "cUpdateService C _ _"] simp: stores_apartD [OF assms])
  then show ?thesis
    unfolding removeEip_def by (intro moves_intros moves_quiet [of V "cListServicesByLabel C _ _ _"]) (simp add: stores_apartD [OF assms])
qed

lemma updateEip_meta: "updateEip C e w = (Ok c, w') \<Longrightarrow> e_meta c = e_meta e"
  by (auto simp: updateEip_def syncEip_def init_status_def res_simps Let_def split_beta split: if_splits)

text \<open>The part of the reconciliation that follows the addition of the finalizer.\<close>

lemma sync_steps:
  assumes "api_laws C V U" and "eip_atomic C V" and "V w (e_name e) = Some e"
  shows "moves (cluster_step C V) V w
    (case updateEip C e w of
       (Panic p, w) \<Rightarrow> (Panic p, w)
     | (Err x, w) \<Rightarrow> (Err x, cEvent C (EipRef (e_name e)) EventTypeWarning reason (msg x) w)
     | (Ok clone, w) \<Rightarrow>
         if DeepEqual_status (e_status clone) (e_status e) then (Ok (), w)
         else andThen (cUpdateEipStatus C clone w) (\<lambda>_ w. (Ok (), w)))"
proof -
  have st: "eip_store C V" "stores_apart C V U" using assms(1) by (simp_all add: api_laws_def)
  obtain x w1 where u: "updateEip C e w = (x, w1)" by force
  have q: "V w1 = V w"
    using updateEip_moves [OF st(2), where S = "\<lambda>_ _. False", of w e] u by (auto simp: moves_def elim: converse_rtranclpE)
  have "moves (cluster_step C V) V w1 (cUpdateEipStatus C c w1)" if "x = Ok c" for c
  proof -
    have n: "e_name c = e_name e" using updateEip_meta u that by metis
    obtain z w2 where z: "cUpdateEipStatus C c w1 = (z, w2)" by force
    have e: "V w1 (e_name e) = Some e" using assms(3) q by simp
    show ?thesis
      using status_write [OF st(1) assms(2) z e n cluster_step.sync [where s = "V w1", OF e u [unfolded that]]] z
      by (simp add: moves_def)
  qed
  then have "moves (cluster_step C V) V w1 (case x of
       Panic p \<Rightarrow> (Panic p, w1)
     | Err x \<Rightarrow> (Err x, cEvent C (EipRef (e_name e)) EventTypeWarning reason (msg x) w1)
     | Ok clone \<Rightarrow>
         if DeepEqual_status (e_status clone) (e_status e) then (Ok (), w1)
         else andThen (cUpdateEipStatus C clone w1) (\<lambda>_ w. (Ok (), w)))"
    by (cases x) (auto intro!: moves_intros event_moves [OF assms(1)])
  then show ?thesis using q by (simp add: u moves_def)
qed

lemma EIP_Reconcile_cluster:
  assumes "api_laws C V U" and "eip_atomic C V"
  shows "moves (cluster_step C V) V w (EIP_Reconcile C name w)"
proof -
  have laws: "eip_store C V" "stores_apart C V U" using assms(1) by (simp_all add: api_laws_def)
  obtain x w1 where g: "cGetEip C name w = (x, w1)" by force
  have q: "V w1 = V w" using api_get [OF assms(1) g] by simp
  have meta: "moves (cluster_step C V) V v (cUpdateEip C (e\<lparr>e_meta := f (e_meta e)\<rparr>) v)"
    if "V v (e_name e) = Some e" "m_name (f (e_meta e)) = e_name e" for v e f
    using eip_write [OF laws(1) assms(2) _ that(1), of "e\<lparr>e_meta := f (e_meta e)\<rparr>" "fst (cUpdateEip C (e\<lparr>e_meta := f (e_meta e)\<rparr>) v)"] that(2)
    by (simp add: moves_def)
  have "moves (cluster_step C V) V w1 (EIP_Reconcile C name w)"
  proof (cases x)
    case (Ok e)
    have e: "V w1 (e_name e) = Some e" using eip_store_get [OF laws(1)] g Ok q by auto
    show ?thesis
    proof (cases "IsDeletionCandidate (e_meta e) IPAMFinalizerName")
      case True
      obtain y w2 where y: "removeEip C e w1 = (y, w2)" by force
      have "V w2 = V w1"
        using removeEip_moves [OF laws(2), where S = "\<lambda>_ _. False", of w1 e] y by (auto simp: moves_def elim: converse_rtranclpE)
      then have "moves (cluster_step C V) V w2 (cUpdateEip C (e\<lparr>e_meta := RemoveFinalizer IPAMFinalizerName (e_meta e)\<rparr>) w2)"
        using meta e by (simp add: RemoveFinalizer_def)
      then have "moves (cluster_step C V) V w2 (EIP_Reconcile C name w)"
        using True y by (cases y) (auto simp: EIP_Reconcile_def g Ok intro!: moves_intros)
      then show ?thesis using \<open>V w2 = V w1\<close> by (simp add: moves_def)
    next
      case False
      let ?fin = "if NeedToAddFinalizer (e_meta e) IPAMFinalizerName
        then cUpdateEip C (e\<lparr>e_meta := AddFinalizer IPAMFinalizerName (e_meta e)\<rparr>) w1 else (Ok e, w1)"
      obtain z w2 where f: "?fin = (z, w2)" by force
      have "moves (cluster_step C V) V w1 ?fin"
        using meta [OF e, of "AddFinalizer IPAMFinalizerName"] by (simp add: AddFinalizer_def moves_intros)
      then have m: "(cluster_step C V)\<^sup>*\<^sup>* (V w1) (V w2)" using f by (simp add: moves_def)
      have "moves (cluster_step C V) V w2 (EIP_Reconcile C name w)"
      proof (cases z)
        case (Ok e2)
        have "V w2 (e_name e2) = Some e2"
        proof (cases "NeedToAddFinalizer (e_meta e) IPAMFinalizerName")
          case True
          then have nd: "\<not> e_deleting e" by (simp add: NeedToAddFinalizer_def)
          then show ?thesis
            using finalizer_step(1,2) [OF laws(1) _ laws(2) f [unfolded Ok] e nd] assms(1) by (simp add: api_laws_def)
        qed (use f Ok e in simp)
        then show ?thesis
          using sync_steps [OF assms(1,2)] \<open>x = Ok e\<close> False Ok f by (simp add: EIP_Reconcile_def g)
      qed (use False f \<open>x = Ok e\<close> in \<open>simp_all add: EIP_Reconcile_def g moves_intros\<close>)
      then show ?thesis using m by (auto simp: moves_def)
    qed
  qed (use g in \<open>simp_all add: EIP_Reconcile_def moves_intros\<close>)
  then show ?thesis using q by (simp add: moves_def)
qed

section \<open>The invariant of the stored EIPs\<close>

lemma Address_cong:
  assumes "Address (e_spec b) = Address (e_spec a)"
  shows "GetSize b = GetSize a" "v4_eip b = v4_eip a" "pool_numbers b = pool_numbers a" "sized b base n = sized a base n"
  using assms by (simp_all add: GetSize_def v4_eip_def pool_numbers_def sized_def)

lemma eip_settled_cong:
  assumes "Address (e_spec b) = Address (e_spec a)" and "e_status b = e_status a"
  shows "eip_settled b = eip_settled a"
  using assms by (simp add: eip_settled_def eip_fresh_def eip_inv_def Address_cong [OF assms(1)])

text \<open>
  Every EIP is stored under its name; an IPv4 EIP is new or initialised, and no two IPv4 EIPs have a common address.
\<close>

definition cluster_inv :: "(string \<Rightarrow> Eip option) \<Rightarrow> bool" where
  "cluster_inv s \<longleftrightarrow>
     (\<forall>m e. s m = Some e \<longrightarrow> e_name e = m \<and> (v4_eip e \<longrightarrow> eip_settled e)) \<and>
     (\<forall>m m' e e'. s m = Some e \<and> s m' = Some e' \<and> m \<noteq> m' \<and> v4_eip e \<and> v4_eip e' \<longrightarrow> pool_numbers e \<inter> pool_numbers e' = {})"

lemma cluster_invD:
  "cluster_inv s \<Longrightarrow> s m = Some e \<Longrightarrow> e_name e = m"
  "cluster_inv s \<Longrightarrow> s m = Some e \<Longrightarrow> v4_eip e \<Longrightarrow> eip_settled e"
  "cluster_inv s \<Longrightarrow> s m = Some e \<Longrightarrow> s m' = Some e' \<Longrightarrow> m \<noteq> m' \<Longrightarrow> v4_eip e \<Longrightarrow> v4_eip e' \<Longrightarrow>
     pool_numbers e \<inter> pool_numbers e' = {}"
  unfolding cluster_inv_def by blast+

lemma cluster_inv_put:
  assumes "cluster_inv s" and "s m = Some e" and "e_name e' = e_name e" and "Address (e_spec e') = Address (e_spec e)"
    and "v4_eip e \<Longrightarrow> eip_settled e'"
  shows "cluster_inv (s(m \<mapsto> e'))"
  unfolding cluster_inv_def
proof (intro conjI allI impI)
  fix k f assume "(s(m \<mapsto> e')) k = Some f"
  then show "e_name f = k" "v4_eip f \<Longrightarrow> eip_settled f"
    using cluster_invD(1,2) [OF assms(1)] assms(2,3,5) Address_cong(2) [OF assms(4)] by (auto split: if_splits)
next
  fix k k' f f' assume "(s(m \<mapsto> e')) k = Some f \<and> (s(m \<mapsto> e')) k' = Some f' \<and> k \<noteq> k' \<and> v4_eip f \<and> v4_eip f'"
  then show "pool_numbers f \<inter> pool_numbers f' = {}"
    using assms(2) Address_cong(2,3) [OF assms(4)] cluster_invD(3) [OF assms(1)] by (simp split: if_splits; metis)
qed

lemma cluster_inv_status:
  assumes "cluster_inv s" and "s m = Some e" and "status_from e c e'"
    and "v4_eip e \<Longrightarrow> eip_settled c \<and> e_spec c = e_spec e"
  shows "cluster_inv (s(m \<mapsto> e'))"
  using cluster_inv_put [OF assms(1,2), of e'] eip_settled_cong [of e' c] assms(3,4) by (simp add: status_from_def)

lemma ValidateUpdate_Address: "ValidateUpdate C e old w = (Ok (), w') \<Longrightarrow> Address (e_spec e) = Address (e_spec old)"
  by (auto simp: ValidateUpdate_def res_simps DeepEqual_spec_def split: if_splits)

lemma assign_spec:
  assumes "eip_settled e" and "assignIPFromEip (Some r) e = (Ok addr, c)"
  shows "eip_settled c \<and> e_spec c = e_spec e"
proof -
  obtain base n where "eip_inv e base n" "eip_inv c base n" by (rule assign_settled [OF assms])
  moreover have "e_spec c = e_spec e"
    using assign_outcome [OF \<open>eip_inv e base n\<close> assms(2)] by auto
  ultimately show ?thesis by (auto simp: eip_settled_def)
qed

lemma admit_apart:
  assumes "ValidateCreate C e w = (Ok (), w')" and "eip_store C V" and "none_added (V w) s"
    and "s m = Some f" and "m \<noteq> e_name e" and "e_name f = m" and "v4_eip e" and "v4_eip f"
  shows "pool_numbers e \<inter> pool_numbers f = {}"
proof -
  obtain eips where l: "cListEips C w = (Ok eips, w')" and ov: "validateOverlap e eips = Ok ()"
    using ValidateCreate_Ok [OF assms(1)] by blast
  obtain f0 where f0: "V w m = Some f0" "e_name f0 = m" and a: "Address (e_spec f) = Address (e_spec f0)"
    using assms(3,4,6) unfolding none_added_def by metis
  have "f0 \<in> set eips"
    using eip_store_list(3) [OF assms(2) l, of m] f0(1) by (auto simp: find_Some_iff2)
  then have "\<not> IsOverlap e f0" using ov f0(2) assms(5) by (auto simp: validateOverlap_Ok)
  then show ?thesis
    using IsOverlap_v4 [of e f0] assms(7,8) Address_cong(2,3) [OF a] by simp
qed

lemma cluster_inv_step:
  assumes "cluster_step C V s t" and "eip_store C V" and "service_store C U" and "cluster_inv s"
  shows "cluster_inv t"
  using assms(1)
proof cases
  case (admit e w w')
  have "pool_numbers e \<inter> pool_numbers f = {}" if "s m = Some f" "m \<noteq> e_name e" "v4_eip e" "v4_eip f" for m f
    using admit_apart [OF admit(2) assms(2) admit(3)] cluster_invD(1) [OF assms(4)] that by blast
  note new = this and old = cluster_invD(3) [OF assms(4)]
  have "v4_eip e \<Longrightarrow> eip_settled e" using admit(4) by (simp add: eip_settled_def eip_fresh_def zero_EipStatus_def)
  then have "e_name f = k \<and> (v4_eip f \<longrightarrow> eip_settled f)" if "t k = Some f" for k f
    using that cluster_invD(1,2) [OF assms(4), of k f] by (auto simp: admit(1) split: if_splits)
  moreover have "pool_numbers f \<inter> pool_numbers f' = {}"
    if "t k = Some f" "t k' = Some f'" "k \<noteq> k'" "v4_eip f" "v4_eip f'" for k k' f f'
    using that new [of k f] new [of k' f'] old [of k f k' f'] unfolding admit(1)
    by (simp add: Int_commute split: if_splits)
  ultimately show ?thesis unfolding cluster_inv_def by blast
next
  case (edit m e e' w w')
  have a: "Address (e_spec e') = Address (e_spec e)" by (rule ValidateUpdate_Address [OF edit(3)])
  show ?thesis
    unfolding edit(1) using cluster_inv_put [OF assms(4) edit(2,4) a] eip_settled_cong [OF a edit(5)] cluster_invD(2) [OF assms(4) edit(2)] by simp
next
  case (metadata m e e')
  then show ?thesis using cluster_inv_status [OF assms(4), of m e e e'] cluster_invD(2) [OF assms(4)] by simp
next
  case (gone m)
  then have "s k = Some f" if "t k = Some f" for k f using that by (simp split: if_splits)
  then show ?thesis using assms(4) unfolding cluster_inv_def by blast
next
  case (assign m e r addr c e')
  show ?thesis
    unfolding assign(1) by (rule cluster_inv_status [OF assms(4) assign(2,4)])
      (rule assign_spec [OF cluster_invD(2) [OF assms(4) assign(2)] assign(3)])
next
  case (release m e k e')
  have "e_spec (releaseIPFromEip k e) = e_spec e" by (simp add: releaseIPFromEip_def)
  then show ?thesis
    unfolding release(1)
    using cluster_inv_status [OF assms(4) release(2,3)] release_settled cluster_invD(2) [OF assms(4) release(2)] by blast
next
  case (sync m e w c w' e')
  show ?thesis
    unfolding sync(1)
  proof (rule cluster_inv_status [OF assms(4) sync(2,4)])
    assume "v4_eip e"
    then have "eip_fresh e \<or> (\<exists>base n. eip_pre e base n)"
      using cluster_invD(2) [OF assms(4) sync(2)] eip_inv_pre unfolding eip_settled_def by blast
    then have "(\<exists>base n. eip_inv c base n) \<and> e_spec c = e_spec e"
      using updateEip_Ok(1,5) [OF assms(3) sync(3)] by blast
    then show "eip_settled c \<and> e_spec c = e_spec e" by (auto simp: eip_settled_def)
  qed
qed

lemma cluster_inv_reach:
  assumes "(cluster_step C V)\<^sup>*\<^sup>* s t" and "eip_store C V" and "service_store C U" and "cluster_inv s"
  shows "cluster_inv t"
  using assms(1,4) by (induction rule: rtranclp_induct) (auto intro: cluster_inv_step [OF _ assms(2,3)])

lemma cluster_inv_used:
  assumes "cluster_inv s" and "s m = Some e" and "v4_eip e" and "a \<in> mkeys (used_of e)"
  shows "IPToBigInt (net_ParseIP a) \<in> pool_numbers e"
proof -
  have st: "eip_settled e" using cluster_invD(2) [OF assms(1-3)] .
  obtain base n where inv: "eip_inv e base n" using st assms(4) by (auto simp: eip_settled_def eip_fresh_def)
  have "mget (used_of e) a \<noteq> None" using assms(4) mget_key_iff by metis
  then show ?thesis using used_canonical(2) [OF inv] Contains_v4 [OF assms(3)] by blast
qed

section \<open>Correctness\<close>

text \<open>
  (C1) No IPv4 address is given out by two EIPs: whatever EIPs are created and edited past the admission webhook,
  deleted, assigned from, released to and synchronised, in any order from the empty cluster, an address
  that the status of an IPv4 EIP records as used belongs to the pool of that EIP and of no other IPv4 EIP, and no
  other IPv4 EIP records it.

  The order is any in which no other new EIP is stored between the admission of an EIP and its storing. IPv6 EIPs may be
  created and used beside, but nothing is claimed of their pools: those of wide CIDRs may overlap.
\<close>

theorem cluster_addresses_apart:
  assumes "eip_store C V" and "service_store C U" and "(cluster_step C V)\<^sup>*\<^sup>* Map.empty s"
    and "s m = Some e" and "v4_eip e" and "a \<in> mkeys (used_of e)"
  shows "Contains e (net_ParseIP a) \<and>
    (\<forall>m' e'. s m' = Some e' \<and> m' \<noteq> m \<and> v4_eip e' \<longrightarrow> \<not> Contains e' (net_ParseIP a) \<and> a \<notin> mkeys (used_of e'))"
proof -
  have inv: "cluster_inv s" by (rule cluster_inv_reach [OF assms(3,1,2)]) (simp add: cluster_inv_def)
  have a: "IPToBigInt (net_ParseIP a) \<in> pool_numbers e" by (rule cluster_inv_used [OF inv assms(4-6)])
  have "\<not> Contains e' (net_ParseIP a) \<and> a \<notin> mkeys (used_of e')" if o: "s m' = Some e'" "m' \<noteq> m" "v4_eip e'" for m' e'
  proof -
    have "IPToBigInt (net_ParseIP a) \<notin> pool_numbers e'"
      using cluster_invD(3) [OF inv assms(4) o(1) _ assms(5) o(3)] o(2) a by blast
    then show ?thesis using Contains_v4 [OF o(3)] cluster_inv_used [OF inv o(1,3)] by blast
  qed
  then show ?thesis using a Contains_v4 [OF assms(5)] by blast
qed

text \<open>
  (C39) The controllers implement the cluster: a reconciliation of a service and a reconciliation of an EIP, with
  any outcome and also when a call on the API server fails half way, change the stored EIPs by a sequence of
  the steps of the cluster only.
\<close>

theorem controllers_take_cluster_steps:
  assumes "api_laws C V U" and "eip_atomic C V" and "np_apart C N V"
  shows "(cluster_step C V)\<^sup>*\<^sup>* (V w) (V (snd (LB_Reconcile C N ns name w))) \<and>
    (cluster_step C V)\<^sup>*\<^sup>* (V w) (V (snd (EIP_Reconcile C eip w)))"
  using LB_Reconcile_cluster [OF assms] EIP_Reconcile_cluster [OF assms(1,2)] by (simp add: moves_def)

section \<open>Examples\<close>

text \<open>Two EIPs are created, and an address of the first is assigned after its initialisation.\<close>

abbreviation ex_a :: Eip where
  "ex_a \<equiv> sample_eip ''a'' ''192.168.0.100-192.168.0.103''"

definition ex_synced :: Eip where
  "ex_synced = ex_a\<lparr>e_status := zero_EipStatus\<lparr>PoolSize := 4, FirstIP := ''192.168.0.100'', LastIP := ''192.168.0.103'',
     V4 := True, Used := Some []\<rparr>\<rparr>"

definition ex_taken :: Eip where
  "ex_taken = upd_status (take_free (sample_request []) ''192.168.0.100'') ex_synced"

lemma ex_calls:
  "updateEip mem_client ex_a empty_mem = (Ok ex_synced, empty_mem)"
  "assignIPFromEip (Some (sample_request [])) ex_synced = (Ok ''192.168.0.100'', ex_taken)"
  by code_simp+

lemma ex_admit:
  "mem_eip empty_mem = Map.empty" "fst (ValidateCreate mem_client ex_a empty_mem) = Ok ()" "e_status ex_a = zero_EipStatus"
proof -
  show "mem_eip empty_mem = Map.empty" by (simp add: fun_eq_iff mem_eip_def empty_mem_def)
  show "fst (ValidateCreate mem_client ex_a empty_mem) = Ok ()" by code_simp
  show "e_status ex_a = zero_EipStatus" by (simp add: sample_eip_def zero_Eip_def)
qed

theorem cluster_addresses_apart_witness:
  "\<exists>s. (cluster_step mem_client mem_eip)\<^sup>*\<^sup>* Map.empty s \<and> s ''a'' = Some ex_taken \<and>
     ''192.168.0.100'' \<in> mkeys (used_of ex_taken) \<and> Contains ex_taken (net_ParseIP ''192.168.0.100'')"
proof -
  let ?S = "cluster_step mem_client mem_eip" and ?s = "[''a'' \<mapsto> ex_taken]"
  obtain w' where v: "ValidateCreate mem_client ex_a empty_mem = (Ok (), w')" using ex_admit(2) by (metis prod.collapse)
  have 1: "?S Map.empty [''a'' \<mapsto> ex_a]"
    using cluster_step.admit [of mem_client ex_a empty_mem w' mem_eip Map.empty, OF v _ ex_admit(3)] by (simp add: none_added_def)
  have 2: "?S [''a'' \<mapsto> ex_a] [''a'' \<mapsto> ex_synced]"
    using cluster_step.sync [of "[''a'' \<mapsto> ex_a]" "''a''" ex_a, OF _ ex_calls(1), of ex_synced]
    by (simp add: status_from_def ex_synced_def)
  have 3: "?S [''a'' \<mapsto> ex_synced] ?s"
    using cluster_step.assign [of "[''a'' \<mapsto> ex_synced]" "''a''" ex_synced, OF _ ex_calls(2), of ex_taken]
    by (simp add: status_from_def ex_taken_def)
  have run: "?S\<^sup>*\<^sup>* Map.empty ?s" using 1 2 3 by (meson rtranclp.rtrancl_into_rtrancl rtranclp.rtrancl_refl)
  have u: "''192.168.0.100'' \<in> mkeys (used_of ex_taken)"
    by (simp add: ex_taken_def ex_synced_def take_free_def Let_def gomap_simps)
  have v4: "v4_eip ex_taken" using sample_eips_v4(1) by (simp add: v4_eip_def ex_taken_def ex_synced_def GetSize_def)
  show ?thesis
    using cluster_addresses_apart [OF mem_eip_store mem_service_store run _ v4 u, of "''a''"] run u by (intro exI [of _ ?s]) simp
qed

lemma mem_np_apart: "np_apart mem_client mem_np mem_eip"
  by (auto simp: np_apart_def mem_np_def mem_client_def mem_eip_def fun_eq_iff split: option.splits prod.splits)

theorem controllers_take_cluster_steps_witness:
  "(cluster_step mem_client mem_eip)\<^sup>*\<^sup>* (mem_eip sample_lb_mem) (mem_eip (snd (LB_Reconcile mem_client mem_np ''ns'' ''web'' sample_lb_mem))) \<and>
   mem_eip sample_lb_mem ''a'' = Some sample_pool"
  using controllers_take_cluster_steps [OF mem_api_laws mem_eip_atomic mem_np_apart]
  by (simp add: sample_lb_mem_def mem_eip_def sample_pool_def)

end
