(* ===== verification/GoSet.thy ===== *)
theory GoSet
  imports Prelude
begin

text \<open>
  The sets of \<open>pkg/util/set/set.go\<close>, maps to an empty struct. \<open>set.Empty()\<close> is a nil map: it can be
  read, but adding to it panics. \<open>members\<close> abstracts a set to its elements; \<open>mapSet_refines\<close> shows
  that the operations are those of mathematical sets, \<open>Equals\<close> and \<open>ContainsAll\<close> included.
\<close>

type_synonym 'a mapSet = "('a, unit) gomap option"

definition set_New :: "'a mapSet" where
  "set_New = Some []"

definition set_Empty :: "'a mapSet" where
  "set_Empty = None"

definition set_Len :: "'a mapSet \<Rightarrow> nat" where
  "set_Len s = length (nmap s)"

fun set_Add :: "'a \<Rightarrow> 'a mapSet \<Rightarrow> 'a mapSet res" where
  "set_Add item None = Panic ''assignment to entry in nil map''"
| "set_Add item (Some m) = Ok (Some (mset_at item () m))"

fun set_AddAll :: "'a list \<Rightarrow> 'a mapSet \<Rightarrow> 'a mapSet res" where
  "set_AddAll [] s = Ok s"
| "set_AddAll (x # xs) s = bind_res (set_Add x s) (\<lambda>s. set_AddAll xs s)"

definition set_FromArray :: "'a list \<Rightarrow> 'a mapSet res" where
  "set_FromArray membersArray = set_AddAll membersArray set_New"

definition set_Discard :: "'a \<Rightarrow> 'a mapSet \<Rightarrow> 'a mapSet" where
  "set_Discard item s = mdel_opt item s"

definition set_Clear :: "'a mapSet \<Rightarrow> 'a mapSet" where
  "set_Clear s = foldl (\<lambda>s (item, _). mdel_opt item s) s (nmap s)"

definition set_Contains :: "'a \<Rightarrow> 'a mapSet \<Rightarrow> bool" where
  "set_Contains item s = (mget (nmap s) item \<noteq> None)"

text \<open>
  The result of a visitor: nil, \<open>StopIteration\<close>, \<open>RemoveItem\<close>, or another error, on which \<open>Iter\<close>
  panics. A visitor may change variables of its own, the state \<open>'s\<close>.
\<close>

datatype verdict = Go_on | StopIteration | RemoveItem | Failed string

fun iter_loop :: "('s \<Rightarrow> 'a \<Rightarrow> verdict \<times> 's) \<Rightarrow> ('a \<times> unit) list \<Rightarrow> 's \<Rightarrow> 'a mapSet \<Rightarrow> ('s \<times> 'a mapSet) res" where
  "iter_loop visitor [] st s = Ok (st, s)"
| "iter_loop visitor ((item, _) # items) st s =
     (case visitor st item of
        (StopIteration, st) \<Rightarrow> Ok (st, s)
      | (RemoveItem, st) \<Rightarrow> iter_loop visitor items st (mdel_opt item s)
      | (Go_on, st) \<Rightarrow> iter_loop visitor items st s
      | (Failed e, st) \<Rightarrow> Panic (''Unexpected iteration error: '' @ e))"

definition set_Iter :: "('s \<Rightarrow> 'a \<Rightarrow> verdict \<times> 's) \<Rightarrow> 's \<Rightarrow> 'a mapSet \<Rightarrow> ('s \<times> 'a mapSet) res" where
  "set_Iter visitor st s = iter_loop visitor (nmap s) st s"

definition set_Copy :: "'a mapSet \<Rightarrow> 'a mapSet res" where
  "set_Copy s = set_AddAll (map fst (nmap s)) set_New"

definition set_Equals :: "'a mapSet \<Rightarrow> 'a mapSet \<Rightarrow> bool" where
  "set_Equals s other =
     (if set_Len s \<noteq> set_Len other then False
      else list_all (\<lambda>(item, _). set_Contains item other) (nmap s))"

definition set_ContainsAll :: "'a mapSet \<Rightarrow> 'a mapSet \<Rightarrow> bool res" where
  "set_ContainsAll s other =
     bind_res
       (set_Iter (\<lambda>result item. if \<not> set_Contains item s then (StopIteration, False) else (Go_on, result)) True other)
       (\<lambda>(result, _). Ok result)"

section \<open>Sets of elements\<close>

definition members :: "'a mapSet \<Rightarrow> 'a set" where
  "members s = mkeys (nmap s)"

abbreviation set_wf :: "'a mapSet \<Rightarrow> bool" where
  "set_wf s \<equiv> gomap_wf (nmap s)"

lemma set_Contains_iff: "set_Contains x s \<longleftrightarrow> x \<in> members s"
  using mget_None_iff [of "nmap s" x] by (simp add: set_Contains_def members_def)

lemma set_AddAll_Some:
  "gomap_wf m \<Longrightarrow> \<exists>m'. set_AddAll xs (Some m) = Ok (Some m') \<and> gomap_wf m' \<and> mkeys m' = mkeys m \<union> set xs"
proof (induction xs arbitrary: m)
  case (Cons x xs)
  have "gomap_wf (mset_at x () m)" using Cons.prems by simp
  from Cons.IH [OF this] show ?case by (auto simp: gomap_simps)
qed simp

lemma set_FromArray_members: "\<exists>s. set_FromArray xs = Ok s \<and> set_wf s \<and> members s = set xs"
  using set_AddAll_Some [of "[]" xs] by (auto simp: set_FromArray_def set_New_def members_def)

lemma Clear_loop: "members (foldl (\<lambda>s (item, _). mdel_opt item s) s items) = members s - fst ` set items"
proof (induction items arbitrary: s)
  case (Cons it items)
  have "members (mdel_opt (fst it) s) = members s - {fst it}"
    by (cases s) (auto simp: mdel_opt_def members_def gomap_simps)
  then show ?case using Cons by (cases it) auto
qed simp

lemma ContainsAll_loop:
  "\<exists>s'. iter_loop (\<lambda>result item. if \<not> set_Contains item s then (StopIteration, False) else (Go_on, result)) items r t =
     Ok (r \<and> fst ` set items \<subseteq> members s, s') \<or> \<not> r"
proof (induction items)
  case (Cons it items)
  then show ?case by (cases it) (auto simp: set_Contains_iff)
qed simp

lemma members_card: "set_wf s \<Longrightarrow> set_Len s = card (members s)"
  using length_eq_card_mkeys [of "nmap s"] by (simp add: set_Len_def members_def)

lemma set_Equals_iff:
  assumes "set_wf s" and "set_wf t"
  shows "set_Equals s t \<longleftrightarrow> members s = members t"
proof
  show "members s = members t" if "set_Equals s t"
  proof -
    have "members s \<subseteq> members t" "card (members s) = card (members t)"
      using that members_card [OF assms(1)] members_card [OF assms(2)]
      by (auto simp: set_Equals_def list_all_iff set_Contains_iff members_def split: if_splits)
    then show ?thesis by (intro card_subset_eq) (simp_all add: members_def)
  qed
  show "set_Equals s t" if "members s = members t"
    using that members_card [OF assms(1)] members_card [OF assms(2)]
    by (auto simp: set_Equals_def list_all_iff set_Contains_iff members_def) force
qed

lemma set_ContainsAll_iff: "set_ContainsAll s t = Ok (members t \<subseteq> members s)"
  using ContainsAll_loop [of s "nmap t" True t] by (auto simp: set_ContainsAll_def set_Iter_def members_def)

text \<open>
  (C31) The operations are those of mathematical sets: building a set from an array never panics and
  gives its elements, discarding and clearing remove, copying keeps the elements, \<open>Equals\<close> is equality
  of sets and \<open>ContainsAll\<close> is inclusion.
\<close>

theorem mapSet_refines:
  assumes "set_FromArray xs = Ok s" and "set_FromArray ys = Ok t"
  shows "members s = set xs \<and> members (set_Discard x s) = set xs - {x} \<and> members (set_Clear s) = {} \<and>
    (\<exists>c. set_Copy s = Ok c \<and> members c = set xs) \<and>
    set_Equals s t = (set xs = set ys) \<and> set_ContainsAll s t = Ok (set ys \<subseteq> set xs)"
proof -
  have s: "set_wf s" "members s = set xs" and t: "set_wf t" "members t = set ys"
    using set_FromArray_members [of xs] set_FromArray_members [of ys] assms by auto
  have "members (set_Discard x s) = set xs - {x}"
    using s(2) by (cases s) (auto simp: set_Discard_def mdel_opt_def members_def gomap_simps)
  moreover have "members (set_Clear s) = {}" using Clear_loop [of s "nmap s"] by (simp add: set_Clear_def members_def)
  moreover have "\<exists>c. set_Copy s = Ok c \<and> members c = set xs"
    using set_AddAll_Some [of "[]" "map fst (nmap s)"] s(2) by (auto simp: set_Copy_def set_New_def members_def)
  ultimately show ?thesis
    using s t set_Equals_iff [OF s(1) t(1)] set_ContainsAll_iff [of s t] by simp
qed

theorem mapSet_refines_witness:
  "\<exists>s t. set_FromArray [1 :: nat, 2, 2] = Ok s \<and> set_FromArray [2, 1] = Ok t \<and> set_Equals s t \<and> set_ContainsAll s t = Ok True"
proof -
  obtain s t where st: "set_FromArray [1 :: nat, 2, 2] = Ok s" "set_FromArray [2 :: nat, 1] = Ok t"
    using set_FromArray_members [of "[1 :: nat, 2, 2]"] set_FromArray_members [of "[2 :: nat, 1]"] by (elim exE conjE)
  from mapSet_refines [OF this, of 1] have "set_Equals s t \<and> set_ContainsAll s t = Ok True" by force
  with st show ?thesis by blast
qed

end
