(* ===== verification/Speaker.thy ===== *)
theory Speaker
  imports IPAM GoSet
begin

text \<open>
  The speaker side: \<open>pkg/speaker\<close> without its protocols.

  \<^item> \<open>Manager\<close> keeps the registered speakers and the pools it has announced; \<open>HandleEIP\<close>,
    \<open>HandleService\<close> and \<open>ResyncEIPSpeaker\<close> are its handlers, \<open>Start_loop\<close> its main loop on the events
    it waits for.
  \<^item> A \<open>speaker\<close> is the interface of \<open>interface.go\<close>, a record of operations on the world. An operation
    need not return: \<open>None\<close> is a call that waits forever.
  \<^item> What the manager relies on is the locale \<open>speaker_interface\<close> of \<open>Announce\<close>, interpreted on the
    keepalived speaker in \<open>Vip\<close>. The fake speaker of \<open>fake.go\<close> is at the end.
  \<^item> The requests of the two reconcilers of this process, \<open>lb_controller.go\<close> and \<open>eip_controller.go\<close>,
    and the interface helpers of \<open>utils.go\<close> follow.

  The iteration order of a Go map is the order of the entry list, which the theorems leave open.
\<close>

section \<open>Calls that may wait forever\<close>

definition thenTry ::
    "('a res \<times> 's) option \<Rightarrow> ('a \<Rightarrow> 's \<Rightarrow> ('b res \<times> 's) option) \<Rightarrow> ('b res \<times> 's) option" where
  "thenTry r k =
     (case r of
        None \<Rightarrow> None
      | Some (Ok a, s) \<Rightarrow> k a s
      | Some (Err e, s) \<Rightarrow> Some (Err e, s)
      | Some (Panic p, s) \<Rightarrow> Some (Panic p, s))"

text \<open>\<open>onErr r h\<close> runs \<open>h\<close> on the error of \<open>r\<close> before it is returned.\<close>

definition onErr :: "('a res \<times> 's) option \<Rightarrow> (error \<Rightarrow> 's \<Rightarrow> unit res \<times> 's) \<Rightarrow> ('a res \<times> 's) option" where
  "onErr r h =
     (case r of
        Some (Err e, s) \<Rightarrow>
          (case h e s of (Panic p, s) \<Rightarrow> Some (Panic p, s) | (_, s) \<Rightarrow> Some (Err e, s))
      | _ \<Rightarrow> r)"

lemma thenTry_simps [simp]:
  "thenTry None k = None" "thenTry (Some (Ok a, s)) k = k a s"
  "thenTry (Some (Err e, s)) k = Some (Err e, s)" "thenTry (Some (Panic p, s)) k = Some (Panic p, s)"
  by (simp_all add: thenTry_def)

lemma thenTry_Ok_iff [res_simps]:
  "thenTry r k = Some (Ok b, s') \<longleftrightarrow> (\<exists>a s. r = Some (Ok a, s) \<and> k a s = Some (Ok b, s'))"
  by (auto simp: thenTry_def split: option.splits res.splits)

lemma onErr_Ok_iff [res_simps]: "onErr r h = Some (Ok a, s) \<longleftrightarrow> r = Some (Ok a, s)"
  by (auto simp: onErr_def split: option.splits res.splits prod.splits)

definition nil_deref :: string where
  "nil_deref = ''invalid memory address or nil pointer dereference''"

section \<open>Types\<close>

record Config =
  cfg_Name :: string
  cfg_IPRange :: "Range option"
  cfg_Iface :: string

record 'w speaker =
  sp_SetBalancer :: "string \<Rightarrow> Node list \<Rightarrow> 'w \<Rightarrow> (unit res \<times> 'w) option"
  sp_DelBalancer :: "string \<Rightarrow> 'w \<Rightarrow> (unit res \<times> 'w) option"
  sp_ConfigureWithEIP :: "Config \<Rightarrow> bool \<Rightarrow> 'w \<Rightarrow> (unit res \<times> 'w) option"

text \<open>A cancel function is the number of the context it cancels.\<close>

record 'w speakerWithCancelFunc =
  sc_Speaker :: "'w speaker"
  sc_cancel :: "nat option"

text \<open>
  \<open>sm_contexts\<close> counts the contexts handed out, each of them to a goroutine that runs the \<open>Start\<close> of a
  speaker; \<open>sm_cancelled\<close> holds the cancelled ones.
\<close>

record 'w Manager =
  sm_speakers :: "(string, 'w speakerWithCancelFunc) gomap"
  sm_pools :: "(string, Eip) gomap"
  sm_contexts :: nat
  sm_cancelled :: "nat list"

definition NewSpeakerManager :: "'w Manager" where
  "NewSpeakerManager = \<lparr>sm_speakers = [], sm_pools = [], sm_contexts = 0, sm_cancelled = []\<rparr>"

section \<open>Speakers\<close>

definition cancel :: "'w speakerWithCancelFunc \<Rightarrow> 'w Manager \<Rightarrow> 'w Manager" where
  "cancel s M = (case sc_cancel s of None \<Rightarrow> M | Some c \<Rightarrow> M\<lparr>sm_cancelled := c # sm_cancelled M\<rparr>)"

definition cancel_registered :: "string \<Rightarrow> 'w Manager \<Rightarrow> 'w Manager" where
  "cancel_registered name M = (case mget (sm_speakers M) name of Some s \<Rightarrow> cancel s M | None \<Rightarrow> M)"

definition RegisterSpeaker :: "string \<Rightarrow> 'w speaker \<Rightarrow> 'w Manager \<Rightarrow> 'w Manager" where
  "RegisterSpeaker name speaker M =
     (let M = cancel_registered name M;
          s = \<lparr>sc_Speaker = speaker, sc_cancel = Some (sm_contexts M)\<rparr> in
      M\<lparr>sm_contexts := Suc (sm_contexts M), sm_speakers := mset_at name s (sm_speakers M)\<rparr>)"

definition UnRegisterSpeaker :: "string \<Rightarrow> 'w Manager \<Rightarrow> 'w Manager" where
  "UnRegisterSpeaker name M = (let M = cancel_registered name M in M\<lparr>sm_speakers := mdel name (sm_speakers M)\<rparr>)"

text \<open>
  The goroutine of a speaker whose \<open>Start\<close> fails cancels its context and sends the error to the
  manager. \<open>Start\<close> waits for the end of the program, an error of the controller manager on \<open>errCh\<close>
  or an error of a speaker on \<open>errChan\<close>; the clause for \<open>errCh\<close> is empty. \<open>None\<close> is a loop that still waits.
\<close>

datatype mgr_event = CtxDone | MgrFailed error | SpeakerFailed error

fun Start_loop :: "mgr_event list \<Rightarrow> 'w Manager \<Rightarrow> (unit res \<times> 'w Manager) option" where
  "Start_loop [] M = None"
| "Start_loop (CtxDone # events) M = Some (Ok (), M)"
| "Start_loop (MgrFailed err # events) M = Start_loop events M"
| "Start_loop (SpeakerFailed err # events) M = Some (Err err, foldl (\<lambda>M (_, s). cancel s M) M (sm_speakers M))"

section \<open>Next hops of an address\<close>

abbreviation PolicyLocal :: string where
  "PolicyLocal \<equiv> ''Local''"

definition active_nodes :: "Endpoints \<Rightarrow> (string, bool) gomap" where
  "active_nodes endpoints =
     foldl (\<lambda>active addr. case addr of None \<Rightarrow> active | Some n \<Rightarrow> mset_at n True active) []
       (concat (ep_subsets endpoints))"

abbreviation node_name :: "Node \<Rightarrow> string" where
  "node_name n \<equiv> m_name (n_meta n)"

definition add_nodes :: "Node list \<Rightarrow> (string, Node) gomap \<Rightarrow> (string, Node) gomap" where
  "add_nodes nodes nodeSets = foldl (\<lambda>sets node. mset_at (node_name node) node sets) nodeSets nodes"

definition next_hops :: "Node list \<Rightarrow> Service \<Rightarrow> Endpoints \<Rightarrow> (string, Node) gomap \<Rightarrow> (string, Node) gomap" where
  "next_hops nodeList svc endpoints nodeSets =
     (if s_externalTrafficPolicy svc = PolicyLocal then
        (let active = active_nodes endpoints in
         if active = [] then nodeSets
         else add_nodes (filter (\<lambda>node. mget active (node_name node) = Some True) nodeList) nodeSets)
      else add_nodes nodeList nodeSets)"

fun nodes_loop ::
    "'w client \<Rightarrow> Node list \<Rightarrow> string list \<Rightarrow> (string, Node) gomap \<Rightarrow> 'w \<Rightarrow> (string, Node) gomap res \<times> 'w" where
  "nodes_loop C nodeList [] nodeSets w = (Ok nodeSets, w)"
| "nodes_loop C nodeList (str # strs) nodeSets w =
     (case Split str (CHR ''/'') of
        [ns, n] \<Rightarrow>
          andThen (cGetService C ns n w) (\<lambda>svc w.
          andThen (cGetEndpoints C (m_namespace (s_meta svc)) (m_name (s_meta svc)) w) (\<lambda>endpoints w.
            nodes_loop C nodeList strs (next_hops nodeList svc endpoints nodeSets) w))
      | _ \<Rightarrow> nodes_loop C nodeList strs nodeSets w)"

definition getServiceNodes :: "'w client \<Rightarrow> string \<Rightarrow> 'w \<Rightarrow> Node list res \<times> 'w" where
  "getServiceNodes C svcs w =
     andThen (cListNodes C w) (\<lambda>nodeList w.
     andThen (nodes_loop C nodeList (Split svcs (CHR '';'')) [] w) (\<lambda>nodeSets w. (Ok (map snd nodeSets), w)))"

section \<open>Announcements\<close>

fun addSvcEventRecorder_loop ::
    "'w client \<Rightarrow> string list \<Rightarrow> string \<Rightarrow> string \<Rightarrow> string \<Rightarrow> 'w \<Rightarrow> unit res \<times> 'w" where
  "addSvcEventRecorder_loop C [] eventType reason msg w = (Ok (), w)"
| "addSvcEventRecorder_loop C (str # strs) eventType reason msg w =
     (case Split str (CHR ''/'') of
        [ns, n] \<Rightarrow>
          (case cGetService C ns n w of
             (Ok svc, w) \<Rightarrow>
               addSvcEventRecorder_loop C strs eventType reason msg (cEvent C (svc_ref svc) eventType reason msg w)
           | (Err e, w) \<Rightarrow> addSvcEventRecorder_loop C strs eventType reason msg w
           | (Panic p, w) \<Rightarrow> (Panic p, w))
      | _ \<Rightarrow> addSvcEventRecorder_loop C strs eventType reason msg w)"

definition addSvcEventRecorder ::
    "'w client \<Rightarrow> string \<Rightarrow> string \<Rightarrow> string \<Rightarrow> string \<Rightarrow> 'w \<Rightarrow> unit res \<times> 'w" where
  "addSvcEventRecorder C services eventType reason msg w =
     addSvcEventRecorder_loop C (Split services (CHR '';'')) eventType reason msg w"

text \<open>A method of a speaker the map does not have is a call on a nil interface.\<close>

definition with_speaker ::
    "'w Manager \<Rightarrow> string \<Rightarrow> ('w speaker \<Rightarrow> 'w \<Rightarrow> (unit res \<times> 'w) option) \<Rightarrow> 'w \<Rightarrow> (unit res \<times> 'w) option" where
  "with_speaker M protocol f w =
     (case mget (sm_speakers M) protocol of
        None \<Rightarrow> Some (Panic nil_deref, w)
      | Some s \<Rightarrow> f (sc_Speaker s) w)"

fun delBalancer ::
    "'w client \<Rightarrow> 'w Manager \<Rightarrow> string \<Rightarrow> (string, string) gomap \<Rightarrow> 'w \<Rightarrow> (unit res \<times> 'w) option" where
  "delBalancer C M protocol [] w = Some (Ok (), w)"
| "delBalancer C M protocol ((ip, svcs) # usage) w =
     thenTry
       (onErr (with_speaker M protocol (\<lambda>s. sp_DelBalancer s ip) w)
          (\<lambda>err w. addSvcEventRecorder C svcs EventTypeWarning ''DelBalancer'' (error_text err) w))
       (\<lambda>_ w.
         thenTry
           (Some (addSvcEventRecorder C svcs EventTypeNormal ''DelBalancer''
                    ''success to withdraw announcement for service'' w))
           (\<lambda>_ w. delBalancer C M protocol usage w))"

fun setBalancer ::
    "'w client \<Rightarrow> 'w Manager \<Rightarrow> string \<Rightarrow> (string, string) gomap \<Rightarrow> 'w \<Rightarrow> (unit res \<times> 'w) option" where
  "setBalancer C M protocol [] w = Some (Ok (), w)"
| "setBalancer C M protocol ((ip, svcs) # usage) w =
     thenTry (Some (getServiceNodes C svcs w)) (\<lambda>nodes w.
       if nodes = [] then
         thenTry
           (Some (addSvcEventRecorder C svcs EventTypeWarning ''SetBalancer''
                    (''no available nodes for service ip '' @ ip @ '':'' @ svcs) w))
           (\<lambda>_ w. setBalancer C M protocol usage w)
       else
         (let nodeNames = insertion_sort bytes_less (map node_name nodes) in
          thenTry
            (onErr (with_speaker M protocol (\<lambda>s. sp_SetBalancer s ip nodes) w)
               (\<lambda>err w. addSvcEventRecorder C svcs EventTypeWarning ''SetBalancer'' (error_text err) w))
            (\<lambda>_ w.
              thenTry
                (Some (addSvcEventRecorder C svcs EventTypeNormal ''SetBalancer''
                         (''success to add nexthops ['' @ Join nodeNames '', '' @ '']'') w))
                (\<lambda>_ w. setBalancer C M protocol usage w))))"

text \<open>The configuration of a speaker from the EIP, and the events about it.\<close>

definition configure ::
    "'w client \<Rightarrow> 'w Manager \<Rightarrow> Eip \<Rightarrow> bool \<Rightarrow> string \<Rightarrow> 'w \<Rightarrow> (unit res \<times> 'w) option" where
  "configure C M eip deleted word w =
     thenTry (Some (ParseRange (cAddressRange C) (Address (e_spec eip)), w)) (\<lambda>r w.
       let c = \<lparr>cfg_Name = e_name eip, cfg_IPRange = r, cfg_Iface = Interface (e_spec eip)\<rparr> in
       thenTry
         (onErr (with_speaker M (GetProtocol eip) (\<lambda>s. sp_ConfigureWithEIP s c deleted) w)
            (\<lambda>err w. (Ok (), cEvent C (EipRef (e_name eip)) EventTypeWarning ''ConfigSpeakerFailed'' (error_text err) w)))
         (\<lambda>_ w. Some (Ok (), cEvent C (EipRef (e_name eip)) EventTypeNormal ''ConfigSpeaker''
                   (word @ '' openelb '' @ GetProtocol eip @ '' speaker successfully'') w)))"

definition delBalancerWithEIP :: "'w client \<Rightarrow> 'w Manager \<Rightarrow> Eip \<Rightarrow> 'w \<Rightarrow> (unit res \<times> 'w) option" where
  "delBalancerWithEIP C M eip w =
     thenTry (delBalancer C M (GetProtocol eip) (nmap (Used (e_status eip))) w)
       (\<lambda>_ w. configure C M eip True ''unconfig'' w)"

definition setBalancerWithEIP :: "'w client \<Rightarrow> 'w Manager \<Rightarrow> Eip \<Rightarrow> 'w \<Rightarrow> (unit res \<times> 'w) option" where
  "setBalancerWithEIP C M eip w =
     thenTry (configure C M eip False ''config'' w)
       (\<lambda>_ w. setBalancer C M (GetProtocol eip) (nmap (Used (e_status eip))) w)"

section \<open>Handlers\<close>

definition isSpeakerConfigUpdate :: "EipSpec \<Rightarrow> EipSpec \<Rightarrow> bool" where
  "isSpeakerConfigUpdate old new =
     (if Protocol old \<noteq> Protocol new then True
      else if Protocol new \<noteq> OpenELBProtocolBGP \<and> Interface old \<noteq> Interface new then True
      else False)"

definition put_pool :: "Eip \<Rightarrow> 'w Manager \<Rightarrow> 'w Manager" where
  "put_pool eip M = M\<lparr>sm_pools := mset_at (e_name eip) eip (sm_pools M)\<rparr>"

definition del_pool :: "Eip \<Rightarrow> 'w Manager \<Rightarrow> 'w Manager" where
  "del_pool eip M = M\<lparr>sm_pools := mdel (e_name eip) (sm_pools M)\<rparr>"

text \<open>
  \<open>commit M r f\<close> applies \<open>f\<close> to the manager when \<open>r\<close> succeeded: the update of \<open>pools\<close> comes after the
  early returns.
\<close>

definition commit :: "'w Manager \<Rightarrow> (unit res \<times> 'w) option \<Rightarrow> ('w Manager \<Rightarrow> 'w Manager) \<Rightarrow>
    (unit res \<times> 'w Manager \<times> 'w) option" where
  "commit M r f =
     (case r of
        None \<Rightarrow> None
      | Some (Ok _, w) \<Rightarrow> Some (Ok (), f M, w)
      | Some (Err e, w) \<Rightarrow> Some (Err e, M, w)
      | Some (Panic p, w) \<Rightarrow> Some (Panic p, M, w))"

definition HandleEIP ::
    "'w client \<Rightarrow> Eip option \<Rightarrow> 'w Manager \<times> 'w \<Rightarrow> (unit res \<times> 'w Manager \<times> 'w) option" where
  "HandleEIP C eip0 st =
     (case (eip0, st) of
        (None, M, w) \<Rightarrow> Some (Ok (), M, w)
      | (Some eip, M, w) \<Rightarrow>
          if mget (sm_speakers M) (GetProtocol eip) = None then
            Some (Err (Errorf (''no registered speaker:['' @ GetProtocol eip @ ''] eip:['' @ e_name eip @ '']'')), M, w)
          else
            (case mget (sm_pools M) (e_name eip) of
               None \<Rightarrow> commit M (setBalancerWithEIP C M eip w) (put_pool eip)
             | Some oldData \<Rightarrow>
                 if e_deleting eip then commit M (delBalancerWithEIP C M oldData w) (del_pool eip)
                 else if isSpeakerConfigUpdate (e_spec eip) (e_spec oldData) then
                   thenTry (commit M (delBalancerWithEIP C M oldData w) (del_pool eip))
                     (\<lambda>_ (M, w). commit M (setBalancerWithEIP C M eip w) (put_pool eip))
                 else if \<not> DeepEqualMap (Used (e_status eip)) (Used (e_status oldData)) then
                   (let (add, del) = DiffMaps (Used (e_status oldData)) (Used (e_status eip)) in
                    commit M
                      (thenTry (delBalancer C M (GetProtocol eip) del w)
                         (\<lambda>_ w. setBalancer C M (GetProtocol eip) add w))
                      (put_pool eip))
                 else Some (Ok (), M, w)))"

definition getSvcEIPUsed :: "Service \<Rightarrow> string" where
  "getSvcEIPUsed svc =
     (let eipName = mget_str (m_labels (s_meta svc)) OpenELBEIPAnnotationKeyV1Alpha2 in
      if eipName \<noteq> [] then eipName else mget_str (m_annotations (s_meta svc)) OpenELBEIPAnnotationKeyV1Alpha2)"

text \<open>The addresses of a service that are announced again; a range that was not parsed cannot be asked.\<close>

fun ingress_loop ::
    "(string, string) gomap option \<Rightarrow> Range option \<Rightarrow> string \<Rightarrow> LoadBalancerIngress list \<Rightarrow>
     (string, string) gomap \<Rightarrow> (string, string) gomap res" where
  "ingress_loop used addr key [] acc = Ok acc"
| "ingress_loop used addr key (ing # ings) acc =
     (let value = mget_str used (ing_IP ing);
          ok = (mget (nmap used) (ing_IP ing) \<noteq> None) in
      if value = key then ingress_loop used addr key ings acc
      else
        (let value = (if ok then value @ '';'' else value) in
         case addr of
           None \<Rightarrow> Panic nil_deref
         | Some r \<Rightarrow>
             ingress_loop used addr key ings
               (if Range_Contains r (net_ParseIP (ing_IP ing)) then mset_at (ing_IP ing) (value @ key) acc else acc)))"

definition HandleService :: "'w client \<Rightarrow> 'w Manager \<Rightarrow> Service option \<Rightarrow> 'w \<Rightarrow> (unit res \<times> 'w) option" where
  "HandleService C M svc0 w =
     (case svc0 of
        None \<Rightarrow> Some (Ok (), w)
      | Some svc \<Rightarrow>
          if s_deleting svc then Some (Ok (), w)
          else
            (case mget (sm_pools M) (getSvcEIPUsed svc) of
               None \<Rightarrow> Some (Ok (), w)
             | Some eip \<Rightarrow>
                 thenTry (Some (ParseRange (cAddressRange C) (Address (e_spec eip)), w)) (\<lambda>addr w.
                 thenTry
                   (Some (ingress_loop (Used (e_status eip)) addr
                            (m_namespace (s_meta svc) @ ''/'' @ m_name (s_meta svc))
                            (case s_ingress svc of None \<Rightarrow> [] | Some is \<Rightarrow> is) [], w))
                   (\<lambda>ingress w. setBalancer C M (GetProtocol eip) ingress w))))"

fun resync_loop :: "'w client \<Rightarrow> 'w Manager \<Rightarrow> Eip list \<Rightarrow> 'w \<Rightarrow> (unit res \<times> 'w) option" where
  "resync_loop C M [] w = Some (Ok (), w)"
| "resync_loop C M (e # es) w =
     (if Protocol (e_spec e) \<noteq> OpenELBProtocolLayer2 then resync_loop C M es w
      else
        (case setBalancer C M OpenELBProtocolLayer2 (nmap (Used (e_status e))) w of
           None \<Rightarrow> None
         | Some (Panic p, w) \<Rightarrow> Some (Panic p, w)
         | Some (_, w) \<Rightarrow> resync_loop C M es w))"

definition ResyncEIPSpeaker :: "'w client \<Rightarrow> 'w Manager \<Rightarrow> 'w \<Rightarrow> (unit res \<times> 'w) option" where
  "ResyncEIPSpeaker C M w = thenTry (Some (cListEips C w)) (\<lambda>eips w. resync_loop C M eips w)"

section \<open>The reconcilers of the speaker process\<close>

definition IsOpenELBService :: "Service \<Rightarrow> bool" where
  "IsOpenELBService svc =
     (if s_type svc \<noteq> ''LoadBalancer'' then False
      else mget_str (m_annotations (s_meta svc)) OpenELBAnnotationKey = OpenELBAnnotationValue)"

definition shouldReconcileEP :: "'w client \<Rightarrow> ObjectMeta \<Rightarrow> 'w \<Rightarrow> bool res \<times> 'w" where
  "shouldReconcileEP C e w =
     (if mget_str (m_annotations e) ''control-plane.alpha.kubernetes.io/leader'' \<noteq> [] then (Ok False, w)
      else
        (case cGetService C (m_namespace e) (m_name e) w of
           (Err err, w) \<Rightarrow> (Ok (\<not> IsNotFound err), w)
         | (Panic p, w) \<Rightarrow> (Panic p, w)
         | (Ok svc, w) \<Rightarrow>
             if s_externalTrafficPolicy svc = PolicyLocal then (Ok (IsOpenELBService svc), w) else (Ok False, w)))"

text \<open>The event filter for services; creations and deletions are dropped, and so is an object of another type.\<close>

datatype svc_event = SvcCreate | SvcUpdate "Service option" "Service option" | SvcDelete

fun svc_filter :: "svc_event \<Rightarrow> bool" where
  "svc_filter SvcCreate = False"
| "svc_filter (SvcUpdate old new) =
     (case (old, new) of
        (Some old, Some new) \<Rightarrow>
          if s_externalTrafficPolicy old = s_externalTrafficPolicy new then False else IsOpenELBService new
      | _ \<Rightarrow> False)"
| "svc_filter SvcDelete = False"

definition speaker_LB_Reconcile ::
    "'w client \<Rightarrow> (Service option \<Rightarrow> 'w \<Rightarrow> (unit res \<times> 'w) option) \<Rightarrow> string \<Rightarrow> string \<Rightarrow> 'w \<Rightarrow>
     (unit res \<times> 'w) option" where
  "speaker_LB_Reconcile C handler ns name w =
     (case cGetService C ns name w of
        (Err e, w) \<Rightarrow> if IsNotFound e then Some (Ok (), w) else Some (Err e, w)
      | (Panic p, w) \<Rightarrow> Some (Panic p, w)
      | (Ok svc, w) \<Rightarrow> handler (Some svc) w)"

definition reloadLayer2Speaker :: "string \<Rightarrow> string \<Rightarrow> bool" where
  "reloadLayer2Speaker ns name = (name = Layer2ReloadEIPName \<and> ns = Layer2ReloadEIPNamespace)"

definition speaker_EIP_Reconcile ::
    "'w client \<Rightarrow> ('w Manager \<times> 'w \<Rightarrow> (unit res \<times> 'w Manager \<times> 'w) option) \<Rightarrow>
     (Eip option \<Rightarrow> 'w Manager \<times> 'w \<Rightarrow> (unit res \<times> 'w Manager \<times> 'w) option) \<Rightarrow> string \<Rightarrow> string \<Rightarrow>
     'w Manager \<times> 'w \<Rightarrow> (unit res \<times> 'w Manager \<times> 'w) option" where
  "speaker_EIP_Reconcile C reloader handler ns name st =
     (if reloadLayer2Speaker ns name then reloader st
      else
        (let (M, w) = st in
         case cGetEip C name w of
           (Err e, w) \<Rightarrow> if IsNotFound e then Some (Ok (), M, w) else Some (Err e, M, w)
         | (Panic p, w) \<Rightarrow> Some (Panic p, M, w)
         | (Ok eip, w) \<Rightarrow> handler (Some eip) (M, w)))"

section \<open>Interfaces\<close>

record NetInterface =
  if_Name :: string
  if_Index :: int
  if_HardwareAddr :: "8 word list"

text \<open>What the code asks of the host: its interfaces, their addresses as text and its routes.\<close>

record 'w host =
  hInterfaceByName :: "string \<Rightarrow> 'w \<Rightarrow> NetInterface res \<times> 'w"
  hInterfaceByIndex :: "int \<Rightarrow> 'w \<Rightarrow> NetInterface res \<times> 'w"
  hRouteGet :: "IP \<Rightarrow> 'w \<Rightarrow> int list res \<times> 'w"
  hAddrs :: "NetInterface \<Rightarrow> 'w \<Rightarrow> string list res \<times> 'w"

definition ParseInterface :: "'w host \<Rightarrow> string \<Rightarrow> 'w \<Rightarrow> NetInterface res \<times> 'w" where
  "ParseInterface H ifaceName w =
     (case SplitN2 ifaceName (CHR '':'') of
        [kind, addr] \<Rightarrow>
          if kind = ''can_reach'' then
            (let ip = net_ParseIP addr in
             if ip = [] then (Err (Errorf (''invalid can_reach address '' @ addr)), w)
             else
               andThen (hRouteGet H ip w) (\<lambda>routers w.
                 case routers of
                   [] \<Rightarrow> (Panic ''index out of range [0] with length 0'', w)
                 | linkIndex # _ \<Rightarrow>
                     andThen (hInterfaceByIndex H linkIndex w) (\<lambda>iface w.
                       if if_Name iface = ''lo'' then (Err (Errorf ''invalid interface lo''), w) else (Ok iface, w))))
          else (Err (Errorf ''invalid interface string, now only support can_reach''), w)
      | _ \<Rightarrow> hInterfaceByName H ifaceName w)"

fun validate_loop :: "string \<Rightarrow> Range option \<Rightarrow> string list \<Rightarrow> unit res" where
  "validate_loop ifName None [] = Panic nil_deref"
| "validate_loop ifName (Some r) [] =
     Err (Errorf (ifName @ CHR 0x27 # ''s ip and the eip['' @ Range_String r @ ''] are not in the same network segment''))"
| "validate_loop ifName r (addr # rest) =
     (case net_ParseCIDR addr of
        None \<Rightarrow> Err (Errorf (''invalid CIDR address: '' @ addr))
      | Some (ip, cidrnet) \<Rightarrow>
          (case r of
             None \<Rightarrow> if To4 ip \<noteq> [] \<or> To16 ip \<noteq> [] then Panic nil_deref else validate_loop ifName r rest
           | Some x \<Rightarrow>
               if To4 ip \<noteq> [] \<and> IPNet_Contains cidrnet (r_start x) \<and> IPNet_Contains cidrnet (r_end x) then Ok ()
               else if To16 ip \<noteq> [] \<and> IPNet_Contains cidrnet (r_start x) \<and> IPNet_Contains cidrnet (r_end x) then Ok ()
               else validate_loop ifName r rest))"

definition ValidateInterface :: "'w host \<Rightarrow> NetInterface \<Rightarrow> Range option \<Rightarrow> 'w \<Rightarrow> unit res \<times> 'w" where
  "ValidateInterface H netif r w =
     andThen (hAddrs H netif w) (\<lambda>ifAddrs w. (validate_loop (if_Name netif) r ifAddrs, w))"

section \<open>The fake speaker of the tests\<close>

text \<open>A value of the interface type \<open>set.Set\<close> may be nil.\<close>

type_synonym Fake = "(string, string mapSet option) gomap"

definition NewFake :: Fake where
  "NewFake = []"

definition Fake_SetBalancer :: "string \<Rightarrow> Node list \<Rightarrow> Fake \<Rightarrow> Fake res" where
  "Fake_SetBalancer ip nexthops f =
     (let names = map node_name nexthops in
      if names = [] then Ok (mset_at ip None f)
      else bind_res (set_FromArray names) (\<lambda>s. Ok (mset_at ip (Some s) f)))"

definition Fake_Equal :: "string \<Rightarrow> string list \<Rightarrow> Fake \<Rightarrow> bool res" where
  "Fake_Equal ip nexthops f =
     (case mget f ip of
        None \<Rightarrow> Ok (nexthops = [])
      | Some tmp \<Rightarrow>
          if tmp = None \<and> nexthops = [] then Ok True
          else
            (case tmp of
               None \<Rightarrow> Ok False
             | Some s \<Rightarrow>
                 if nexthops = [] then Ok False
                 else bind_res (set_FromArray nexthops) (\<lambda>hops. Ok (set_Equals hops s))))"

definition Fake_DelBalancer :: "string \<Rightarrow> Fake \<Rightarrow> Fake" where
  "Fake_DelBalancer ip f = mdel ip f"

end
