(* ===== verification/SpeakerMain.thy ===== *)
theory SpeakerMain
  imports Speaker MemClient
begin

text \<open>
  The speaker process, \<open>cmd/speaker/app/speaker.go\<close> with its options: which speakers it registers, which
  controllers it sets up, and how it ends. The controllers of controller-runtime, the signal handler and the
  constructors of the speakers are parameters; \<open>klog.Fatalf\<close>, which ends the process, is an error.

  \<open>speaker_reach\<close> are the states of the manager in this process. The theorem shows that a protocol that
  a handler uses always has a speaker, so that no handler calls a method of a nil speaker.
\<close>

section \<open>Options\<close>

record VipOptions =
  EnableVIP :: bool
  LogPath :: string
  KeepAlivedArgs :: string

definition NewVipOptions :: VipOptions where
  "NewVipOptions = \<lparr>EnableVIP = False, LogPath = [], KeepAlivedArgs = []\<rparr>"

text \<open>Of the options of the BGP and the layer 2 speaker the process itself looks at the switch only.\<close>

record OpenELBSpeakerOptions =
  MetricsAddr :: string
  EnableLayer2 :: bool
  o_Vip :: VipOptions

definition NewOpenELBSpeakerOptions :: OpenELBSpeakerOptions where
  "NewOpenELBSpeakerOptions = \<lparr>MetricsAddr = '':50053'', EnableLayer2 = False, o_Vip = NewVipOptions\<rparr>"

definition Options_Validate :: "OpenELBSpeakerOptions \<Rightarrow> error list" where
  "Options_Validate s = []"

section \<open>The process\<close>

record 'w run_env =
  newManager :: "string \<Rightarrow> 'w \<Rightarrow> unit res \<times> 'w"
  setupController :: "string \<Rightarrow> 'w \<Rightarrow> unit res \<times> 'w"
  newGoBgpd :: "'w \<Rightarrow> 'w speaker \<times> 'w"
  newKeepAlived :: "string \<Rightarrow> string \<Rightarrow> 'w \<Rightarrow> 'w speaker res \<times> 'w"
  newLayer2 :: "'w \<Rightarrow> 'w speaker res \<times> 'w"

text \<open>The part of \<open>Run\<close> up to the last registration.\<close>

definition register_speakers :: "'w run_env \<Rightarrow> OpenELBSpeakerOptions \<Rightarrow> 'w \<Rightarrow> 'w Manager res \<times> 'w" where
  "register_speakers E opt w =
     andThen (newManager E (MetricsAddr opt) w) (\<lambda>_ w.
       let spmanager = NewSpeakerManager; (bgpServer, w) = newGoBgpd E w in
       andThen (setupController E ''bgpconf'' w) (\<lambda>_ w.
       andThen (setupController E ''bgppeer'' w) (\<lambda>_ w.
         let spmanager = RegisterSpeaker OpenELBProtocolBGP bgpServer spmanager in
         andThen
           (if EnableVIP (o_Vip opt) then
              andThen (newKeepAlived E (LogPath (o_Vip opt)) (KeepAlivedArgs (o_Vip opt)) w)
                (\<lambda>keepalive w. (Ok (RegisterSpeaker OpenELBProtocolVip keepalive spmanager), w))
            else (Ok spmanager, w))
           (\<lambda>spmanager w.
             if EnableLayer2 opt then
               andThen (newLayer2 E w) (\<lambda>layer2speaker w. (Ok (RegisterSpeaker OpenELBProtocolLayer2 layer2speaker spmanager), w))
             else (Ok spmanager, w)))))"

text \<open>The whole of \<open>Run\<close>; \<open>events\<close> is what the main loop of the manager receives.\<close>

definition Run :: "'w run_env \<Rightarrow> OpenELBSpeakerOptions \<Rightarrow> mgr_event list \<Rightarrow> 'w \<Rightarrow> (unit res \<times> 'w) option" where
  "Run E opt events w =
     thenTry (Some (register_speakers E opt w)) (\<lambda>spmanager w.
     thenTry (Some (setupController E ''lb'' w)) (\<lambda>_ w.
     thenTry (Some (setupController E ''eip'' w)) (\<lambda>_ w.
       map_option (\<lambda>(r, _). (r, w)) (Start_loop events spmanager))))"

definition speaker_command :: "'w run_env \<Rightarrow> OpenELBSpeakerOptions \<Rightarrow> mgr_event list \<Rightarrow> 'w \<Rightarrow> (unit res \<times> 'w) option" where
  "speaker_command E opt events w =
     (case Options_Validate opt of
        [] \<Rightarrow> Run E opt events w
      | errs \<Rightarrow> Some (Err (Errorf (Join (map error_text errs) '', '')), w))"

section \<open>The registered protocols\<close>

definition protocols :: "OpenELBSpeakerOptions \<Rightarrow> string set" where
  "protocols opt =
     {OpenELBProtocolBGP} \<union> (if EnableVIP (o_Vip opt) then {OpenELBProtocolVip} else {}) \<union>
     (if EnableLayer2 opt then {OpenELBProtocolLayer2} else {})"

lemma RegisterSpeaker_fields:
  "mkeys (sm_speakers (RegisterSpeaker n sp M)) = insert n (mkeys (sm_speakers M))"
  "sm_pools (RegisterSpeaker n sp M) = sm_pools M"
  by (auto simp: RegisterSpeaker_def cancel_registered_def cancel_def Let_def gomap_simps split: option.splits)

lemma registered_new: "mkeys (sm_speakers NewSpeakerManager) = {}" "sm_pools NewSpeakerManager = []"
  by (simp_all add: NewSpeakerManager_def)

lemma register_speakers_Ok:
  assumes "register_speakers E opt w = (Ok M, w')"
  shows "mkeys (sm_speakers M) = protocols opt \<and> sm_pools M = []"
proof -
  obtain bgp M1 w1 w2 where M1: "(if EnableVIP (o_Vip opt) then
              andThen (newKeepAlived E (LogPath (o_Vip opt)) (KeepAlivedArgs (o_Vip opt)) w1)
                (\<lambda>keepalive w. (Ok (RegisterSpeaker OpenELBProtocolVip keepalive (RegisterSpeaker OpenELBProtocolBGP bgp NewSpeakerManager)), w))
            else (Ok (RegisterSpeaker OpenELBProtocolBGP bgp NewSpeakerManager), w1)) = (Ok M1, w2)"
    and M: "(if EnableLayer2 opt then
               andThen (newLayer2 E w2) (\<lambda>l2 w. (Ok (RegisterSpeaker OpenELBProtocolLayer2 l2 M1), w))
             else (Ok M1, w2)) = (Ok M, w')"
    using assms unfolding register_speakers_def Let_def split_beta andThen_Ok_iff by blast
  have "mkeys (sm_speakers M1) = {OpenELBProtocolBGP} \<union> (if EnableVIP (o_Vip opt) then {OpenELBProtocolVip} else {})" "sm_pools M1 = []"
  proof -
    obtain sp where "M1 = (if EnableVIP (o_Vip opt) then RegisterSpeaker OpenELBProtocolVip sp (RegisterSpeaker OpenELBProtocolBGP bgp NewSpeakerManager)
        else RegisterSpeaker OpenELBProtocolBGP bgp NewSpeakerManager)"
      using M1 by (auto simp: res_simps split: if_splits)
    then show "mkeys (sm_speakers M1) = {OpenELBProtocolBGP} \<union> (if EnableVIP (o_Vip opt) then {OpenELBProtocolVip} else {})" "sm_pools M1 = []"
      by (simp_all add: RegisterSpeaker_fields registered_new insert_commute del: image_is_empty)
  qed
  moreover obtain l2 where "M = (if EnableLayer2 opt then RegisterSpeaker OpenELBProtocolLayer2 l2 M1 else M1)"
    using M by (auto simp: res_simps split: if_splits)
  ultimately show ?thesis by (simp add: RegisterSpeaker_fields protocols_def insert_commute)
qed

text \<open>Every pool has a speaker.\<close>

definition pools_served :: "'w Manager \<Rightarrow> bool" where
  "pools_served M \<longleftrightarrow> (\<forall>n e. mget (sm_pools M) n = Some e \<longrightarrow> GetProtocol e \<in> mkeys (sm_speakers M))"

lemma served_put: "pools_served M \<Longrightarrow> GetProtocol e \<in> mkeys (sm_speakers M) \<Longrightarrow> pools_served (put_pool e M)"
  by (auto simp: pools_served_def put_pool_def gomap_simps split: if_splits)

lemma served_del: "pools_served M \<Longrightarrow> pools_served (del_pool e M)"
  by (auto simp: pools_served_def del_pool_def gomap_simps split: if_splits)

lemma pool_speakers [simp]: "sm_speakers (put_pool e M) = sm_speakers M" "sm_speakers (del_pool e M) = sm_speakers M"
  by (simp_all add: put_pool_def del_pool_def)

lemma commit_cases:
  assumes "commit M r f = Some (x, M', w')"
  obtains "M' = M" | "M' = f M"
  using assms by (auto simp: commit_def split: option.splits res.splits)

lemma HandleEIP_served:
  assumes "pools_served M" and "HandleEIP C eip0 (M, w) = Some (r, M', w')"
  shows "pools_served M' \<and> sm_speakers M' = sm_speakers M"
proof (cases eip0)
  case (Some eip)
  show ?thesis
  proof (cases "GetProtocol eip \<in> mkeys (sm_speakers M)")
    case True
    let ?ok = "\<lambda>M'. pools_served M' \<and> sm_speakers M' = sm_speakers M"
    have p: "?ok (put_pool eip M)" "?ok (del_pool eip M)" "?ok (put_pool eip (del_pool eip M))"
      using assms(1) True by (simp_all add: served_put served_del)
    have c: "?ok M2" if "commit M1 x f = Some (y, M2, w2)" "?ok M1" "?ok (f M1)" for M1 M2 x f y w2
      using that by (auto elim: commit_cases)
    have n: "mget (sm_speakers M) (GetProtocol eip) \<noteq> None" using True mget_key_iff by metis
    show ?thesis
    proof (cases "mget (sm_pools M) (e_name eip)")
      case None
      then show ?thesis using assms n p c by (fastforce simp: HandleEIP_def Some)
    next
      case old: (Some old)
      have del: "?ok M'" if t: "thenTry (commit M x (del_pool eip)) (\<lambda>_ (M, w). commit M (setBalancerWithEIP C M eip w) (put_pool eip)) = Some (r, M', w')" for x
      proof (cases "\<exists>w2. x = Some (Ok (), w2)")
        case True
        then obtain w2 where "commit (del_pool eip M) (setBalancerWithEIP C (del_pool eip M) eip w2) (put_pool eip) = Some (r, M', w')"
          using t by (auto simp: commit_def)
        then show ?thesis using c p by blast
      qed (use t assms(1) in \<open>auto simp: commit_def thenTry_def split: option.splits res.splits\<close>)
      show ?thesis
        using assms(2) n old assms(1) p(1,2) c [of M _ "put_pool eip"] c [of M _ "del_pool eip"] del
        by (simp add: HandleEIP_def Some Let_def split_beta split: if_splits)
    qed
  next
    case False
    then have "mget (sm_speakers M) (GetProtocol eip) = None" using mget_key_iff by metis
    then show ?thesis using assms by (simp add: HandleEIP_def Some)
  qed
qed (use assms in \<open>simp add: HandleEIP_def\<close>)

section \<open>No call on a nil speaker\<close>

text \<open>A call that does not panic.\<close>

definition calm :: "('a res \<times> 's) option \<Rightarrow> bool" where
  "calm r \<longleftrightarrow> (\<forall>p s. r \<noteq> Some (Panic p, s))"

lemma calm_simps [simp]: "calm None" "calm (Some (Ok a, s))" "calm (Some (Err e, s))" "\<not> calm (Some (Panic p, s))"
  by (simp_all add: calm_def)

lemma calm_thenTry: "calm r \<Longrightarrow> (\<And>a s. calm (k a s)) \<Longrightarrow> calm (thenTry r k)"
  by (auto simp: thenTry_def split: option.splits res.splits)

lemma calm_onErr: "calm r \<Longrightarrow> (\<And>e s. calm (Some (h e s))) \<Longrightarrow> calm (onErr r h)"
  by (auto simp: onErr_def calm_def split: option.splits res.splits prod.splits)

lemma calm_if: "calm r \<Longrightarrow> calm r' \<Longrightarrow> calm (if b then r else r')"
  by simp

lemma calm_commit: "calm r \<Longrightarrow> calm (commit M r f)"
  by (auto simp: commit_def split: option.splits res.splits)

text \<open>The API server and the registered speakers do not panic.\<close>

definition calm_calls :: "'w client \<Rightarrow> 'w Manager \<Rightarrow> bool" where
  "calm_calls C M \<longleftrightarrow>
     (\<forall>ns n w. calm (Some (cGetService C ns n w))) \<and> (\<forall>ns n w. calm (Some (cGetEndpoints C ns n w))) \<and>
     (\<forall>w. calm (Some (cListNodes C w))) \<and>
     (\<forall>n s. mget (sm_speakers M) n = Some s \<longrightarrow>
        (\<forall>ip nodes w. calm (sp_SetBalancer (sc_Speaker s) ip nodes w)) \<and> (\<forall>ip w. calm (sp_DelBalancer (sc_Speaker s) ip w)) \<and>
        (\<forall>c d w. calm (sp_ConfigureWithEIP (sc_Speaker s) c d w)))"

lemma calm_andThen: "calm (Some m) \<Longrightarrow> (\<And>a w. calm (Some (k a w))) \<Longrightarrow> calm (Some (andThen m k))"
  by (cases m; cases "fst m") (auto simp: andThen_def)

lemma calm_callsD:
  assumes "calm_calls C M"
  shows "calm (Some (cGetService C ns n w))" "calm (Some (cGetEndpoints C ns n w))" "calm (Some (cListNodes C w))"
  using assms by (simp_all add: calm_calls_def)

lemma calm_nodes:
  assumes "calm_calls C M"
  shows "calm (Some (getServiceNodes C svcs w))"
proof -
  note calls = calm_callsD [OF assms]
  have "calm (Some (nodes_loop C nl strs sets w))" for nl strs sets w
  proof (induction strs arbitrary: sets w)
    case (Cons str strs)
    have two: "calm (Some (andThen (cGetService C ns n w) (\<lambda>svc w.
        andThen (cGetEndpoints C (m_namespace (s_meta svc)) (m_name (s_meta svc)) w)
          (\<lambda>ep w. nodes_loop C nl strs (next_hops nl svc ep sets) w))))" for ns n
      by (intro calm_andThen calls Cons.IH)
    show ?case by (simp add: two Cons.IH split: list.split)
  qed simp
  then show ?thesis unfolding getServiceNodes_def by (intro calm_andThen calls) simp_all
qed

lemma calm_events:
  assumes "calm_calls C M"
  shows "calm (Some (addSvcEventRecorder C svcs t rs msg w))"
proof -
  have "calm (Some (addSvcEventRecorder_loop C strs t rs msg w))" for strs w
  proof (induction strs arbitrary: w)
    case (Cons str strs)
    have "calm (Some (case cGetService C ns n w of
             (Ok svc, w) \<Rightarrow> addSvcEventRecorder_loop C strs t rs msg (cEvent C (svc_ref svc) t rs msg w)
           | (Err e, w) \<Rightarrow> addSvcEventRecorder_loop C strs t rs msg w
           | (Panic p, w) \<Rightarrow> (Panic p, w)))" for ns n
      using calm_callsD(1) [OF assms, of ns n w] by (auto simp: Cons.IH split: prod.split res.split)
    then show ?case by (simp add: Cons.IH split: list.split)
  qed simp
  then show ?thesis by (simp add: addSvcEventRecorder_def)
qed

lemma calm_speaker:
  assumes "calm_calls C M" and "protocol \<in> mkeys (sm_speakers M)"
  shows "calm (with_speaker M protocol (\<lambda>s. sp_SetBalancer s ip nodes) w)" "calm (with_speaker M protocol (\<lambda>s. sp_DelBalancer s ip) w)"
    "calm (with_speaker M protocol (\<lambda>s. sp_ConfigureWithEIP s c d) w)"
proof -
  have "mget (sm_speakers M) protocol \<noteq> None" using assms(2) mget_key_iff by metis
  then obtain s where s: "mget (sm_speakers M) protocol = Some s" by auto
  note law = assms(1) [unfolded calm_calls_def, THEN conjunct2, THEN conjunct2, THEN conjunct2, rule_format, OF s]
  show "calm (with_speaker M protocol (\<lambda>s. sp_SetBalancer s ip nodes) w)" "calm (with_speaker M protocol (\<lambda>s. sp_DelBalancer s ip) w)"
    "calm (with_speaker M protocol (\<lambda>s. sp_ConfigureWithEIP s c d) w)"
    using law by (simp_all add: with_speaker_def s)
qed

lemma calm_balancers:
  assumes "calm_calls C M" and "protocol \<in> mkeys (sm_speakers M)"
  shows "calm (setBalancer C M protocol usage w)" and "calm (delBalancer C M protocol usage w)"
proof -
  note prims = calm_thenTry calm_onErr calm_if calm_events [OF assms(1)] calm_nodes [OF assms(1)] calm_speaker [OF assms]
  show "calm (setBalancer C M protocol usage w)"
  proof (induction usage arbitrary: w)
    case (Cons u usage)
    obtain ip svcs where u: "u = (ip, svcs)" by force
    show ?case unfolding u setBalancer.simps Let_def by (intro prims Cons.IH)
  qed simp
  show "calm (delBalancer C M protocol usage w)"
  proof (induction usage arbitrary: w)
    case (Cons u usage)
    obtain ip svcs where u: "u = (ip, svcs)" by force
    show ?case unfolding u delBalancer.simps by (intro prims Cons.IH)
  qed simp
qed

lemma calm_eip:
  assumes "calm_calls C M" and "GetProtocol e \<in> mkeys (sm_speakers M)"
  shows "calm (setBalancerWithEIP C M e w)" and "calm (delBalancerWithEIP C M e w)"
proof -
  have "calm (configure C M e d word w)" for d word w
    unfolding configure_def Let_def
    by (intro calm_thenTry calm_onErr calm_speaker [OF assms]) (auto simp: calm_def ParseRange_no_Panic)
  then show "calm (setBalancerWithEIP C M e w)" "calm (delBalancerWithEIP C M e w)"
    by (simp_all add: setBalancerWithEIP_def delBalancerWithEIP_def calm_thenTry calm_balancers [OF assms])
qed

lemma HandleEIP_calm:
  assumes "pools_served M" and "calm_calls C M"
  shows "calm (HandleEIP C eip0 (M, w))"
proof (cases eip0)
  case (Some eip)
  show ?thesis
  proof (cases "GetProtocol eip \<in> mkeys (sm_speakers M)")
    case True
    have n: "mget (sm_speakers M) (GetProtocol eip) \<noteq> None" using True mget_key_iff by metis
    have old: "GetProtocol e \<in> mkeys (sm_speakers M)" if "mget (sm_pools M) n = Some e" for n e
      using assms(1) that by (auto simp: pools_served_def)
    have "calm_calls C (del_pool eip M)" using assms(2) by (simp add: calm_calls_def)
    then have "calm (setBalancerWithEIP C (del_pool eip M) eip w)" for w using calm_eip(1) True by (metis pool_speakers(2))
    then have two: "calm (thenTry (commit M x (del_pool eip)) (\<lambda>_ (M, w). commit M (setBalancerWithEIP C M eip w) (put_pool eip)))"
      if "calm x" for x using that by (auto simp: commit_def [of M x "del_pool eip"] thenTry_def calm_commit split: option.splits res.splits)
    show ?thesis
    proof (cases "mget (sm_pools M) (e_name eip)")
      case None
      then show ?thesis using n calm_eip(1) [OF assms(2) True] by (simp add: HandleEIP_def Some calm_commit)
    next
      case o: (Some oldData)
      have "calm (delBalancerWithEIP C M oldData w)" by (rule calm_eip(2) [OF assms(2) old [OF o]])
      then show ?thesis
        using n o two by (simp add: HandleEIP_def Some Let_def split_beta calm_commit calm_thenTry calm_balancers [OF assms(2) True])
    qed
  next
    case False
    then have "mget (sm_speakers M) (GetProtocol eip) = None" using mget_key_iff by metis
    then show ?thesis by (simp add: HandleEIP_def Some)
  qed
qed (simp add: HandleEIP_def)

section \<open>States of the process\<close>

text \<open>The process starts and its handlers run, one after the other, in any order and with any outcome.\<close>

inductive speaker_reach :: "'w run_env \<Rightarrow> OpenELBSpeakerOptions \<Rightarrow> 'w client \<Rightarrow> 'w Manager \<times> 'w \<Rightarrow> bool" for E opt C where
  start: "register_speakers E opt w = (Ok M, w') \<Longrightarrow> speaker_reach E opt C (M, w')"
| eip: "speaker_reach E opt C (M, w) \<Longrightarrow> HandleEIP C eip0 (M, w) = Some (r, st) \<Longrightarrow> speaker_reach E opt C st"
| service: "speaker_reach E opt C (M, w) \<Longrightarrow> HandleService C M svc w = Some (r, w') \<Longrightarrow> speaker_reach E opt C (M, w')"
| resync: "speaker_reach E opt C (M, w) \<Longrightarrow> ResyncEIPSpeaker C M w = Some (r, w') \<Longrightarrow> speaker_reach E opt C (M, w')"
| world: "speaker_reach E opt C (M, w) \<Longrightarrow> speaker_reach E opt C (M, w')"

lemma speaker_reach_served:
  "speaker_reach E opt C st \<Longrightarrow> pools_served (fst st) \<and> mkeys (sm_speakers (fst st)) = protocols opt"
proof (induction rule: speaker_reach.induct)
  case (start w M w')
  then show ?case using register_speakers_Ok [OF start] by (simp add: pools_served_def)
next
  case (eip M w eip0 r st)
  then show ?case using HandleEIP_served [of M C eip0 w r "fst st" "snd st"] by simp
qed simp_all

text \<open>
  (C14) In every state of the speaker process the registered protocols are BGP and those the options enable,
  and every pool the manager keeps is of a registered protocol. Therefore handling an EIP of any protocol never
  calls a method of a missing speaker: as long as the API server and the speakers themselves do not panic,
  \<open>HandleEIP\<close> does not, and an EIP whose protocol is not enabled is refused without any change.
\<close>

theorem speakers_are_registered:
  assumes "speaker_reach E opt C (M, w)"
  shows "mkeys (sm_speakers M) = protocols opt \<and>
    (\<forall>n e. mget (sm_pools M) n = Some e \<longrightarrow> GetProtocol e \<in> protocols opt) \<and>
    (calm_calls C M \<longrightarrow> calm (HandleEIP C eip0 (M, w))) \<and>
    (\<forall>e. GetProtocol e \<notin> protocols opt \<longrightarrow> (\<exists>err. HandleEIP C (Some e) (M, w) = Some (Err err, M, w)))"
proof -
  have s: "pools_served M" and k: "mkeys (sm_speakers M) = protocols opt"
    using speaker_reach_served [OF assms] by simp_all
  have "\<exists>err. HandleEIP C (Some e) (M, w) = Some (Err err, M, w)" if "GetProtocol e \<notin> protocols opt" for e
  proof -
    have "mget (sm_speakers M) (GetProtocol e) = None" using that k mget_key_iff by metis
    then show ?thesis by (simp add: HandleEIP_def)
  qed
  then show ?thesis using s k HandleEIP_calm [OF s] by (auto simp: pools_served_def)
qed

section \<open>Example\<close>

text \<open>A process with the keepalived speaker enabled, whose speakers succeed at once.\<close>

definition ex_speaker :: "mem speaker" where
  "ex_speaker = \<lparr>sp_SetBalancer = \<lambda>_ _ w. Some (Ok (), w), sp_DelBalancer = \<lambda>_ w. Some (Ok (), w), sp_ConfigureWithEIP = \<lambda>_ _ w. Some (Ok (), w)\<rparr>"

definition ex_run :: "mem run_env" where
  "ex_run = \<lparr>newManager = \<lambda>_ w. (Ok (), w), setupController = \<lambda>_ w. (Ok (), w), newGoBgpd = \<lambda>w. (ex_speaker, w),
     newKeepAlived = \<lambda>_ _ w. (Ok ex_speaker, w), newLayer2 = \<lambda>w. (Ok ex_speaker, w)\<rparr>"

definition ex_options :: OpenELBSpeakerOptions where
  "ex_options = NewOpenELBSpeakerOptions\<lparr>o_Vip := NewVipOptions\<lparr>EnableVIP := True\<rparr>\<rparr>"

definition ex_manager :: "mem Manager" where
  "ex_manager = RegisterSpeaker OpenELBProtocolVip ex_speaker (RegisterSpeaker OpenELBProtocolBGP ex_speaker NewSpeakerManager)"

definition ex_vip :: Eip where
  "ex_vip = zero_Eip\<lparr>e_meta := zero_meta\<lparr>m_name := ''pool''\<rparr>, e_spec := zero_EipSpec\<lparr>Address := ''10.0.0.1'', Protocol := ''vip''\<rparr>\<rparr>"

lemma ex_registered: "register_speakers ex_run ex_options w = (Ok ex_manager, w)"
  by (simp add: register_speakers_def ex_run_def ex_options_def NewOpenELBSpeakerOptions_def NewVipOptions_def ex_manager_def Let_def)

lemma ex_handled: "map_option (\<lambda>(r, M, w). (r, map fst (sm_pools M))) (HandleEIP mem_client (Some ex_vip) (ex_manager, empty_mem)) = Some (Ok (), [''pool''])"
  by code_simp

lemma calm_find_obj: "calm (Some (find_obj what P xs, w))"
  by (simp add: find_obj_def split: option.split)

lemma ex_manager_speakers: "mget (sm_speakers ex_manager) n = Some s \<Longrightarrow> sc_Speaker s = ex_speaker"
  by (auto simp: ex_manager_def RegisterSpeaker_def cancel_registered_def cancel_def NewSpeakerManager_def Let_def const_defs
      split: if_splits option.splits)

lemma ex_calm_calls: "calm_calls mem_client ex_manager"
  by (auto simp: calm_calls_def mem_client_def calm_find_obj ex_speaker_def dest: ex_manager_speakers)

theorem speakers_are_registered_witness:
  "\<exists>M w. speaker_reach ex_run ex_options mem_client (M, w) \<and> sm_pools M \<noteq> [] \<and> mkeys (sm_speakers M) = protocols ex_options \<and>
     calm (HandleEIP mem_client (Some ex_vip) (ex_manager, w))"
proof -
  have s: "speaker_reach ex_run ex_options mem_client (ex_manager, v)" for v by (rule speaker_reach.start [OF ex_registered])
  obtain M w where h: "HandleEIP mem_client (Some ex_vip) (ex_manager, empty_mem) = Some (Ok (), M, w)" and p: "map fst (sm_pools M) = [''pool'']"
    using ex_handled by (cases "HandleEIP mem_client (Some ex_vip) (ex_manager, empty_mem)") (simp_all add: split_beta prod_eq_iff)
  have r: "speaker_reach ex_run ex_options mem_client (M, w)" by (rule speaker_reach.eip [OF s h])
  have "sm_pools M \<noteq> []" using p by auto
  moreover have "mkeys (sm_speakers M) = protocols ex_options" by (rule speakers_are_registered [OF r, THEN conjunct1])
  moreover have "calm (HandleEIP mem_client (Some ex_vip) (ex_manager, w))"
    by (rule speakers_are_registered [OF s, THEN conjunct2, THEN conjunct2, THEN conjunct1, THEN mp, OF ex_calm_calls])
  ultimately show ?thesis using r by (intro exI conjI)
qed

end
