(* ===== verification/Announce.thy ===== *)
theory Announce
  imports Speaker
begin

text \<open>
  What the speaker manager announces. The locale \<open>speaker_interface\<close> is the contract of a speaker:
  \<open>ann\<close> reads the addresses it announces, a successful \<open>SetBalancer\<close> adds its address, a successful
  \<open>DelBalancer\<close> removes it, configuring announces nothing, and the calls on the API server leave the
  speaker alone. \<open>registered\<close> adds a manager in which it serves one protocol beside speakers that
  leave it alone. The lemmas lift the contract through the loops of the manager to \<open>HandleEIP\<close>.
\<close>

definition used_ips :: "Eip \<Rightarrow> string set" where
  "used_ips e = mkeys (nmap (Used (e_status e)))"

text \<open>The addresses of the pools of one protocol.\<close>

definition pool_ips :: "string \<Rightarrow> (string, Eip) gomap \<Rightarrow> string set" where
  "pool_ips p pools = {ip. \<exists>n e. mget pools n = Some e \<and> GetProtocol e = p \<and> ip \<in> used_ips e}"

text \<open>Whenever the services of these addresses can be read, they have a node to announce.\<close>

definition has_hops :: "'w client \<Rightarrow> (string, string) gomap \<Rightarrow> bool" where
  "has_hops C usage \<longleftrightarrow>
     (\<forall>ip svcs w w'. (ip, svcs) \<in> set usage \<longrightarrow> getServiceNodes C svcs w \<noteq> (Ok [], w'))"

lemma only_in_keys:
  shows "mkeys (only_in m other) = mkeys m - mkeys (nmap other)" and "set (only_in m other) \<subseteq> set m"
proof -
  let ?f = "\<lambda>acc (k, v). if mget (nmap other) k = None then mset_at k v acc else acc"
  have k: "mkeys (foldl ?f acc m) = mkeys acc \<union> (mkeys m - mkeys (nmap other))" for acc
  proof (induction m arbitrary: acc)
    case (Cons e m)
    obtain j v where e: "e = (j, v)" by force
    show ?case unfolding e foldl_Cons Cons.IH
      using mget_None_iff [of "nmap other" j] by (auto simp: gomap_simps)
  qed simp
  from k [of "[]"] show "mkeys (only_in m other) = mkeys m - mkeys (nmap other)" by (simp add: only_in_def)
  have upd: "set (mset_at j v acc) \<subseteq> insert (j, v) (set acc)" for j v and acc :: "(string, string) gomap"
    by (induction acc) auto
  have "set (foldl ?f acc m) \<subseteq> set acc \<union> set m" for acc
  proof (induction m arbitrary: acc)
    case (Cons e m)
    obtain j v where e: "e = (j, v)" by force
    show ?case using Cons.IH [of "?f acc e"] upd [of j v acc] by (auto simp: e split: if_splits)
  qed simp
  from this [of "[]"] show "set (only_in m other) \<subseteq> set m" by (simp add: only_in_def)
qed

text \<open>What a call for protocol \<open>q\<close> may change of the announcements for \<open>p\<close>.\<close>

definition touch :: "string \<Rightarrow> string \<Rightarrow> string set \<Rightarrow> string set" where
  "touch p q ips = (if q = p then ips else {})"

text \<open>
  No other pool of the protocol has an address of the EIP, before and after the change, and its
  addresses have next hops: then the announced addresses are exactly those of the pools.
\<close>

definition exact :: "'w client \<Rightarrow> string \<Rightarrow> (string, Eip) gomap \<Rightarrow> Eip \<Rightarrow> bool" where
  "exact C p pools eip \<longleftrightarrow>
     (\<forall>e. GetProtocol e = p \<and> (e = eip \<or> mget pools (e_name eip) = Some e) \<longrightarrow>
        used_ips e \<inter> pool_ips p (mdel (e_name eip) pools) = {}) \<and>
     (\<forall>usage. set usage \<subseteq> set (nmap (Used (e_status eip))) \<longrightarrow> has_hops C usage)"

text \<open>The API server of a process that has state of its own beside the world.\<close>

definition lift_call :: "('w \<Rightarrow> 'a \<times> 'w) \<Rightarrow> 's \<times> 'w \<Rightarrow> 'a \<times> 's \<times> 'w" where
  "lift_call f st = (let (r, w) = f (snd st) in (r, fst st, w))"

definition lift_client :: "'w client \<Rightarrow> ('s \<times> 'w) client" where
  "lift_client C = \<lparr>
     cGetEip = \<lambda>n. lift_call (cGetEip C n), cListEips = lift_call (cListEips C),
     cUpdateEip = \<lambda>e. lift_call (cUpdateEip C e), cUpdateEipStatus = \<lambda>e. lift_call (cUpdateEipStatus C e),
     cGetService = \<lambda>ns n. lift_call (cGetService C ns n), cListServices = lift_call (cListServices C),
     cListServicesByLabel = \<lambda>k v. lift_call (cListServicesByLabel C k v),
     cUpdateService = \<lambda>s. lift_call (cUpdateService C s), cUpdateServiceStatus = \<lambda>s. lift_call (cUpdateServiceStatus C s),
     cGetNamespace = \<lambda>n. lift_call (cGetNamespace C n), cListNodes = lift_call (cListNodes C),
     cGetEndpoints = \<lambda>ns n. lift_call (cGetEndpoints C ns n),
     cEvent = \<lambda>obj t rs msg st. (fst st, cEvent C obj t rs msg (snd st)),
     cSelectorMatches = cSelectorMatches C, cSortEips = cSortEips C, cGetenv = cGetenv C,
     cAddressRange = cAddressRange C\<rparr>"

text \<open>A speaker whose state is a part of the world, in a process that has state beside the world.\<close>

definition beside :: "'w speaker \<Rightarrow> ('s \<times> 'w) speaker" where
  "beside sp =
     \<lparr>sp_SetBalancer = \<lambda>ip nodes (s, w). map_option (\<lambda>(r, w). (r, s, w)) (sp_SetBalancer sp ip nodes w),
      sp_DelBalancer = \<lambda>ip (s, w). map_option (\<lambda>(r, w). (r, s, w)) (sp_DelBalancer sp ip w),
      sp_ConfigureWithEIP = \<lambda>c deleted (s, w). map_option (\<lambda>(r, w). (r, s, w)) (sp_ConfigureWithEIP sp c deleted w)\<rparr>"

lemma beside_keeps:
  "sp_SetBalancer (beside sp) ip nodes st = Some (r, st') \<Longrightarrow> fst st' = fst st"
  "sp_DelBalancer (beside sp) ip st = Some (r, st') \<Longrightarrow> fst st' = fst st"
  "sp_ConfigureWithEIP (beside sp) c deleted st = Some (r, st') \<Longrightarrow> fst st' = fst st"
  by (auto simp: beside_def split: prod.splits)

locale speaker_interface =
  fixes C :: "'w client" and sp :: "'w speaker" and ann :: "'w \<Rightarrow> string set" and inv :: "'w \<Rightarrow> bool"
  assumes set_law: "\<And>w ip nodes r w'. inv w \<Longrightarrow> sp_SetBalancer sp ip nodes w = Some (r, w') \<Longrightarrow>
      inv w' \<and> ann w' \<subseteq> insert ip (ann w) \<and> (r = Ok () \<longrightarrow> ann w' = insert ip (ann w))"
    and del_law: "\<And>w ip r w'. inv w \<Longrightarrow> sp_DelBalancer sp ip w = Some (r, w') \<Longrightarrow>
      inv w' \<and> ann w' \<subseteq> ann w \<and> (r = Ok () \<longrightarrow> ann w' = ann w - {ip})"
    and config_law: "\<And>w c deleted r w'. inv w \<Longrightarrow> sp_ConfigureWithEIP sp c deleted w = Some (r, w') \<Longrightarrow>
      inv w' \<and> ann w' = ann w"
    and client_law: "\<And>w. ann (snd (cListNodes C w)) = ann w \<and> inv (snd (cListNodes C w)) = inv w"
      "\<And>w ns n. ann (snd (cGetService C ns n w)) = ann w \<and> inv (snd (cGetService C ns n w)) = inv w"
      "\<And>w ns n. ann (snd (cGetEndpoints C ns n w)) = ann w \<and> inv (snd (cGetEndpoints C ns n w)) = inv w"
      "\<And>w obj t rs msg. ann (cEvent C obj t rs msg w) = ann w \<and> inv (cEvent C obj t rs msg w) = inv w"
begin

lemma client_run:
  "cListNodes C w = (r1, w') \<Longrightarrow> ann w' = ann w \<and> inv w' = inv w"
  "cGetService C ns n w = (r2, w') \<Longrightarrow> ann w' = ann w \<and> inv w' = inv w"
  "cGetEndpoints C ns n w = (r3, w') \<Longrightarrow> ann w' = ann w \<and> inv w' = inv w"
  using client_law(1) [of w] client_law(2) [of ns n w] client_law(3) [of ns n w] by simp_all

lemma nodes_loop_quiet: "nodes_loop C nodeList strs sets w = (r, w') \<Longrightarrow> ann w' = ann w \<and> inv w' = inv w"
proof (induction strs arbitrary: sets w)
  case (Cons str strs)
  from Cons.prems show ?case
    by (auto simp: andThen_def split: list.splits prod.splits res.splits dest!: client_run Cons.IH)
qed simp

lemma nodes_quiet: "getServiceNodes C svcs w = (r, w') \<Longrightarrow> ann w' = ann w \<and> inv w' = inv w"
  by (auto simp: getServiceNodes_def andThen_def split: prod.splits res.splits dest!: client_run nodes_loop_quiet)

lemma events_loop_quiet:
  "addSvcEventRecorder_loop C strs t rs msg w = (r, w') \<Longrightarrow> ann w' = ann w \<and> inv w' = inv w"
proof (induction strs arbitrary: w)
  case (Cons str strs)
  from Cons.prems show ?case
    by (auto simp: client_law(4) split: list.splits prod.splits res.splits dest!: client_run Cons.IH)
qed simp

lemma events_quiet: "addSvcEventRecorder C svcs t rs msg w = (r, w') \<Longrightarrow> ann w' = ann w \<and> inv w' = inv w"
  unfolding addSvcEventRecorder_def by (rule events_loop_quiet)

end

locale registered = speaker_interface C sp ann inv
  for C :: "'w client" and sp :: "'w speaker" and ann :: "'w \<Rightarrow> string set" and inv :: "'w \<Rightarrow> bool" +
  fixes spk :: "(string, 'w speakerWithCancelFunc) gomap" and p :: string
  assumes mine: "\<And>s. mget spk p = Some s \<Longrightarrow> sc_Speaker s = sp"
    and others: "\<And>q s w ip nodes r w'. q \<noteq> p \<Longrightarrow> mget spk q = Some s \<Longrightarrow> inv w \<Longrightarrow>
        sp_SetBalancer (sc_Speaker s) ip nodes w = Some (r, w') \<Longrightarrow> inv w' \<and> ann w' = ann w"
      "\<And>q s w ip r w'. q \<noteq> p \<Longrightarrow> mget spk q = Some s \<Longrightarrow> inv w \<Longrightarrow>
        sp_DelBalancer (sc_Speaker s) ip w = Some (r, w') \<Longrightarrow> inv w' \<and> ann w' = ann w"
      "\<And>q s w c deleted r w'. q \<noteq> p \<Longrightarrow> mget spk q = Some s \<Longrightarrow> inv w \<Longrightarrow>
        sp_ConfigureWithEIP (sc_Speaker s) c deleted w = Some (r, w') \<Longrightarrow> inv w' \<and> ann w' = ann w"
begin

lemma with_set:
  assumes "inv w" "sm_speakers M = spk" "with_speaker M q (\<lambda>s. sp_SetBalancer s ip nodes) w = Some (Ok (), w')"
  shows "inv w' \<and> ann w' = ann w \<union> touch p q {ip}"
  using assms mine set_law [of w ip nodes "Ok ()" w'] others(1) [of q _ w ip nodes "Ok ()" w']
  by (auto simp: with_speaker_def touch_def split: option.splits)

lemma with_del:
  assumes "inv w" "sm_speakers M = spk" "with_speaker M q (\<lambda>s. sp_DelBalancer s ip) w = Some (Ok (), w')"
  shows "inv w' \<and> ann w' = ann w - touch p q {ip}"
  using assms mine del_law [of w ip "Ok ()" w'] others(2) [of q _ w ip "Ok ()" w']
  by (auto simp: with_speaker_def touch_def split: option.splits)

lemma with_config:
  assumes "inv w" "sm_speakers M = spk" "with_speaker M q (\<lambda>s. sp_ConfigureWithEIP s c deleted) w = Some (r, w')"
  shows "inv w' \<and> ann w' = ann w"
  using assms mine config_law [of w c deleted r w'] others(3) [of q _ w c deleted r w']
  by (cases "q = p") (auto simp: with_speaker_def split: option.splits)

lemma delBalancer_ann:
  assumes "inv w" "sm_speakers M = spk" "delBalancer C M q usage w = Some (Ok (), w')"
  shows "inv w' \<and> ann w' = ann w - touch p q (mkeys usage)"
  using assms(1,3)
proof (induction usage arbitrary: w)
  case (Cons u usage)
  obtain ip svcs where u: "u = (ip, svcs)" by force
  from Cons.prems(2) obtain w1 w2 where r: "with_speaker M q (\<lambda>s. sp_DelBalancer s ip) w = Some (Ok (), w1)"
    "addSvcEventRecorder C svcs EventTypeNormal ''DelBalancer'' ''success to withdraw announcement for service'' w1 = (Ok (), w2)"
    "delBalancer C M q usage w2 = Some (Ok (), w')"
    by (auto simp: u res_simps)
  have 1: "inv w1" "ann w1 = ann w - touch p q {ip}" using with_del [OF Cons.prems(1) assms(2) r(1)] by simp_all
  have 2: "inv w2" "ann w2 = ann w1" using events_quiet [OF r(2)] 1(1) by simp_all
  from Cons.IH [OF 2(1) r(3)] show ?case by (auto simp: u 1(2) 2(2) touch_def)
qed (simp add: touch_def)

lemma setBalancer_ann:
  assumes "inv w" "sm_speakers M = spk" "setBalancer C M q usage w = Some (Ok (), w')"
  shows "inv w' \<and> ann w \<subseteq> ann w' \<and> ann w' \<subseteq> ann w \<union> touch p q (mkeys usage) \<and>
    (has_hops C usage \<longrightarrow> ann w' = ann w \<union> touch p q (mkeys usage))"
  using assms(1,3)
proof (induction usage arbitrary: w)
  case (Cons u usage)
  obtain ip svcs where u: "u = (ip, svcs)" by force
  from Cons.prems(2) obtain nodes w1 where n: "getServiceNodes C svcs w = (Ok nodes, w1)"
    by (auto simp: u res_simps)
  have 1: "inv w1" "ann w1 = ann w" using nodes_quiet [OF n] Cons.prems(1) by simp_all
  have hops: "has_hops C (u # usage) \<Longrightarrow> has_hops C usage \<and> nodes \<noteq> []"
    using n by (auto simp: has_hops_def u)
  have rest: "inv w' \<and> ann w \<subseteq> ann w' \<and> ann w' \<subseteq> ann w \<union> touch p q (mkeys (u # usage)) \<and>
      (has_hops C (u # usage) \<longrightarrow> ann w' = ann w \<union> touch p q (mkeys (u # usage)))"
    if "inv w3" "ann w3 = ann w \<union> X" "setBalancer C M q usage w3 = Some (Ok (), w')"
      "X = touch p q {ip} \<or> X = {} \<and> nodes = []" for w3 X
    using Cons.IH [OF that(1,3)] hops that(2,4) by (auto simp: touch_def u)
  show ?case
  proof (cases "nodes = []")
    case True
    with Cons.prems(2) n obtain msg w2 where r: "addSvcEventRecorder C svcs EventTypeWarning ''SetBalancer'' msg w1 = (Ok (), w2)"
      "setBalancer C M q usage w2 = Some (Ok (), w')"
      by (auto simp: u res_simps)
    show ?thesis by (rule rest [OF _ _ r(2), of "{}"]) (use events_quiet [OF r(1)] 1 True in auto)
  next
    case False
    with Cons.prems(2) n obtain msg w2 w3 where
      r: "with_speaker M q (\<lambda>s. sp_SetBalancer s ip nodes) w1 = Some (Ok (), w2)"
        "addSvcEventRecorder C svcs EventTypeNormal ''SetBalancer'' msg w2 = (Ok (), w3)"
        "setBalancer C M q usage w3 = Some (Ok (), w')"
      by (auto simp: u res_simps Let_def)
    have "inv w2" "ann w2 = ann w1 \<union> touch p q {ip}" using with_set [OF 1(1) assms(2) r(1)] by simp_all
    then show ?thesis by (intro rest [OF _ _ r(3), of "touch p q {ip}"]) (use events_quiet [OF r(2)] 1 in auto)
  qed
qed (simp add: touch_def)

lemma configure_ann:
  assumes "inv w" "sm_speakers M = spk" "configure C M eip deleted word w = Some (Ok (), w')"
  shows "inv w' \<and> ann w' = ann w"
proof -
  from assms(3) obtain c w1 msg where
    c: "with_speaker M (GetProtocol eip) (\<lambda>s. sp_ConfigureWithEIP s c deleted) w = Some (Ok (), w1)"
    and w': "w' = cEvent C (EipRef (e_name eip)) EventTypeNormal ''ConfigSpeaker'' msg w1"
    by (auto simp: configure_def res_simps Let_def)
  show ?thesis unfolding w' using with_config [OF assms(1,2) c] by (simp add: client_law(4))
qed

lemma delBalancerWithEIP_ann:
  assumes "inv w" "sm_speakers M = spk" "delBalancerWithEIP C M eip w = Some (Ok (), w')"
  shows "inv w' \<and> ann w' = ann w - touch p (GetProtocol eip) (used_ips eip)"
proof -
  from assms(3) obtain w1 where "delBalancer C M (GetProtocol eip) (nmap (Used (e_status eip))) w = Some (Ok (), w1)"
    and c: "configure C M eip True ''unconfig'' w1 = Some (Ok (), w')"
    by (auto simp: delBalancerWithEIP_def res_simps)
  from delBalancer_ann [OF assms(1,2) this(1)] configure_ann [OF _ assms(2) c] show ?thesis by (simp add: used_ips_def)
qed

lemma setBalancerWithEIP_ann:
  assumes "inv w" "sm_speakers M = spk" "setBalancerWithEIP C M eip w = Some (Ok (), w')"
  shows "inv w' \<and> ann w \<subseteq> ann w' \<and> ann w' \<subseteq> ann w \<union> touch p (GetProtocol eip) (used_ips eip) \<and>
    (has_hops C (nmap (Used (e_status eip))) \<longrightarrow> ann w' = ann w \<union> touch p (GetProtocol eip) (used_ips eip))"
proof -
  from assms(3) obtain w1 where c: "configure C M eip False ''config'' w = Some (Ok (), w1)"
    and s: "setBalancer C M (GetProtocol eip) (nmap (Used (e_status eip))) w1 = Some (Ok (), w')"
    by (auto simp: setBalancerWithEIP_def res_simps)
  from configure_ann [OF assms(1,2) c] setBalancer_ann [OF _ assms(2) s] show ?thesis by (simp add: used_ips_def)
qed

text \<open>The pools after each outcome of \<open>HandleEIP\<close>.\<close>

lemma pool_ips_put:
  "pool_ips p (mset_at (e_name eip) eip pools) = pool_ips p (mdel (e_name eip) pools) \<union> touch p (GetProtocol eip) (used_ips eip)"
  by (auto simp: pool_ips_def touch_def gomap_simps split: if_splits)

lemma pool_ips_old:
  assumes "mget pools n = Some old"
  shows "pool_ips p pools = pool_ips p (mdel n pools) \<union> touch p (GetProtocol old) (used_ips old)"
proof -
  have "mget pools m = Some e \<longleftrightarrow> m = n \<and> e = old \<or> mget (mdel n pools) m = Some e" for m e
    using assms by (auto simp: gomap_simps)
  then show ?thesis by (auto simp: pool_ips_def touch_def)
qed

lemma HandleEIP_new:
  assumes "inv w" "sm_speakers M = spk" "mget (sm_pools M) (e_name eip) = None"
    "setBalancerWithEIP C M eip w = Some (Ok (), w')"
  shows "inv w'" and "ann w \<subseteq> pool_ips p (sm_pools M) \<Longrightarrow> ann w' \<subseteq> pool_ips p (sm_pools (put_pool eip M))"
    and "ann w = pool_ips p (sm_pools M) \<Longrightarrow> exact C p (sm_pools M) eip \<Longrightarrow> ann w' = pool_ips p (sm_pools (put_pool eip M))"
proof -
  have d: "pool_ips p (mdel (e_name eip) (sm_pools M)) = pool_ips p (sm_pools M)"
  proof -
    have "mget (mdel (e_name eip) (sm_pools M)) m = mget (sm_pools M) m" for m
      using assms(3) by (cases "m = e_name eip") (simp_all add: gomap_simps)
    then show ?thesis by (simp only: pool_ips_def)
  qed
  note s = setBalancerWithEIP_ann [OF assms(1,2,4)]
  show "inv w'" using s by simp
  show "ann w' \<subseteq> pool_ips p (sm_pools (put_pool eip M))" if "ann w \<subseteq> pool_ips p (sm_pools M)"
    using s that by (auto simp: put_pool_def pool_ips_put d)
  show "ann w' = pool_ips p (sm_pools (put_pool eip M))" if "ann w = pool_ips p (sm_pools M)" "exact C p (sm_pools M) eip"
    using s that by (simp add: put_pool_def pool_ips_put d exact_def)
qed

lemma HandleEIP_gone:
  assumes "inv w" "sm_speakers M = spk" "mget (sm_pools M) (e_name eip) = Some old"
    "delBalancerWithEIP C M old w = Some (Ok (), w')"
  shows "inv w'" and "ann w \<subseteq> pool_ips p (sm_pools M) \<Longrightarrow> ann w' \<subseteq> pool_ips p (sm_pools (del_pool eip M))"
    and "ann w = pool_ips p (sm_pools M) \<Longrightarrow> exact C p (sm_pools M) eip \<Longrightarrow> ann w' = pool_ips p (sm_pools (del_pool eip M))"
    and "GetProtocol old = p \<Longrightarrow> ann w' \<inter> used_ips old = {}"
proof -
  note s = delBalancerWithEIP_ann [OF assms(1,2,4)]
  note old = pool_ips_old [OF assms(3)]
  show "inv w'" "GetProtocol old = p \<Longrightarrow> ann w' \<inter> used_ips old = {}" using s by (auto simp: touch_def)
  show "ann w' \<subseteq> pool_ips p (sm_pools (del_pool eip M))" if "ann w \<subseteq> pool_ips p (sm_pools M)"
    using s that by (auto simp: del_pool_def old)
  show "ann w' = pool_ips p (sm_pools (del_pool eip M))" if "ann w = pool_ips p (sm_pools M)" "exact C p (sm_pools M) eip"
  proof -
    have "touch p (GetProtocol old) (used_ips old) \<inter> pool_ips p (mdel (e_name eip) (sm_pools M)) = {}"
      using that(2) assms(3) by (simp add: exact_def touch_def)
    then show ?thesis using s that(1) by (auto simp: del_pool_def old)
  qed
qed

lemma HandleEIP_status:
  assumes "inv w" "sm_speakers M = spk" "mget (sm_pools M) (e_name eip) = Some old" "GetProtocol old = GetProtocol eip"
    "DiffMaps (Used (e_status old)) (Used (e_status eip)) = (add, del)"
    "delBalancer C M (GetProtocol eip) del w = Some (Ok (), w1)"
    "setBalancer C M (GetProtocol eip) add w1 = Some (Ok (), w')"
  shows "inv w'" and "ann w \<subseteq> pool_ips p (sm_pools M) \<Longrightarrow> ann w' \<subseteq> pool_ips p (sm_pools (put_pool eip M))"
    and "ann w = pool_ips p (sm_pools M) \<Longrightarrow> exact C p (sm_pools M) eip \<Longrightarrow> ann w' = pool_ips p (sm_pools (put_pool eip M))"
proof -
  have add: "mkeys add = used_ips eip - used_ips old" "set add \<subseteq> set (nmap (Used (e_status eip)))"
    and del: "mkeys del = used_ips old - used_ips eip"
    using assms(5) only_in_keys [of "nmap (Used (e_status eip))" "Used (e_status old)"]
      only_in_keys(1) [of "nmap (Used (e_status old))" "Used (e_status eip)"]
    unfolding DiffMaps_def used_ips_def prod.inject by blast+
  note d = delBalancer_ann [OF assms(1,2,6)]
  note s = setBalancer_ann [OF conjunct1 [OF d] assms(2,7)]
  note old = pool_ips_old [OF assms(3)]
  show "inv w'" using s by simp
  show "ann w' \<subseteq> pool_ips p (sm_pools (put_pool eip M))" if "ann w \<subseteq> pool_ips p (sm_pools M)"
    using s d that unfolding old put_pool_def by (auto simp: pool_ips_put touch_def add del assms(4) split: if_splits)
  show "ann w' = pool_ips p (sm_pools (put_pool eip M))" if "ann w = pool_ips p (sm_pools M)" "exact C p (sm_pools M) eip"
  proof -
    have hops: "has_hops C add" using that(2) add(2) by (simp add: exact_def)
    have dis: "GetProtocol eip = p \<longrightarrow> used_ips old \<inter> pool_ips p (mdel (e_name eip) (sm_pools M)) = {}"
      using that(2) assms(3,4) by (simp add: exact_def)
    have e: "ann w' = ann w1 \<union> touch p (GetProtocol eip) (used_ips eip - used_ips old)"
      "ann w1 = pool_ips p (sm_pools M) - touch p (GetProtocol eip) (used_ips old - used_ips eip)"
      using s d hops by (simp_all add: add(1) del that(1))
    show ?thesis unfolding e old put_pool_def using dis by (auto simp: pool_ips_put touch_def assms(4))
  qed
qed

lemma commit_Ok_iff: "commit M r f = Some (Ok (), M', w') \<longleftrightarrow> r = Some (Ok (), w') \<and> M' = f M"
  by (auto simp: commit_def split: option.splits res.splits)

text \<open>The successful runs of \<open>HandleEIP\<close> on a pool that is known.\<close>

lemma HandleEIP_known:
  assumes "mget (sm_pools M) (e_name eip) = Some old" and "HandleEIP C (Some eip) (M, w) = Some (Ok (), M', w')"
  obtains (gone) "e_deleting eip" "delBalancerWithEIP C M old w = Some (Ok (), w')" "M' = del_pool eip M"
  | (config) w1 where "delBalancerWithEIP C M old w = Some (Ok (), w1)"
      "setBalancerWithEIP C (del_pool eip M) eip w1 = Some (Ok (), w')" "M' = put_pool eip (del_pool eip M)"
  | (status) add del w1 where "GetProtocol old = GetProtocol eip"
      "DiffMaps (Used (e_status old)) (Used (e_status eip)) = (add, del)"
      "delBalancer C M (GetProtocol eip) del w = Some (Ok (), w1)"
      "setBalancer C M (GetProtocol eip) add w1 = Some (Ok (), w')" "M' = put_pool eip M"
  | (same) "M' = M" "w' = w"
proof -
  have sp: "mget (sm_speakers M) (GetProtocol eip) \<noteq> None" using assms(2) by (auto simp: HandleEIP_def split: if_splits)
  note run = assms(2) [unfolded HandleEIP_def prod.case option.case if_not_P [OF sp] assms(1)]
  show thesis
  proof (cases "e_deleting eip")
    case True
    with run have "delBalancerWithEIP C M old w = Some (Ok (), w')" "M' = del_pool eip M" by (simp_all add: commit_Ok_iff)
    with True show thesis by (rule gone)
  next
    case alive: False
    show thesis
    proof (cases "isSpeakerConfigUpdate (e_spec eip) (e_spec old)")
      case True
      with run alive obtain w1 where "delBalancerWithEIP C M old w = Some (Ok (), w1)"
        "setBalancerWithEIP C (del_pool eip M) eip w1 = Some (Ok (), w')" "M' = put_pool eip (del_pool eip M)"
        by (auto simp: commit_Ok_iff res_simps)
      then show thesis by (rule config)
    next
      case nc: False
      then have p: "GetProtocol old = GetProtocol eip"
        by (simp add: isSpeakerConfigUpdate_def GetProtocol_def split: if_splits)
      obtain add del where d: "DiffMaps (Used (e_status old)) (Used (e_status eip)) = (add, del)" by fastforce
      show thesis
      proof (cases "DeepEqualMap (Used (e_status eip)) (Used (e_status old))")
        case True
        show thesis by (rule same) (use run alive nc True in simp_all)
      next
        case False
        with run alive nc obtain w1 where "delBalancer C M (GetProtocol eip) del w = Some (Ok (), w1)"
          "setBalancer C M (GetProtocol eip) add w1 = Some (Ok (), w')" "M' = put_pool eip M"
          by (auto simp: commit_Ok_iff res_simps d)
        with p d show thesis by (rule status)
      qed
    qed
  qed
qed

lemma HandleEIP_ann:
  assumes "inv w" "sm_speakers M = spk" "HandleEIP C (Some eip) (M, w) = Some (Ok (), M', w')"
  shows "inv w' \<and> sm_speakers M' = spk \<and>
    (ann w \<subseteq> pool_ips p (sm_pools M) \<longrightarrow> ann w' \<subseteq> pool_ips p (sm_pools M')) \<and>
    (ann w = pool_ips p (sm_pools M) \<and> exact C p (sm_pools M) eip \<longrightarrow> ann w' = pool_ips p (sm_pools M'))"
proof (cases "mget (sm_pools M) (e_name eip)")
  case None
  with assms(3) have r: "setBalancerWithEIP C M eip w = Some (Ok (), w')" "M' = put_pool eip M"
    by (simp_all add: HandleEIP_def commit_Ok_iff split: if_splits)
  have "sm_speakers M' = spk" using r(2) assms(2) by (simp add: put_pool_def)
  then show ?thesis using HandleEIP_new [OF assms(1,2) None r(1)] r(2) by blast
next
  case (Some old)
  from Some assms(3) show ?thesis
  proof (cases rule: HandleEIP_known)
    case gone
    have "sm_speakers M' = spk" using gone(3) assms(2) by (simp add: del_pool_def)
    then show ?thesis using HandleEIP_gone [OF assms(1,2) Some gone(2)] gone(3) by blast
  next
    case config
    note g = HandleEIP_gone [OF assms(1,2) Some config(1)]
    let ?M = "del_pool eip M"
    have M1: "sm_speakers ?M = spk" "mget (sm_pools ?M) (e_name eip) = None"
      using assms(2) by (simp_all add: del_pool_def gomap_simps)
    have dd: "mdel (e_name eip) (mdel (e_name eip) (sm_pools M)) = mdel (e_name eip) (sm_pools M)" for M :: "'w Manager"
      by (simp add: delete_idem)
    have ex: "exact C p (sm_pools ?M) eip" if "exact C p (sm_pools M) eip"
      using that by (simp add: exact_def del_pool_def dd gomap_simps)
    have "sm_speakers M' = spk" using config(3) M1(1) by (simp add: put_pool_def)
    then show ?thesis using g HandleEIP_new [OF g(1) M1 config(2)] ex config(3) by blast
  next
    case status
    have "sm_speakers M' = spk" using status(5) assms(2) by (simp add: put_pool_def)
    then show ?thesis using HandleEIP_status [OF assms(1,2) Some status(1-4)] status(5) by blast
  next
    case same
    then show ?thesis using assms by simp
  qed
qed

lemma HandleEIP_withdraws:
  assumes "inv w" "sm_speakers M = spk" "mget (sm_pools M) (e_name eip) = Some old" "GetProtocol old = p"
    "e_deleting eip" "HandleEIP C (Some eip) (M, w) = Some (Ok (), M', w')"
  shows "ann w' \<inter> used_ips old = {} \<and> mget (sm_pools M') (e_name eip) = None"
proof -
  have r: "delBalancerWithEIP C M old w = Some (Ok (), w')" "M' = del_pool eip M"
    using assms(3,5,6) by (simp_all add: HandleEIP_def commit_Ok_iff split: if_splits)
  show ?thesis using HandleEIP_gone(4) [OF assms(1-3) r(1) assms(4)] r(2) by (simp add: del_pool_def gomap_simps)
qed

end

end
