(* ===== verification/Digest.thy ===== *)
theory Digest
  imports Prelude "HOL-Library.Word"
begin

unbundle bit_operations_syntax

text \<open>
  \<open>crypto/sha256\<close> and \<open>encoding/hex\<close> of the standard library, which the speakers use to order nodes
  and to name keepalived instances. A string is its bytes;
  the round constants are written in decimal.
\<close>

definition sha_K :: "32 word list" where
  "sha_K =
    [1116352408, 1899447441, 3049323471, 3921009573, 961987163, 1508970993, 2453635748, 2870763221,
     3624381080, 310598401, 607225278, 1426881987, 1925078388, 2162078206, 2614888103, 3248222580,
     3835390401, 4022224774, 264347078, 604807628, 770255983, 1249150122, 1555081692, 1996064986,
     2554220882, 2821834349, 2952996808, 3210313671, 3336571891, 3584528711, 113926993, 338241895,
     666307205, 773529912, 1294757372, 1396182291, 1695183700, 1986661051, 2177026350, 2456956037,
     2730485921, 2820302411, 3259730800, 3345764771, 3516065817, 3600352804, 4094571909, 275423344,
     430227734, 506948616, 659060556, 883997877, 958139571, 1322822218, 1537002063, 1747873779,
     1955562222, 2024104815, 2227730452, 2361852424, 2428436474, 2756734187, 3204031479, 3329325298]"

definition sha_init :: "32 word list" where
  "sha_init =
    [1779033703, 3144134277, 1013904242, 2773480762, 1359893119, 2600822924, 528734635, 1541459225]"

definition rotr :: "nat \<Rightarrow> 32 word \<Rightarrow> 32 word" where
  "rotr n x = (drop_bit n x OR push_bit (32 - n) x)"

definition be_bytes :: "nat \<Rightarrow> nat \<Rightarrow> 8 word list" where
  "be_bytes len n = map (\<lambda>i. of_nat (n div 256 ^ i)) (rev [0..<len])"

fun be_words :: "8 word list \<Rightarrow> 32 word list" where
  "be_words (a # b # c # d # bs) =
     (push_bit 24 (ucast a) OR push_bit 16 (ucast b) OR push_bit 8 (ucast c) OR ucast d) # be_words bs"
| "be_words _ = []"

text \<open>A one bit, zeros up to 56 bytes modulo 64, and the length in bits.\<close>

definition sha_pad :: "8 word list \<Rightarrow> 8 word list" where
  "sha_pad msg =
     (let n = length msg in msg @ [0x80] @ replicate ((119 - n mod 64) mod 64) 0 @ be_bytes 8 (8 * n))"

text \<open>The message schedule, newest word first.\<close>

fun schedule :: "nat \<Rightarrow> 32 word list \<Rightarrow> 32 word list" where
  "schedule 0 ws = ws"
| "schedule (Suc n) ws =
     (let v1 = ws ! 1; t1 = rotr 17 v1 XOR rotr 19 v1 XOR drop_bit 10 v1;
          v2 = ws ! 14; t2 = rotr 7 v2 XOR rotr 18 v2 XOR drop_bit 3 v2 in
      schedule n ((t1 + ws ! 6 + t2 + ws ! 15) # ws))"

fun sha_round :: "32 word list \<Rightarrow> 32 word \<times> 32 word \<Rightarrow> 32 word list" where
  "sha_round [a, b, c, d, e, f, g, h] (k, w) =
     (let t1 = h + (rotr 6 e XOR rotr 11 e XOR rotr 25 e) + ((e AND f) XOR (NOT e AND g)) + k + w;
          t2 = (rotr 2 a XOR rotr 13 a XOR rotr 22 a) + ((a AND b) XOR (a AND c) XOR (b AND c)) in
      [t1 + t2, a, b, c, d + t1, e, f, g])"
| "sha_round hs _ = hs"

definition sha_block :: "32 word list \<Rightarrow> 8 word list \<Rightarrow> 32 word list" where
  "sha_block hs blk =
     (let ws = rev (schedule 48 (rev (be_words blk))) in map2 (+) hs (foldl sha_round hs (zip sha_K ws)))"

fun sha_blocks :: "nat \<Rightarrow> 32 word list \<Rightarrow> 8 word list \<Rightarrow> 32 word list" where
  "sha_blocks 0 hs msg = hs"
| "sha_blocks (Suc n) hs msg = sha_blocks n (sha_block hs (take 64 msg)) (drop 64 msg)"

definition Sum256 :: "string \<Rightarrow> 8 word list" where
  "Sum256 s =
     (let msg = sha_pad (map (\<lambda>c. of_nat (of_char c)) s) in
      concat (map (\<lambda>h. be_bytes 4 (unat h)) (sha_blocks (length msg div 64) sha_init msg)))"

definition hex_digit :: "nat \<Rightarrow> char" where
  "hex_digit n = (if n < 10 then char_of (48 + n) else char_of (87 + n))"

definition EncodeToString :: "8 word list \<Rightarrow> string" where
  "EncodeToString bs = concat (map (\<lambda>b. [hex_digit (unat b div 16), hex_digit (unat b mod 16)]) bs)"

lemma length_sha_round: "length hs = 8 \<Longrightarrow> length (sha_round hs kw) = 8"
  by (cases "(hs, kw)" rule: sha_round.cases) (simp_all add: Let_def)

lemma length_Sum256: "length (Sum256 s) = 32"
proof -
  have fold: "length (foldl sha_round hs kws) = 8" if "length hs = 8" for hs kws
    using that by (induction kws arbitrary: hs) (simp_all add: length_sha_round)
  have "length (sha_blocks n hs msg) = 8" if "length hs = 8" for n hs msg
    using that by (induction n arbitrary: hs msg) (simp_all add: sha_block_def Let_def fold)
  then have "length (sha_blocks n sha_init msg) = 8" for n msg by (simp add: sha_init_def)
  moreover have "length (be_bytes 4 n) = 4" for n by (simp add: be_bytes_def)
  ultimately show ?thesis by (simp add: Sum256_def Let_def length_concat comp_def sum_list_triv)
qed

end
