(* ===== verification/IDAlloc.thy ===== *)
theory IDAlloc
  imports Prelude "HOL-Library.Word" "HOL-Library.Monad_Syntax"
begin

unbundle bit_operations_syntax

text \<open>
  The allocator of identifiers, \<open>pkg/util/idalloc/idalloc.go\<close>: a bitmap that grows on demand.

  The integers keep their widths: blocks are \<^typ>\<open>64 word\<close>, block numbers and identifiers
  \<^typ>\<open>32 word\<close>, and all arithmetic on them wraps. The loops are partial functions, so that
  not returning is the value \<^term>\<open>None\<close>; the theorems show that they return. \<open>ids\<close> abstracts an
  allocator to the set of identifiers in use, \<open>id_source\<close> is the contract users rely on, and both
  ways of allocating are shown to satisfy it. The value \<open>IDMaxLimit\<close> that the code returns beside the error, and that no
  caller reads, is not modelled.
\<close>

section \<open>Definitions\<close>

record IDAllocator =
  ia_bits :: "64 word list"
  ia_maxBlocks :: "32 word"

definition ErrIDsExhausted :: error where
  "ErrIDsExhausted = Errorf ''no more IDs available''"

text \<open>\<open>bits.TrailingZeros\<close>\<close>

definition TrailingZeros :: "64 word \<Rightarrow> nat" where
  "TrailingZeros x = (case find (\<lambda>n. bit x n) [0..<64] of Some n \<Rightarrow> n | None \<Rightarrow> 64)"

definition IDAllocator_New :: "32 word \<Rightarrow> IDAllocator res" where
  "IDAllocator_New numIDs =
     (if numIDs = 0 \<or> numIDs mod 64 \<noteq> 0 then Panic ''numIDs must be non-zero and divisible by 64''
      else Ok \<lparr>ia_bits = [1], ia_maxBlocks = (numIDs + 64 - 1) div 64\<rparr>)"

definition ia_grow :: "IDAllocator \<Rightarrow> bool \<times> IDAllocator" where
  "ia_grow a =
     (let n = of_nat (length (ia_bits a)) :: 32 word; m = ia_maxBlocks a in
      if n \<ge> m then (False, a)
      else
        (let n = (if 2 * n > m then m - n else n) in
         (True, a\<lparr>ia_bits := ia_bits a @ replicate (unat n) 0\<rparr>)))"

partial_function (option) allocate_loop :: "32 word \<Rightarrow> IDAllocator \<Rightarrow> (32 word res \<times> IDAllocator) option" where
  "allocate_loop i a =
     (if length (ia_bits a) \<le> unat i then Some (Panic ''index out of range'', a)
      else
        (let curBlock = ia_bits a ! unat i in
         if curBlock \<noteq> NOT 0 then
           (let bb = TrailingZeros (NOT curBlock) in
            Some (Ok (i * 64 + of_nat bb), a\<lparr>ia_bits := (ia_bits a)[unat i := curBlock OR push_bit bb 1]\<rparr>))
         else if i + 1 = of_nat (length (ia_bits a)) then
           (let (grown, a) = ia_grow a in
            if \<not> grown then Some (Err ErrIDsExhausted, a) else allocate_loop (i + 1) a)
         else allocate_loop (i + 1) a))"

definition Allocate_id :: "IDAllocator \<Rightarrow> (32 word res \<times> IDAllocator) option" where
  "Allocate_id a = allocate_loop 0 a"

text \<open>The inner loop of \<open>AllocateWithHash\<close>, which grows the bitmap up to the block; false when it cannot.\<close>

partial_function (option) grow_to :: "32 word \<Rightarrow> IDAllocator \<Rightarrow> (bool \<times> IDAllocator) option" where
  "grow_to i a =
     (if i \<ge> of_nat (length (ia_bits a)) then
        (let (grown, a) = ia_grow a in if \<not> grown then Some (False, a) else grow_to i a)
      else Some (True, a))"

text \<open>\<open>k\<close> is the counter of the loop that the source calls \<open>i\<close> outside of its body.\<close>

partial_function (option) hash_loop ::
    "32 word \<Rightarrow> 32 word \<Rightarrow> IDAllocator \<Rightarrow> (32 word res \<times> IDAllocator) option" where
  "hash_loop initialID k a =
     (if k < ia_maxBlocks a * 64 then
        (let id = (initialID + k) mod (ia_maxBlocks a * 64);
             i = id div 64; msk = push_bit (unat (id mod 64)) 1 in
         Option.bind (grow_to i a) (\<lambda>(found, a).
           if \<not> found then Some (Err ErrIDsExhausted, a)
           else if ia_bits a ! unat i AND msk = 0
           then Some (Ok id, a\<lparr>ia_bits := (ia_bits a)[unat i := ia_bits a ! unat i OR msk]\<rparr>)
           else hash_loop initialID (k + 1) a))
      else Some (Err ErrIDsExhausted, a))"

text \<open>\<open>binary.BigEndian.Uint32\<close> of the first four bytes.\<close>

definition BigEndian_Uint32 :: "8 word list \<Rightarrow> 32 word" where
  "BigEndian_Uint32 b = foldl (\<lambda>acc x. acc * 256 + ucast x) 0 (take 4 b)"

definition AllocateWithHash :: "8 word list \<Rightarrow> IDAllocator \<Rightarrow> (32 word res \<times> IDAllocator) option" where
  "AllocateWithHash hash a =
     (if ia_maxBlocks a * 64 = 0 then Some (Panic ''integer divide by zero'', a)
      else hash_loop (BigEndian_Uint32 hash mod (ia_maxBlocks a * 64)) 0 a)"

definition Free_id :: "32 word \<Rightarrow> IDAllocator \<Rightarrow> unit res \<times> IDAllocator" where
  "Free_id ident a =
     (let i = ident div 64; msk = push_bit (unat (ident mod 64)) 1 in
      if length (ia_bits a) \<le> unat i then (Panic ''index out of range'', a)
      else (Ok (), a\<lparr>ia_bits := (ia_bits a)[unat i := ia_bits a ! unat i AND NOT msk]\<rparr>))"

section \<open>The set of identifiers in use\<close>

definition ids :: "IDAllocator \<Rightarrow> nat set" where
  "ids a = {k. k div 64 < length (ia_bits a) \<and> bit (ia_bits a ! (k div 64)) (k mod 64)}"

definition ida_inv :: "IDAllocator \<Rightarrow> bool" where
  "ida_inv a \<longleftrightarrow> 0 < length (ia_bits a) \<and> length (ia_bits a) \<le> unat (ia_maxBlocks a) \<and>
     unat (ia_maxBlocks a) < 67108864"

definition capacity :: "IDAllocator \<Rightarrow> nat" where
  "capacity a = 64 * unat (ia_maxBlocks a)"

lemma unat_len:
  assumes "ida_inv a"
  shows "unat (of_nat (length (ia_bits a)) :: 32 word) = length (ia_bits a)"
proof -
  have "length (ia_bits a) < 4294967296" using assms by (simp add: ida_inv_def)
  then show ?thesis by (simp add: unat_of_nat)
qed

lemma bit_one_at: "n < 64 \<Longrightarrow> bit (push_bit n (1 :: 64 word)) m \<longleftrightarrow> m = n"
  by (auto simp: bit_exp_iff)

lemma id_parts: "n < 64 \<Longrightarrow> (k :: nat) = 64 * j + n \<longleftrightarrow> k div 64 = j \<and> k mod 64 = n"
  using mult_div_mod_eq [of 64 k] by auto

lemma ids_append: "ids (a\<lparr>ia_bits := ia_bits a @ replicate d 0\<rparr>) = ids a"
proof -
  have "k \<in> ids (a\<lparr>ia_bits := ia_bits a @ replicate d 0\<rparr>) \<longleftrightarrow> k \<in> ids a" for k
  proof (cases "k div 64 < length (ia_bits a)")
    case True
    then show ?thesis by (simp add: ids_def nth_append)
  next
    case False
    then have "\<not> bit ((ia_bits a @ replicate d 0) ! (k div 64)) (k mod 64)" if "k div 64 < length (ia_bits a) + d"
      using that by (simp add: nth_append)
    then show ?thesis using False by (simp add: ids_def)
  qed
  then show ?thesis by blast
qed

lemma ids_set_bit:
  assumes "j < length (ia_bits a)" and "n < 64"
  shows "ids (a\<lparr>ia_bits := (ia_bits a)[j := ia_bits a ! j OR push_bit n 1]\<rparr>) = insert (64 * j + n) (ids a)"
proof -
  note b = bit_one_at [OF assms(2)]
  have "k \<in> ids (a\<lparr>ia_bits := (ia_bits a)[j := ia_bits a ! j OR push_bit n 1]\<rparr>) \<longleftrightarrow> k = 64 * j + n \<or> k \<in> ids a" for k
    using assms by (auto simp: ids_def nth_list_update bit_or_iff b id_parts [OF assms(2)] simp del: push_bit_of_1)
  then show ?thesis by blast
qed

lemma ids_clear_bit:
  assumes "j < length (ia_bits a)" and "n < 64"
  shows "ids (a\<lparr>ia_bits := (ia_bits a)[j := ia_bits a ! j AND NOT (push_bit n 1)]\<rparr>) = ids a - {64 * j + n}"
proof -
  note b = bit_one_at [OF assms(2)]
  have "k \<in> ids (a\<lparr>ia_bits := (ia_bits a)[j := ia_bits a ! j AND NOT (push_bit n 1)]\<rparr>) \<longleftrightarrow> k \<noteq> 64 * j + n \<and> k \<in> ids a" for k
    using assms by (auto simp: ids_def nth_list_update bit_and_iff bit_not_iff b id_parts [OF assms(2)] simp del: push_bit_of_1)
  then show ?thesis by blast
qed

lemma bit_block:
  assumes "j < length (ia_bits a)" and "n < 64"
  shows "64 * j + n \<in> ids a \<longleftrightarrow> bit (ia_bits a ! j) n"
  using assms by (simp add: ids_def)

lemma ids_less: "k \<in> ids a \<Longrightarrow> k < 64 * length (ia_bits a)"
  by (auto simp: ids_def)

lemma full_block: "(b :: 64 word) = NOT 0 \<longleftrightarrow> (\<forall>n<64. bit b n)"
  by (auto simp: bit_eq_iff possible_bit_def)

lemma TrailingZeros_first:
  assumes "(b :: 64 word) \<noteq> NOT 0"
  shows "TrailingZeros (NOT b) < 64" and "\<not> bit b (TrailingZeros (NOT b))"
    and "n < TrailingZeros (NOT b) \<Longrightarrow> bit b n"
proof -
  obtain l where n: "l < 64" "\<not> bit b l" using assms full_block by blast
  have "\<exists>m. find (\<lambda>n. bit (NOT b) n) [0..<64] = Some m"
  proof (rule ccontr)
    assume "\<not> ?thesis"
    then have "find (\<lambda>n. bit (NOT b) n) [0..<64] = None" by (cases "find (\<lambda>n. bit (NOT b) n) [0..<64]") auto
    then show False using n by (auto simp: find_None_iff bit_not_iff possible_bit_def)
  qed
  then obtain m where f: "find (\<lambda>n. bit (NOT b) n) [0..<64] = Some m" by blast
  then have t: "TrailingZeros (NOT b) = m" by (simp add: TrailingZeros_def)
  from f obtain i where "i < 64" "bit (NOT b) i" "m = i" "\<forall>j<i. \<not> bit (NOT b) j"
    by (auto simp: find_Some_iff)
  then show "TrailingZeros (NOT b) < 64" "\<not> bit b (TrailingZeros (NOT b))"
    "n < TrailingZeros (NOT b) \<Longrightarrow> bit b n"
    using t by (auto simp: bit_not_iff possible_bit_def)
qed

lemma grow_full: "ida_inv a \<Longrightarrow> length (ia_bits a) = unat (ia_maxBlocks a) \<Longrightarrow> ia_grow a = (False, a)"
  using unat_len [of a] by (simp add: ia_grow_def Let_def word_le_nat_alt)

lemma grow_more:
  assumes "ida_inv a" and "length (ia_bits a) < unat (ia_maxBlocks a)"
  obtains a' where "ia_grow a = (True, a')" "ida_inv a'" "length (ia_bits a) < length (ia_bits a')" "ids a' = ids a"
    "ia_maxBlocks a' = ia_maxBlocks a" "\<forall>j<length (ia_bits a). ia_bits a' ! j = ia_bits a ! j"
proof -
  let ?n = "of_nat (length (ia_bits a)) :: 32 word" and ?m = "ia_maxBlocks a"
  let ?d = "if 2 * ?n > ?m then ?m - ?n else ?n"
  let ?a = "a\<lparr>ia_bits := ia_bits a @ replicate (unat ?d) 0\<rparr>"
  have u: "unat ?n = length (ia_bits a)" by (rule unat_len [OF assms(1)])
  have b: "0 < length (ia_bits a)" "unat ?m < 67108864" using assms(1) by (simp_all add: ida_inv_def)
  have g: "ia_grow a = (True, ?a)"
    using assms(2) u by (simp add: ia_grow_def Let_def word_le_nat_alt)
  have two: "unat (2 * ?n) = 2 * length (ia_bits a)" using u b assms(2) by (simp add: unat_mult_lem [THEN iffD1])
  have "unat ?d = (if 2 * length (ia_bits a) > unat ?m then unat ?m - length (ia_bits a) else length (ia_bits a))"
    using two u assms(2) by (simp add: word_less_nat_alt unat_sub word_le_nat_alt)
  then have d: "0 < unat ?d" "length (ia_bits a) + unat ?d \<le> unat ?m" using assms(2) b by auto
  note i = ids_append [of a "unat ?d"]
  show ?thesis
    by (rule that [OF g _ _ i]) (use d b in \<open>simp_all add: ida_inv_def nth_append\<close>)
qed

section \<open>Both ways of allocating return, and find a free identifier when there is one\<close>

definition free_id :: "IDAllocator \<Rightarrow> nat \<Rightarrow> bool" where
  "free_id a k \<longleftrightarrow> k < capacity a \<and> k \<notin> ids a"

text \<open>The block holds the first free identifier when all blocks before it are full.\<close>

lemma first_free:
  assumes "j < length (ia_bits a)" and "\<forall>i<j. ia_bits a ! i = NOT 0" and "ia_bits a ! j \<noteq> NOT 0"
  shows "64 * j + TrailingZeros (NOT (ia_bits a ! j)) \<notin> ids a"
    and "k < 64 * j + TrailingZeros (NOT (ia_bits a ! j)) \<Longrightarrow> k \<in> ids a"
proof -
  note t = TrailingZeros_first [OF assms(3)]
  show "64 * j + TrailingZeros (NOT (ia_bits a ! j)) \<notin> ids a" using bit_block [OF assms(1) t(1)] t(2) by simp
  assume k: "k < 64 * j + TrailingZeros (NOT (ia_bits a ! j))"
  show "k \<in> ids a"
  proof (cases "k div 64 < j")
    case True
    then have "ia_bits a ! (k div 64) = NOT 0" using assms(2) by simp
    then show ?thesis using True assms(1) full_block [of "ia_bits a ! (k div 64)"] by (auto simp: ids_def)
  next
    case False
    then have "k div 64 = j" using k t(1) by auto
    moreover have "k mod 64 < TrailingZeros (NOT (ia_bits a ! j))"
      using k \<open>k div 64 = j\<close> mult_div_mod_eq [of 64 k] by linarith
    ultimately show ?thesis using t(3) assms(1) by (simp add: ids_def)
  qed
qed

lemma unat_small: "n < 4294967296 \<Longrightarrow> unat (of_nat n :: 32 word) = n"
  by (simp add: unat_of_nat)

lemma unat_suc:
  assumes "unat (i :: 32 word) < 67108864"
  shows "unat (i + 1) = Suc (unat i)"
  using assms unat_add_lem [of i 1] by simp

lemma unat_id:
  assumes "unat (i :: 32 word) < 67108864" and "n < 64"
  shows "unat (i * 64 + of_nat n) = 64 * unat i + n"
proof -
  have e: "i * 64 + of_nat n = of_nat (64 * unat i + n)" by (simp add: mult.commute)
  have "64 * unat i + n < 4294967296" using assms by linarith
  then show ?thesis unfolding e by (rule unat_small)
qed

text \<open>The three ways a round of \<open>Allocate\<close> can go: a free bit, the next block, or a larger bitmap.\<close>

lemma allocate_loop_hit:
  assumes "unat i < length (ia_bits a)" and "ia_bits a ! unat i \<noteq> NOT 0"
  shows "allocate_loop i a = Some (Ok (i * 64 + of_nat (TrailingZeros (NOT (ia_bits a ! unat i)))),
    a\<lparr>ia_bits := (ia_bits a)[unat i := ia_bits a ! unat i OR push_bit (TrailingZeros (NOT (ia_bits a ! unat i))) 1]\<rparr>)"
  using assms by (subst allocate_loop.simps) (simp add: Let_def not_le)

lemma allocate_loop_next:
  assumes "unat i < length (ia_bits a)" and "ia_bits a ! unat i = NOT 0" and "i + 1 \<noteq> of_nat (length (ia_bits a))"
  shows "allocate_loop i a = allocate_loop (i + 1) a"
  using assms by (subst allocate_loop.simps) (simp add: Let_def not_le)

lemma allocate_loop_end:
  assumes "unat i < length (ia_bits a)" and "ia_bits a ! unat i = NOT 0" and "i + 1 = of_nat (length (ia_bits a))"
  shows "allocate_loop i a =
    (let (grown, a) = ia_grow a in if \<not> grown then Some (Err ErrIDsExhausted, a) else allocate_loop (i + 1) a)"
  using assms by (subst allocate_loop.simps) (simp add: Let_def not_le)

lemma all_full:
  assumes "length (ia_bits a) = unat (ia_maxBlocks a)" and "\<forall>j<length (ia_bits a). ia_bits a ! j = NOT 0"
  shows "\<not> free_id a k"
proof
  assume k: "free_id a k"
  then have "k < unat (ia_maxBlocks a) * 64" by (simp add: free_id_def capacity_def)
  then have "k div 64 < length (ia_bits a)" using assms(1) less_mult_imp_div_less by simp
  then have "k \<in> ids a" using assms(2) full_block [of "ia_bits a ! (k div 64)"] by (auto simp: ids_def)
  then show False using k by (simp add: free_id_def)
qed

text \<open>What allocating promises: the least free identifier, or the error when there is none.\<close>

definition least_or_full :: "IDAllocator \<Rightarrow> 32 word res \<Rightarrow> IDAllocator \<Rightarrow> bool" where
  "least_or_full a r a' \<longleftrightarrow> ida_inv a' \<and> ia_maxBlocks a' = ia_maxBlocks a \<and>
    (if \<exists>k. free_id a k
     then \<exists>k. r = Ok k \<and> free_id a (unat k) \<and> (\<forall>m<unat k. m \<in> ids a) \<and> ids a' = insert (unat k) (ids a)
     else r = Err ErrIDsExhausted \<and> ids a' = ids a)"

lemma least_or_full_hit:
  assumes "ida_inv a" and "unat i < length (ia_bits a)" and "\<forall>j<unat i. ia_bits a ! j = NOT 0"
    and "ia_bits a ! unat i \<noteq> NOT 0"
  shows "\<exists>r a'. allocate_loop i a = Some (r, a') \<and> least_or_full a r a'"
proof -
  let ?b = "ia_bits a ! unat i" and ?t = "TrailingZeros (NOT (ia_bits a ! unat i))"
  have M: "length (ia_bits a) \<le> unat (ia_maxBlocks a)" "unat i < 67108864"
    using assms(1,2) by (simp_all add: ida_inv_def)
  have t: "?t < 64" by (rule TrailingZeros_first(1) [OF assms(4)])
  have u: "unat (i * 64 + of_nat ?t) = 64 * unat i + ?t" by (rule unat_id [OF M(2) t])
  note ff = first_free [OF assms(2-4)]
  have "64 * unat i + ?t < capacity a" using t assms(2) M by (simp add: capacity_def)
  then have f: "free_id a (64 * unat i + ?t)" using ff(1) by (simp add: free_id_def)
  let ?a' = "a\<lparr>ia_bits := (ia_bits a)[unat i := ?b OR push_bit ?t 1]\<rparr>"
  have "ids ?a' = insert (unat (i * 64 + of_nat ?t)) (ids a)" using ids_set_bit [OF assms(2) t] u by simp
  moreover have "ida_inv ?a'" using assms(1) by (simp add: ida_inv_def)
  ultimately have "least_or_full a (Ok (i * 64 + of_nat ?t)) ?a'" using f ff(2) u by (auto simp: least_or_full_def)
  then show ?thesis using allocate_loop_hit [OF assms(2,4)] by blast
qed

lemma allocate_loop_spec:
  assumes "ida_inv a" and "unat i < length (ia_bits a)" and "\<forall>j<unat i. ia_bits a ! j = NOT 0"
  shows "\<exists>r a'. allocate_loop i a = Some (r, a') \<and> least_or_full a r a'"
  using assms
proof (induction "unat (ia_maxBlocks a) - unat i" arbitrary: i a rule: less_induct)
  case less
  note inv = less.prems(1) and i = less.prems(2)
  have M: "length (ia_bits a) \<le> unat (ia_maxBlocks a)" "unat i < 67108864" using inv i by (simp_all add: ida_inv_def)
  note su = unat_suc [OF M(2)]
  show ?case
  proof (cases "ia_bits a ! unat i = NOT 0")
    case True
    have full: "\<forall>j<unat (i + 1). ia_bits a ! j = NOT 0" using True less.prems(3) su by (auto simp: less_Suc_eq)
    consider (next_) "unat (i + 1) < length (ia_bits a)" | (full) "unat (i + 1) = length (ia_bits a)" "length (ia_bits a) = unat (ia_maxBlocks a)"
      | (grow) "unat (i + 1) = length (ia_bits a)" "length (ia_bits a) < unat (ia_maxBlocks a)" using i su M(1) by linarith
    then show ?thesis
    proof cases
      case next_
      then have "i + 1 \<noteq> of_nat (length (ia_bits a))" using unat_len [OF inv] by auto
      note run = allocate_loop_next [OF i True this]
      show ?thesis unfolding run by (rule less.hyps [OF _ inv next_ full]) (use next_ M su in simp)
    next
      case full_: full
      then have e: "i + 1 = of_nat (length (ia_bits a))" using unat_len [OF inv] by (simp only: word_unat_eq_iff)
      have "least_or_full a (Err ErrIDsExhausted) a"
        using all_full [OF full_(2)] full full_(1) inv by (simp add: least_or_full_def)
      then show ?thesis using allocate_loop_end [OF i True e] grow_full [OF inv full_(2)] by simp
    next
      case grow
      then have e: "i + 1 = of_nat (length (ia_bits a))" using unat_len [OF inv] by (simp only: word_unat_eq_iff)
      obtain a1 where g: "ia_grow a = (True, a1)" "ida_inv a1" "length (ia_bits a) < length (ia_bits a1)"
        "ids a1 = ids a" "ia_maxBlocks a1 = ia_maxBlocks a" "\<forall>j<length (ia_bits a). ia_bits a1 ! j = ia_bits a ! j"
        by (rule grow_more [OF inv grow(2)])
      have run: "allocate_loop i a = allocate_loop (i + 1) a1" using allocate_loop_end [OF i True e] g(1) by simp
      have fr: "free_id a1 = free_id a" by (intro ext) (simp add: free_id_def capacity_def g(4,5))
      have "least_or_full a1 = least_or_full a" by (intro ext) (simp only: least_or_full_def fr g(4,5))
      moreover have "\<exists>r a'. allocate_loop (i + 1) a1 = Some (r, a') \<and> least_or_full a1 r a'"
        by (rule less.hyps [OF _ g(2)]) (use grow g(3,5,6) full su M in simp_all)
      ultimately show ?thesis using run by simp
    qed
  qed (rule least_or_full_hit [OF less.prems])
qed

text \<open>\<open>AllocateWithHash\<close>: the bitmap grows up to any block below the maximum.\<close>

lemma grow_to_spec:
  assumes "ida_inv a" and "unat i < unat (ia_maxBlocks a)"
  shows "\<exists>a'. grow_to i a = Some (True, a') \<and> ida_inv a' \<and> ids a' = ids a \<and> ia_maxBlocks a' = ia_maxBlocks a \<and>
    unat i < length (ia_bits a')"
  using assms
proof (induction "unat (ia_maxBlocks a) - length (ia_bits a)" arbitrary: a rule: less_induct)
  case less
  note len = unat_len [OF less.prems(1)]
  show ?case
  proof (cases "unat i < length (ia_bits a)")
    case True
    then have "grow_to i a = Some (True, a)" using len by (subst grow_to.simps) (simp add: word_le_nat_alt)
    then show ?thesis using less.prems True by blast
  next
    case False
    then have lt: "length (ia_bits a) < unat (ia_maxBlocks a)" using less.prems(2) by simp
    obtain a1 where g: "ia_grow a = (True, a1)" "ida_inv a1" "length (ia_bits a) < length (ia_bits a1)"
      "ids a1 = ids a" "ia_maxBlocks a1 = ia_maxBlocks a" by (rule grow_more [OF less.prems(1) lt])
    have "grow_to i a = grow_to i a1" using len False g(1) by (subst grow_to.simps) (simp add: word_le_nat_alt)
    moreover have "unat (ia_maxBlocks a1) - length (ia_bits a1) < unat (ia_maxBlocks a) - length (ia_bits a)"
      using g(3,5) lt by simp
    ultimately show ?thesis using less.hyps [OF _ g(2)] less.prems(2) g(4,5) by simp
  qed
qed

text \<open>What allocating by hash promises: the first free identifier from \<open>s\<close> on, going around.\<close>

definition probe_or_full :: "nat \<Rightarrow> IDAllocator \<Rightarrow> 32 word res \<Rightarrow> IDAllocator \<Rightarrow> bool" where
  "probe_or_full s a r a' \<longleftrightarrow> ida_inv a' \<and> ia_maxBlocks a' = ia_maxBlocks a \<and>
    (if \<exists>k. free_id a k
     then \<exists>k j. r = Ok k \<and> free_id a (unat k) \<and> unat k = (s + j) mod capacity a \<and>
       (\<forall>i<j. (s + i) mod capacity a \<in> ids a) \<and> ids a' = insert (unat k) (ids a)
     else r = Err ErrIDsExhausted \<and> ids a' = ids a)"

lemma probes_cover:
  assumes "\<forall>i<c. (s + i) mod c \<in> A" and "s < c" and "k < c"
  shows "k \<in> (A :: nat set)"
proof -
  let ?i = "(k + c - s) mod c"
  have "(s + ?i) mod c = (s + (k + c - s)) mod c" by (rule mod_add_right_eq)
  also have "\<dots> = (k + c) mod c" using assms(2) by simp
  also have "\<dots> = k" using assms(3) by simp
  finally show ?thesis using assms(1,2) by (metis mod_less_divisor gr_implies_not_zero not_gr_zero)
qed

lemma unat_capacity:
  assumes "ida_inv a"
  shows "unat (ia_maxBlocks a * 64) = capacity a" and "0 < capacity a" and "capacity a < 4294967296"
proof -
  have M: "0 < unat (ia_maxBlocks a)" "unat (ia_maxBlocks a) < 67108864" using assms unfolding ida_inv_def by linarith+
  show "0 < capacity a" "capacity a < 4294967296" using M by (simp_all add: capacity_def)
  show "unat (ia_maxBlocks a * 64) = capacity a" using unat_id [of "ia_maxBlocks a" 0] M by (simp add: capacity_def)
qed

lemma hash_loop_round:
  assumes "ida_inv a" and "capacity a \<le> 2147483648" and "unat s < capacity a" and "unat k < capacity a"
  shows "\<exists>a1. ida_inv a1 \<and> ids a1 = ids a \<and> ia_maxBlocks a1 = ia_maxBlocks a \<and>
    (if (unat s + unat k) mod capacity a \<in> ids a then hash_loop s k a = hash_loop s (k + 1) a1
     else \<exists>r a'. hash_loop s k a = Some (Ok r, a') \<and> unat r = (unat s + unat k) mod capacity a \<and> ida_inv a' \<and>
       ia_maxBlocks a' = ia_maxBlocks a \<and> ids a' = insert (unat r) (ids a))"
proof -
  note cap = unat_capacity [OF assms(1)]
  let ?id = "(s + k) mod (ia_maxBlocks a * 64)"
  let ?i = "?id div 64" and ?n = "unat (?id mod 64)"
  have "unat (s + k) = unat s + unat k" using assms by (subst unat_add_lem [THEN iffD1]) simp_all
  then have id: "unat ?id = (unat s + unat k) mod capacity a" by (simp add: unat_mod cap(1))
  have lt: "k < ia_maxBlocks a * 64" using assms(4) cap(1) by (simp add: word_less_nat_alt)
  have n: "?n < 64" "64 * unat ?i + ?n = unat ?id" by (simp_all add: unat_mod unat_div)
  have "unat ?id < capacity a" using id cap(2) by simp
  then have i: "unat ?i < unat (ia_maxBlocks a)" using n by (simp add: capacity_def)
  obtain a1 where g: "grow_to ?i a = Some (True, a1)" "ida_inv a1" "ids a1 = ids a" "ia_maxBlocks a1 = ia_maxBlocks a"
    "unat ?i < length (ia_bits a1)" using grow_to_spec [OF assms(1) i] by blast
  have test: "ia_bits a1 ! unat ?i AND push_bit ?n 1 = 0 \<longleftrightarrow> unat ?id \<notin> ids a"
    using bit_block [OF g(5) n(1)] g(3) n(2) by (simp add: and_exp_eq_0_iff_not_bit)
  have run: "hash_loop s k a =
      (if ia_bits a1 ! unat ?i AND push_bit ?n 1 = 0
       then Some (Ok ?id, a1\<lparr>ia_bits := (ia_bits a1)[unat ?i := ia_bits a1 ! unat ?i OR push_bit ?n 1]\<rparr>)
       else hash_loop s (k + 1) a1)"
    by (subst hash_loop.simps) (simp add: lt g(1) Let_def del: push_bit_of_1)
  show ?thesis
  proof (cases "unat ?id \<in> ids a")
    case True
    then show ?thesis using run test g id by (intro exI [of _ a1]) simp
  next
    case False
    let ?a' = "a1\<lparr>ia_bits := (ia_bits a1)[unat ?i := ia_bits a1 ! unat ?i OR push_bit ?n 1]\<rparr>"
    have "ids ?a' = insert (unat ?id) (ids a)" using ids_set_bit [OF g(5) n(1)] g(3) n(2) by simp
    moreover have "ida_inv ?a'" using g(2) by (simp add: ida_inv_def)
    ultimately show ?thesis using run test False g id by (intro exI [of _ a1]) auto
  qed
qed

lemma hash_loop_spec:
  assumes "ida_inv a" and "capacity a \<le> 2147483648" and "unat s < capacity a" and "unat k \<le> capacity a"
    and "\<forall>i<unat k. (unat s + i) mod capacity a \<in> ids a"
  shows "\<exists>r a'. hash_loop s k a = Some (r, a') \<and> probe_or_full (unat s) a r a'"
  using assms
proof (induction "capacity a - unat k" arbitrary: a k rule: less_induct)
  case less
  note cap = unat_capacity [OF less.prems(1)]
  show ?case
  proof (cases "unat k = capacity a")
    case True
    then have "\<not> free_id a m" for m using probes_cover [of "capacity a" "unat s" "ids a" m] less.prems(3,5)
      by (auto simp: free_id_def)
    moreover have "hash_loop s k a = Some (Err ErrIDsExhausted, a)"
      using True cap(1) by (subst hash_loop.simps) (simp add: word_less_nat_alt)
    ultimately show ?thesis using less.prems(1) by (simp add: probe_or_full_def)
  next
    case False
    then have lt: "unat k < capacity a" using less.prems(4) by simp
    obtain a1 where a1: "ida_inv a1" "ids a1 = ids a" "ia_maxBlocks a1 = ia_maxBlocks a"
      and run: "if (unat s + unat k) mod capacity a \<in> ids a then hash_loop s k a = hash_loop s (k + 1) a1
       else \<exists>r a'. hash_loop s k a = Some (Ok r, a') \<and> unat r = (unat s + unat k) mod capacity a \<and> ida_inv a' \<and>
         ia_maxBlocks a' = ia_maxBlocks a \<and> ids a' = insert (unat r) (ids a)"
      using hash_loop_round [OF less.prems(1-3) lt] by blast
    show ?thesis
    proof (cases "(unat s + unat k) mod capacity a \<in> ids a")
      case True
      have c1: "capacity a1 = capacity a" by (simp add: capacity_def a1(3))
      have fr: "free_id a1 = free_id a" by (intro ext) (simp add: free_id_def c1 a1(2))
      have su: "unat (k + 1) = Suc (unat k)" using lt cap(3) by (subst unat_add_lem [THEN iffD1]) simp_all
      have "\<exists>r a'. hash_loop s (k + 1) a1 = Some (r, a') \<and> probe_or_full (unat s) a1 r a'"
        by (rule less.hyps [OF _ a1(1)]) (use less.prems lt su True c1 a1(2) in \<open>auto simp: less_Suc_eq\<close>)
      moreover have "probe_or_full (unat s) a1 = probe_or_full (unat s) a"
        by (intro ext) (simp only: probe_or_full_def fr c1 a1(2,3))
      ultimately show ?thesis using run True by simp
    next
      case False
      then obtain r a' where r: "hash_loop s k a = Some (Ok r, a')" "unat r = (unat s + unat k) mod capacity a" "ida_inv a'"
         "ia_maxBlocks a' = ia_maxBlocks a" "ids a' = insert (unat r) (ids a)" using run by auto
      have "free_id a (unat r)" using r(2) False cap(2) by (simp add: free_id_def)
      then have "probe_or_full (unat s) a (Ok r) a'" using r(2-5) less.prems(5) by (auto simp: probe_or_full_def)
      then show ?thesis using r(1) by blast
    qed
  qed
qed

lemma Allocate_id_spec:
  assumes "ida_inv a"
  shows "\<exists>r a'. Allocate_id a = Some (r, a') \<and> least_or_full a r a'"
  unfolding Allocate_id_def by (rule allocate_loop_spec [OF assms]) (use assms in \<open>simp_all add: ida_inv_def\<close>)

lemma AllocateWithHash_spec:
  assumes "ida_inv a" and "capacity a \<le> 2147483648"
  shows "\<exists>r a'. AllocateWithHash hash a = Some (r, a') \<and>
    probe_or_full (unat (BigEndian_Uint32 hash) mod capacity a) a r a'"
proof -
  note cap = unat_capacity [OF assms(1)]
  let ?s = "BigEndian_Uint32 hash mod (ia_maxBlocks a * 64)"
  have s: "unat ?s = unat (BigEndian_Uint32 hash) mod capacity a" by (simp add: unat_mod cap(1))
  have "ia_maxBlocks a * 64 \<noteq> 0" using cap(1,2) by auto
  then have "AllocateWithHash hash a = hash_loop ?s 0 a" by (simp add: AllocateWithHash_def)
  moreover have "\<exists>r a'. hash_loop ?s 0 a = Some (r, a') \<and> probe_or_full (unat ?s) a r a'"
    by (rule hash_loop_spec [OF assms]) (use cap(2) s in simp_all)
  ultimately show ?thesis unfolding s by simp
qed

lemma Free_id_Ok:
  assumes "ida_inv a" and "unat k \<in> ids a"
  shows "\<exists>a'. Free_id k a = (Ok (), a') \<and> ids a' = ids a - {unat k} \<and> ida_inv a' \<and> ia_maxBlocks a' = ia_maxBlocks a"
proof -
  let ?i = "unat (k div 64)" and ?n = "unat (k mod 64)"
  have i: "?i < length (ia_bits a)" using assms(2) by (simp add: ids_def unat_div)
  have n: "?n < 64" "64 * ?i + ?n = unat k" by (simp_all add: unat_mod unat_div)
  let ?a' = "a\<lparr>ia_bits := (ia_bits a)[?i := ia_bits a ! ?i AND NOT (push_bit ?n 1)]\<rparr>"
  have "ids ?a' = ids a - {unat k}" using ids_clear_bit [OF i n(1)] n(2) by simp
  moreover have "Free_id k a = (Ok (), ?a')" using i by (simp add: Free_id_def Let_def not_le)
  moreover have "ida_inv ?a'" using assms(1) by (simp add: ida_inv_def)
  ultimately show ?thesis by auto
qed

lemma New_spec:
  assumes "IDAllocator_New n = Ok a"
  shows "ida_inv a" and "ids a = {0}" and "capacity a = unat n"
proof -
  have n: "n \<noteq> 0" "n mod 64 = 0" and a: "a = \<lparr>ia_bits = [1], ia_maxBlocks = (n + 64 - 1) div 64\<rparr>"
    using assms by (auto simp: IDAllocator_New_def split: if_splits)
  have "unat n mod 64 = 0" using arg_cong [OF n(2), of unat] by (simp add: unat_mod)
  then obtain q where q: "unat n = 64 * q" by auto
  have lt: "unat n < 4294967296" using unsigned_less [of n] by simp
  have "unat n \<noteq> 0" using n(1) by (simp add: unat_eq_0)
  then have "0 < q" using q by simp
  have "unat (n + 63) = unat n + 63" using q lt by (subst unat_add_lem [THEN iffD1]) simp_all
  then have "unat ((n + 63) div 64) = (64 * q + 63) div 64" using q by (simp add: unat_div)
  then have m: "unat (ia_maxBlocks a) = q" by (simp add: a add.commute)
  show "ida_inv a" using \<open>0 < q\<close> q lt m by (simp add: ida_inv_def) (simp add: a)
  show "capacity a = unat n" using m q by (simp add: capacity_def)
  show "ids a = {0}" by (auto simp: ids_def a bit_1_iff)
qed

section \<open>The contract users rely on\<close>

locale id_source =
  fixes inv :: "'s \<Rightarrow> bool" and used :: "'s \<Rightarrow> 'i set"
    and alloc :: "'s \<Rightarrow> ('i res \<times> 's) option" and free :: "'i \<Rightarrow> 's \<Rightarrow> unit res \<times> 's"
  assumes alloc_returns: "inv a \<Longrightarrow> \<exists>r a'. alloc a = Some (r, a')"
    and alloc_ok: "inv a \<Longrightarrow> alloc a = Some (Ok i, a') \<Longrightarrow> i \<notin> used a \<and> used a' = insert i (used a) \<and> inv a'"
    and alloc_not_ok: "inv a \<Longrightarrow> alloc a = Some (r, a') \<Longrightarrow> \<not> is_Ok r \<Longrightarrow> used a' = used a \<and> inv a'"
    and free_ok: "inv a \<Longrightarrow> i \<in> used a \<Longrightarrow> \<exists>a'. free i a = (Ok (), a') \<and> used a' = used a - {i} \<and> inv a'"
begin

lemma alloc_free:
  assumes "inv a" and "alloc a = Some (Ok i, a')"
  shows "\<exists>a''. free i a' = (Ok (), a'') \<and> used a'' = used a \<and> inv a''"
  using alloc_ok [OF assms] free_ok [of a' i] by auto

lemma alloc_keeps:
  assumes "inv a" and "alloc a = Some (r, a')"
  shows "inv a'" and "used a \<subseteq> used a'"
proof -
  have "inv a' \<and> used a \<subseteq> used a'"
  proof (cases "is_Ok r")
    case True
    then obtain i where "r = Ok i" by (cases r) simp_all
    then have "used a' = insert i (used a)" "inv a'" using alloc_ok [of a i a'] assms by simp_all
    then show ?thesis by blast
  next
    case False
    then show ?thesis using alloc_not_ok [OF assms] by simp
  qed
  then show "inv a'" "used a \<subseteq> used a'" by simp_all
qed

end

definition ids_w :: "IDAllocator \<Rightarrow> 32 word set" where
  "ids_w a = {k. unat k \<in> ids a}"

lemma ids_w_insert: "ids a' = insert (unat k) (ids a) \<Longrightarrow> ids_w a' = insert k (ids_w a)"
  by (auto simp: ids_w_def word_unat_eq_iff [symmetric])

lemma ids_w_remove: "ids a' = ids a - {unat k} \<Longrightarrow> ids_w a' = ids_w a - {k}"
  by (auto simp: ids_w_def word_unat_eq_iff [symmetric])

interpretation first_id: id_source ida_inv ids_w Allocate_id Free_id
proof
  fix a assume inv: "ida_inv a"
  obtain r0 a0 where spec: "Allocate_id a = Some (r0, a0)" "least_or_full a r0 a0" using Allocate_id_spec [OF inv] by blast
  show "\<exists>r a'. Allocate_id a = Some (r, a')" using spec by blast
  show "i \<notin> ids_w a \<and> ids_w a' = insert i (ids_w a) \<and> ida_inv a'" if "Allocate_id a = Some (Ok i, a')" for i a'
    using spec that ids_w_insert [of a' i a] by (auto simp: least_or_full_def free_id_def ids_w_def split: if_splits)
  show "ids_w a' = ids_w a \<and> ida_inv a'" if "Allocate_id a = Some (r, a')" "\<not> is_Ok r" for r a'
    using spec that by (auto simp: least_or_full_def ids_w_def split: if_splits)
  show "\<exists>a'. Free_id i a = (Ok (), a') \<and> ids_w a' = ids_w a - {i} \<and> ida_inv a'" if "i \<in> ids_w a" for i
    using Free_id_Ok [OF inv, of i] that ids_w_remove [of _ a i] by (auto simp: ids_w_def)
qed

interpretation hash_id: id_source "\<lambda>a. ida_inv a \<and> capacity a \<le> 2147483648" ids_w "AllocateWithHash hash" Free_id for hash
proof
  fix a assume inv: "ida_inv a \<and> capacity a \<le> 2147483648"
  obtain r0 a0 where spec: "AllocateWithHash hash a = Some (r0, a0)"
    "probe_or_full (unat (BigEndian_Uint32 hash) mod capacity a) a r0 a0" using AllocateWithHash_spec inv by blast
  have c: "capacity a0 = capacity a" using spec(2) by (simp add: probe_or_full_def capacity_def)
  show "\<exists>r a'. AllocateWithHash hash a = Some (r, a')" using spec by blast
  show "i \<notin> ids_w a \<and> ids_w a' = insert i (ids_w a) \<and> ida_inv a' \<and> capacity a' \<le> 2147483648"
    if "AllocateWithHash hash a = Some (Ok i, a')" for i a'
    using spec that ids_w_insert [of a' i a] inv c by (auto simp: probe_or_full_def free_id_def ids_w_def split: if_splits)
  show "ids_w a' = ids_w a \<and> ida_inv a' \<and> capacity a' \<le> 2147483648" if "AllocateWithHash hash a = Some (r, a')" "\<not> is_Ok r" for r a'
    using spec that inv c by (auto simp: probe_or_full_def ids_w_def split: if_splits)
  show "\<exists>a'. Free_id i a = (Ok (), a') \<and> ids_w a' = ids_w a - {i} \<and> ida_inv a' \<and> capacity a' \<le> 2147483648" if "i \<in> ids_w a" for i
    using Free_id_Ok [of a i] that inv ids_w_remove [of _ a i] by (auto simp: ids_w_def capacity_def)
qed

section \<open>Properties\<close>

text \<open>
  (C12) \<open>Allocate\<close> returns from every well-formed allocator, with the least identifier that is not in
  use, which it marks as used, or with the error exactly when all are in use.
\<close>

theorem Allocate_id_least:
  assumes "ida_inv a"
  shows "\<exists>r a'. Allocate_id a = Some (r, a') \<and>
    (case r of
       Ok k \<Rightarrow> unat k < capacity a \<and> unat k \<notin> ids a \<and> (\<forall>m<unat k. m \<in> ids a) \<and> ids a' = insert (unat k) (ids a)
     | Err e \<Rightarrow> e = ErrIDsExhausted \<and> {0..<capacity a} \<subseteq> ids a \<and> ids a' = ids a
     | Panic p \<Rightarrow> False) \<and> ida_inv a'"
proof -
  obtain r a' where ra: "Allocate_id a = Some (r, a')" "least_or_full a r a'" using Allocate_id_spec [OF assms] by blast
  then show ?thesis by (intro exI [of _ r] exI [of _ a']) (auto simp: least_or_full_def free_id_def split: if_splits)
qed

definition sample_ids :: IDAllocator where
  "sample_ids = \<lparr>ia_bits = [NOT 0], ia_maxBlocks = 4\<rparr>"

lemma sample_ids_inv: "ida_inv sample_ids" "capacity sample_ids = 256"
  by (simp_all add: sample_ids_def ida_inv_def capacity_def)

lemma sample_ids_used: "ids sample_ids = {0..<64}"
proof -
  have "k \<in> ids sample_ids \<longleftrightarrow> k div 64 = 0" for k by (auto simp: ids_def sample_ids_def possible_bit_def)
  then show ?thesis by auto
qed

theorem Allocate_id_least_witness: "\<exists>a'. Allocate_id sample_ids = Some (Ok 64, a') \<and> 64 \<in> ids a'"
proof -
  obtain r a' where ra: "Allocate_id sample_ids = Some (r, a')"
    "(case r of
       Ok k \<Rightarrow> unat k < capacity sample_ids \<and> unat k \<notin> ids sample_ids \<and> (\<forall>m<unat k. m \<in> ids sample_ids) \<and>
         ids a' = insert (unat k) (ids sample_ids)
     | Err e \<Rightarrow> e = ErrIDsExhausted \<and> {0..<capacity sample_ids} \<subseteq> ids sample_ids \<and> ids a' = ids sample_ids
     | Panic p \<Rightarrow> False)"
    using Allocate_id_least [OF sample_ids_inv(1)] by blast
  note i = sample_ids_used
  have "\<not> {0..<256} \<subseteq> ids sample_ids" unfolding i by auto
  then have "r \<noteq> Err e" for e using ra(2) unfolding sample_ids_inv(2) by (cases r) simp_all
  then obtain k where k: "r = Ok k" using ra(2) by (cases r) auto
  then have "unat k \<notin> {0..<64}" "\<forall>m<unat k. m \<in> {0..<64 :: nat}" using ra(2) unfolding i by simp_all
  then have "unat k = 64" by (metis atLeastLessThan_iff less_irrefl linorder_neqE_nat zero_le)
  then have "k = 64" by (intro word_unat_eq_iff [THEN iffD2]) simp
  then show ?thesis using ra k by auto
qed

text \<open>
  (C30) \<open>AllocateWithHash\<close> returns from every well-formed allocator of at most \<open>2^31\<close> identifiers, with
  the first identifier not in use that follows the one the hash names, going around at the end, or with
  the error exactly when all are in use. The same hash gets the identifier it names whenever that is free.
\<close>

theorem AllocateWithHash_probes:
  assumes "ida_inv a" and "capacity a \<le> 2147483648" and "s = unat (BigEndian_Uint32 hash) mod capacity a"
  shows "\<exists>r a'. AllocateWithHash hash a = Some (r, a') \<and>
    (case r of
       Ok k \<Rightarrow> unat k \<notin> ids a \<and> ids a' = insert (unat k) (ids a) \<and> (s \<notin> ids a \<longrightarrow> unat k = s) \<and>
         (\<exists>j. unat k = (s + j) mod capacity a \<and> (\<forall>i<j. (s + i) mod capacity a \<in> ids a))
     | Err e \<Rightarrow> e = ErrIDsExhausted \<and> {0..<capacity a} \<subseteq> ids a \<and> ids a' = ids a
     | Panic p \<Rightarrow> False) \<and> ida_inv a'"
proof -
  obtain r a' where ra: "AllocateWithHash hash a = Some (r, a')" "probe_or_full s a r a'"
    using AllocateWithHash_spec [OF assms(1,2)] assms(3) by blast
  have s: "s < capacity a" using assms(3) unat_capacity(2) [OF assms(1)] by simp
  have "unat k = s" if "unat k = (s + j) mod capacity a" "\<forall>i<j. (s + i) mod capacity a \<in> ids a" "s \<notin> ids a" for k :: "32 word" and j
    using that s by (cases j) auto
  then show ?thesis using ra
    by (intro exI [of _ r] exI [of _ a']) (auto simp: probe_or_full_def free_id_def split: if_splits)
qed

theorem AllocateWithHash_probes_witness:
  "\<exists>a'. AllocateWithHash [0, 0, 0, 200] sample_ids = Some (Ok 200, a') \<and> 200 \<in> ids a'"
proof -
  have b: "unat (BigEndian_Uint32 [0, 0, 0, 200]) mod capacity sample_ids = 200"
    by (simp add: BigEndian_Uint32_def sample_ids_inv(2))
  obtain r a' where ra: "AllocateWithHash [0, 0, 0, 200] sample_ids = Some (r, a')"
    "(case r of
       Ok k \<Rightarrow> unat k \<notin> ids sample_ids \<and> ids a' = insert (unat k) (ids sample_ids) \<and> (200 \<notin> ids sample_ids \<longrightarrow> unat k = 200) \<and>
         (\<exists>j. unat k = (200 + j) mod capacity sample_ids \<and> (\<forall>i<j. (200 + i) mod capacity sample_ids \<in> ids sample_ids))
     | Err e \<Rightarrow> e = ErrIDsExhausted \<and> {0..<capacity sample_ids} \<subseteq> ids sample_ids \<and> ids a' = ids sample_ids
     | Panic p \<Rightarrow> False)"
    using AllocateWithHash_probes [OF sample_ids_inv(1) _ b [symmetric]] sample_ids_inv(2) by auto
  note i = sample_ids_used
  have "\<not> {0..<256} \<subseteq> ids sample_ids" unfolding i by auto
  then have "r \<noteq> Err e" for e using ra(2) unfolding sample_ids_inv(2) by (cases r) simp_all
  then obtain k where k: "r = Ok k" using ra(2) by (cases r) auto
  then have "unat k = 200" using ra(2) i by auto
  then have "k = 200" by (intro word_unat_eq_iff [THEN iffD2]) simp
  then show ?thesis using ra k by auto
qed
end
