(* ===== verification/Vip.thy ===== *)
theory Vip
  imports Announce Digest IDAlloc
begin

text \<open>
  The keepalived speaker, \<open>pkg/speaker/vip/keepalived.go\<close>. Addresses with the same next hops on the
  same interface share a VRRP instance, named by the hash of the nodes and the interface, with a
  router identifier from the allocator of \<open>IDAlloc\<close>.

  The state of the speaker is \<open>keepAlived\<close>; \<open>ka_env\<close> is what it calls on the host: files, the template
  engine, processes and signals. \<open>Reload\<close> waits for the pid file without a bound, so that the
  operations are partial. \<open>ka_inv\<close> is the invariant of the speaker: an address is in one instance
  at most, no instance is empty, and the router identifiers are distinct and reserved.
\<close>

section \<open>Definitions\<close>

record Instance =
  in_Name :: string
  in_Iface :: string
  in_RouteID :: "32 word"
  in_Svcips :: "string list"
  in_Priority :: int
  in_Enabled :: bool

text \<open>\<open>ka_cmd\<close> is the identifier of the keepalived process once it has been started.\<close>

record keepAlived =
  ka_instances :: "(string, Instance) gomap"
  ka_vips :: "(string, string) gomap"
  ka_configs :: "(string, Config) gomap"
  ka_idAlloc :: IDAllocator
  ka_args :: string
  ka_cmd :: "int option"

record 'w ka_env =
  kHost :: "'w host"
  kParseFiles :: "string \<Rightarrow> 'w \<Rightarrow> unit res \<times> 'w"
  kMkdirAll :: "string \<Rightarrow> 'w \<Rightarrow> unit res \<times> 'w"
  kCreate :: "string \<Rightarrow> 'w \<Rightarrow> unit res \<times> 'w"
  kExecute :: "string \<Rightarrow> (string, Instance) gomap \<Rightarrow> 'w \<Rightarrow> unit res \<times> 'w"
  kPidMissing :: "'w \<Rightarrow> bool \<times> 'w"
  kSleep :: "'w \<Rightarrow> 'w"
  kKill :: "int \<Rightarrow> string \<Rightarrow> 'w \<Rightarrow> unit res \<times> 'w"
  kStart :: "string list \<Rightarrow> 'w \<Rightarrow> int res \<times> 'w"

definition NewKeepAlived :: "'w ka_env \<Rightarrow> string \<Rightarrow> 'w \<Rightarrow> keepAlived res \<times> 'w" where
  "NewKeepAlived E args w =
     andThen (kParseFiles E ''keepalived.tmpl'' w) (\<lambda>_ w.
       (bind_res (IDAllocator_New 256) (\<lambda>a.
          Ok \<lparr>ka_instances = [], ka_vips = [], ka_configs = [], ka_idAlloc = a, ka_args = args, ka_cmd = None\<rparr>), w))"

text \<open>The three ways in which the slice is cut, by the position of the address.\<close>

fun index_of :: "string \<Rightarrow> string list \<Rightarrow> nat option" where
  "index_of x [] = None"
| "index_of x (y # ys) = (if y = x then Some 0 else map_option Suc (index_of x ys))"

definition remove_svcip :: "string \<Rightarrow> string list \<Rightarrow> string list" where
  "remove_svcip vip ips =
     (case index_of vip ips of
        None \<Rightarrow> ips
      | Some i \<Rightarrow>
          if i = 0 then drop 1 ips
          else if i = length ips - 1 then take (length ips - 1) ips
          else take i ips @ drop (i + 1) ips)"

definition cleanRecord :: "string \<Rightarrow> string \<Rightarrow> keepAlived \<Rightarrow> unit res \<times> keepAlived" where
  "cleanRecord vip instanceName k =
     (case mget (ka_instances k) instanceName of
        None \<Rightarrow> (Ok (), k)
      | Some inst \<Rightarrow>
          (let inst = inst\<lparr>in_Svcips := remove_svcip vip (in_Svcips inst)\<rparr> in
           if in_Svcips inst = [] then
             (case Free_id (in_RouteID inst) (ka_idAlloc k) of
                (r, a) \<Rightarrow> (r, k\<lparr>ka_instances := mdel instanceName (ka_instances k), ka_idAlloc := a\<rparr>))
           else (Ok (), k\<lparr>ka_instances := mset_at instanceName inst (ka_instances k)\<rparr>)))"

fun getInterfaces :: "(string, Config) gomap \<Rightarrow> string \<Rightarrow> string res" where
  "getInterfaces [] vip = Ok []"
| "getInterfaces ((_, c) # cs) vip =
     (case cfg_IPRange c of
        None \<Rightarrow> Panic nil_deref
      | Some r \<Rightarrow> if Range_Contains r (net_ParseIP vip) then Ok (cfg_Iface c) else getInterfaces cs vip)"

definition getNodeSha256Bytes :: "Node list \<Rightarrow> 8 word list" where
  "getNodeSha256Bytes nodes = Sum256 (Join (insertion_sort bytes_less (map node_name nodes)) '','')"

definition isNodeInList :: "'v client \<Rightarrow> Node list \<Rightarrow> bool" where
  "isNodeInList C nodes = list_ex (\<lambda>node. node_name node = GetNodeName C) nodes"

definition WriteCfg :: "'v client \<Rightarrow> 'w ka_env \<Rightarrow> keepAlived \<Rightarrow> 'w \<Rightarrow> unit res \<times> 'w" where
  "WriteCfg C E k w =
     andThen (kMkdirAll E ''/etc/keepalived'' w) (\<lambda>_ w.
     andThen (kCreate E ''/etc/keepalived/keepalived.conf'' w) (\<lambda>_ w.
       case kExecute E (GetNodeName C) (ka_instances k) w of
         (Err e, w) \<Rightarrow> (Err (Errorf (''unexpected error creating keepalived.cfg: '' @ error_text e)), w)
       | (r, w) \<Rightarrow> (r, w)))"

partial_function (option) wait_running :: "'w ka_env \<Rightarrow> 'w \<Rightarrow> 'w option" where
  "wait_running E w =
     (let (missing, w) = kPidMissing E w in if missing then wait_running E (kSleep E w) else Some w)"

declare wait_running.simps [code]

definition Reload :: "'w ka_env \<Rightarrow> keepAlived \<Rightarrow> 'w \<Rightarrow> (unit res \<times> 'w) option" where
  "Reload E k w =
     Option.bind (wait_running E w) (\<lambda>w.
       case ka_cmd k of
         None \<Rightarrow> Some (Panic nil_deref, w)
       | Some pid \<Rightarrow>
           (case kKill E pid ''SIGHUP'' w of
              (Err e, w) \<Rightarrow> Some (Err (Errorf (''error reloading keepalived: '' @ error_text e)), w)
            | (r, w) \<Rightarrow> Some (r, w)))"

text \<open>The end of both operations: write the configuration file and reload keepalived.\<close>

definition write_and_reload ::
    "'v client \<Rightarrow> 'w ka_env \<Rightarrow> keepAlived \<Rightarrow> 'w \<Rightarrow> (unit res \<times> keepAlived \<times> 'w) option" where
  "write_and_reload C E k w =
     (case WriteCfg C E k w of
        (Ok _, w) \<Rightarrow> (case Reload E k w of None \<Rightarrow> None | Some (r, w) \<Rightarrow> Some (r, k, w))
      | (Err e, w) \<Rightarrow> Some (Err e, k, w)
      | (Panic p, w) \<Rightarrow> Some (Panic p, k, w))"

definition instance_name :: "Node list \<Rightarrow> string \<Rightarrow> string" where
  "instance_name nodes iface = EncodeToString (getNodeSha256Bytes nodes) @ ''-'' @ iface"

text \<open>The instance for the nodes, a new one with a router identifier if there is none.\<close>

definition get_instance ::
    "Node list \<Rightarrow> string \<Rightarrow> keepAlived \<Rightarrow> (Instance res \<times> keepAlived) option" where
  "get_instance nodes iface k =
     (let instanceName = instance_name nodes iface in
      case mget (ka_instances k) instanceName of
        Some inst \<Rightarrow> Some (Ok inst, k)
      | None \<Rightarrow>
          (case AllocateWithHash (getNodeSha256Bytes nodes) (ka_idAlloc k) of
             None \<Rightarrow> None
           | Some (Ok routeid, a) \<Rightarrow>
               (let inst = \<lparr>in_Name = instanceName, in_Iface = iface, in_RouteID = routeid, in_Svcips = [],
                            in_Priority = 100, in_Enabled = False\<rparr> in
                Some (Ok inst, k\<lparr>ka_instances := mset_at instanceName inst (ka_instances k), ka_idAlloc := a\<rparr>))
           | Some (Err e, a) \<Rightarrow> Some (Err e, k\<lparr>ka_idAlloc := a\<rparr>)
           | Some (Panic p, a) \<Rightarrow> Some (Panic p, k\<lparr>ka_idAlloc := a\<rparr>)))"

definition ka_SetBalancer ::
    "'v client \<Rightarrow> 'w ka_env \<Rightarrow> string \<Rightarrow> Node list \<Rightarrow> keepAlived \<times> 'w \<Rightarrow> (unit res \<times> keepAlived \<times> 'w) option" where
  "ka_SetBalancer C E vip nodes st =
     (case st of (k, w) \<Rightarrow>
        thenTry (Some (getInterfaces (ka_configs k) vip, k, w)) (\<lambda>iface (k, w).
          if iface = [] then Some (Err (Errorf (''no interface found for VIP '' @ vip)), k, w)
          else
            thenTry
              (case mget (ka_vips k) vip of
                 None \<Rightarrow> Some (Ok (), k, w)
               | Some old \<Rightarrow> (case cleanRecord vip old k of (r, k) \<Rightarrow> Some (r, k, w)))
              (\<lambda>_ (k, w).
                thenTry (map_option (\<lambda>(r, k). (r, k, w)) (get_instance nodes iface k)) (\<lambda>inst (k, w).
                  let instanceName = instance_name nodes iface;
                      inst = inst\<lparr>in_Enabled := isNodeInList C nodes, in_Svcips := in_Svcips inst @ [vip]\<rparr>;
                      k = k\<lparr>ka_instances := mset_at instanceName inst (ka_instances k),
                            ka_vips := mset_at vip instanceName (ka_vips k)\<rparr> in
                  write_and_reload C E k w))))"

definition ka_DelBalancer ::
    "'v client \<Rightarrow> 'w ka_env \<Rightarrow> string \<Rightarrow> keepAlived \<times> 'w \<Rightarrow> (unit res \<times> keepAlived \<times> 'w) option" where
  "ka_DelBalancer C E vip st =
     (case st of (k, w) \<Rightarrow>
        (case mget (ka_vips k) vip of
           None \<Rightarrow> Some (Ok (), k, w)
         | Some instanceName \<Rightarrow>
             (let k = k\<lparr>ka_vips := mdel vip (ka_vips k)\<rparr> in
              if mget (ka_instances k) instanceName = None then Some (Ok (), k, w)
              else
                thenTry (case cleanRecord vip instanceName k of (r, k) \<Rightarrow> Some (r, k, w))
                  (\<lambda>_ (k, w). write_and_reload C E k w))))"

definition ka_ConfigureWithEIP ::
    "'w ka_env \<Rightarrow> Config \<Rightarrow> bool \<Rightarrow> keepAlived \<times> 'w \<Rightarrow> (unit res \<times> keepAlived \<times> 'w) option" where
  "ka_ConfigureWithEIP E config deleted st =
     (case st of (k, w) \<Rightarrow>
        Some
          (case
             andThen (ParseInterface (kHost E) (cfg_Iface config) w) (\<lambda>netif w.
             andThen (ValidateInterface (kHost E) netif (cfg_IPRange config) w) (\<lambda>_ w. (Ok netif, w))) of
             (Err e, w) \<Rightarrow> (Err e, k, w)
           | (Panic p, w) \<Rightarrow> (Panic p, k, w)
           | (Ok netif, w) \<Rightarrow>
               (Ok (),
                (if deleted then k\<lparr>ka_configs := mdel (cfg_Name config) (ka_configs k)\<rparr>
                 else k\<lparr>ka_configs := mset_at (cfg_Name config) (config\<lparr>cfg_Iface := if_Name netif\<rparr>) (ka_configs k)\<rparr>),
                w)))"

text \<open>
  \<open>Start\<close> runs keepalived again whenever it ends, until it is told to stop. The list holds what each
  wait sees: \<open>True\<close> when the process has ended, \<open>False\<close> for the stop channel.
\<close>

definition ka_command :: "keepAlived \<Rightarrow> string list" where
  "ka_command k =
     [''--dont-fork'', ''--log-console'', ''--log-detail'', ''--vrrp'', ''--release-vips''] @
     (if ka_args k \<noteq> [] then Split (ka_args k) (CHR '' '') else [])"

fun ka_run :: "'w ka_env \<Rightarrow> bool list \<Rightarrow> keepAlived \<times> 'w \<Rightarrow> (unit res \<times> keepAlived \<times> 'w) option" where
  "ka_run E waits (k, w) =
     (case kStart E (ka_command k) w of
        (Err e, w) \<Rightarrow> Some (Err e, k\<lparr>ka_cmd := None\<rparr>, w)
      | (Panic p, w) \<Rightarrow> Some (Panic p, k, w)
      | (Ok pid, w) \<Rightarrow>
          (let k = k\<lparr>ka_cmd := Some pid\<rparr> in
           case waits of
             [] \<Rightarrow> None
           | False # _ \<Rightarrow> (case kKill E pid ''SIGTERM'' w of (r, w) \<Rightarrow> Some (r, k, w))
           | True # waits \<Rightarrow> ka_run E waits (k, w)))"

definition ka_Start ::
    "'v client \<Rightarrow> 'w ka_env \<Rightarrow> bool list \<Rightarrow> keepAlived \<times> 'w \<Rightarrow> (unit res \<times> keepAlived \<times> 'w) option" where
  "ka_Start C E waits st =
     (case st of (k, w) \<Rightarrow>
        (case WriteCfg C E k w of
           (Ok _, w) \<Rightarrow> ka_run E waits (k, w)
         | (Err e, w) \<Rightarrow> Some (Err e, k, w)
         | (Panic p, w) \<Rightarrow> Some (Panic p, k, w)))"

definition ka_speaker :: "'v client \<Rightarrow> 'w ka_env \<Rightarrow> (keepAlived \<times> 'w) speaker" where
  "ka_speaker C E =
     \<lparr>sp_SetBalancer = ka_SetBalancer C E, sp_DelBalancer = ka_DelBalancer C E,
      sp_ConfigureWithEIP = ka_ConfigureWithEIP E\<rparr>"

section \<open>The invariant\<close>

definition announced :: "keepAlived \<Rightarrow> string set" where
  "announced k = {ip. \<exists>n inst. mget (ka_instances k) n = Some inst \<and> ip \<in> set (in_Svcips inst)}"

text \<open>What holds of one instance; \<open>X\<close> is the instance under construction, which may be empty.\<close>

definition inst_ok :: "string option \<Rightarrow> keepAlived \<Rightarrow> string \<Rightarrow> Instance \<Rightarrow> bool" where
  "inst_ok X k n inst \<longleftrightarrow>
     distinct (in_Svcips inst) \<and> (X \<noteq> Some n \<longrightarrow> in_Svcips inst \<noteq> []) \<and>
     (\<forall>ip\<in>set (in_Svcips inst). mget (ka_vips k) ip = Some n) \<and>
     in_RouteID inst \<noteq> 0 \<and> unat (in_RouteID inst) \<in> ids (ka_idAlloc k)"

definition ka_inv_but :: "string option \<Rightarrow> keepAlived \<Rightarrow> bool" where
  "ka_inv_but X k \<longleftrightarrow>
     ida_inv (ka_idAlloc k) \<and> capacity (ka_idAlloc k) = 256 \<and> 0 \<in> ids (ka_idAlloc k) \<and>
     (\<forall>n inst. mget (ka_instances k) n = Some inst \<longrightarrow> inst_ok X k n inst) \<and>
     (\<forall>n m i j. mget (ka_instances k) n = Some i \<and> mget (ka_instances k) m = Some j \<and> n \<noteq> m \<longrightarrow>
        in_RouteID i \<noteq> in_RouteID j)"

abbreviation ka_inv :: "keepAlived \<Rightarrow> bool" where
  "ka_inv \<equiv> ka_inv_but None"

lemma remove_svcip_eq: "remove_svcip x xs = remove1 x xs"
proof -
  have idx: "case index_of x xs of None \<Rightarrow> x \<notin> set xs
      | Some i \<Rightarrow> i < length xs \<and> take i xs @ drop (Suc i) xs = remove1 x xs" for xs
    by (induction xs) (auto split: option.splits)
  show ?thesis
  proof (cases "index_of x xs")
    case None
    with idx [of xs] show ?thesis by (simp add: remove_svcip_def remove1_idem)
  next
    case (Some i)
    with idx [of xs] have "i < length xs" "take i xs @ drop (Suc i) xs = remove1 x xs" by simp_all
    moreover from this have "i = length xs - 1 \<Longrightarrow> drop (Suc i) xs = []" by simp
    ultimately show ?thesis using Some by (auto simp: remove_svcip_def)
  qed
qed

lemma announced_in_one:
  assumes "ka_inv_but X k" and "mget (ka_instances k) n = Some inst" and "ip \<in> set (in_Svcips inst)"
  shows "mget (ka_vips k) ip = Some n"
  using assms by (auto simp: ka_inv_but_def inst_ok_def)

text \<open>Adding the instance \<open>n\<close> to the others, or replacing it.\<close>

lemma ka_inv_put:
  assumes "ka_inv_but X k" and "X = None \<or> X = Some n" and "X' = None \<or> X' = Some n"
    and "ka_instances k' = mset_at n inst (ka_instances k)" and "inst_ok X' k' n inst"
    and "ida_inv (ka_idAlloc k')" and "capacity (ka_idAlloc k') = 256" and "ids (ka_idAlloc k) \<subseteq> ids (ka_idAlloc k')"
    and "\<And>m i ip. m \<noteq> n \<Longrightarrow> mget (ka_instances k) m = Some i \<Longrightarrow> ip \<in> set (in_Svcips i) \<Longrightarrow>
       mget (ka_vips k') ip = mget (ka_vips k) ip"
    and "\<And>m i. m \<noteq> n \<Longrightarrow> mget (ka_instances k) m = Some i \<Longrightarrow> in_RouteID i \<noteq> in_RouteID inst"
  shows "ka_inv_but X' k'"
proof -
  have old: "inst_ok X' k' m i" if "mget (ka_instances k) m = Some i" "m \<noteq> n" for m i
  proof -
    have ok: "inst_ok X k m i" using assms(1) that(1) by (simp add: ka_inv_but_def)
    have "mget (ka_vips k') ip = Some m" if "ip \<in> set (in_Svcips i)" for ip
      using assms(9) [OF \<open>m \<noteq> n\<close> \<open>mget (ka_instances k) m = Some i\<close> that] ok that by (simp add: inst_ok_def)
    moreover have "X \<noteq> Some m" using assms(2) that(2) by auto
    ultimately show ?thesis using ok assms(8) that(2) by (auto simp: inst_ok_def)
  qed
  have "0 \<in> ids (ka_idAlloc k')" using assms(1,8) by (auto simp: ka_inv_but_def)
  moreover have "in_RouteID i \<noteq> in_RouteID j"
    if "mget (ka_instances k') a = Some i" "mget (ka_instances k') b = Some j" "a \<noteq> b" for a b i j
  proof -
    have old: "mget (ka_instances k) m = Some x" if "mget (ka_instances k') m = Some x" "m \<noteq> n" for m x
      using that by (simp add: assms(4) gomap_simps)
    have new: "x = inst" if "mget (ka_instances k') n = Some x" for x using that by (simp add: assms(4) gomap_simps)
    show ?thesis
    proof (cases "a = n \<or> b = n")
      case True
      then show ?thesis using that new assms(10) old by metis
    next
      case False
      then show ?thesis using that old assms(1) unfolding ka_inv_but_def by metis
    qed
  qed
  moreover have "inst_ok X' k' m i" if "mget (ka_instances k') m = Some i" for m i
    using that old assms(5) unfolding assms(4) by (auto simp: gomap_simps split: if_splits)
  ultimately show ?thesis using assms(6,7) by (auto simp: ka_inv_but_def)
qed

text \<open>The addresses of the instances other than \<open>n\<close>.\<close>

definition elsewhere :: "string \<Rightarrow> keepAlived \<Rightarrow> string set" where
  "elsewhere n k = {ip. \<exists>m inst. m \<noteq> n \<and> mget (ka_instances k) m = Some inst \<and> ip \<in> set (in_Svcips inst)}"

lemma announced_at:
  "mget (ka_instances k) n = Some inst \<Longrightarrow> announced k = set (in_Svcips inst) \<union> elsewhere n k"
  "mget (ka_instances k) n = None \<Longrightarrow> announced k = elsewhere n k"
  by (auto simp: announced_def elsewhere_def) (metis option.inject option.distinct(1))+

lemma elsewhere_same:
  assumes "\<And>m. m \<noteq> n \<Longrightarrow> mget (ka_instances k') m = mget (ka_instances k) m"
  shows "elsewhere n k' = elsewhere n k"
  using assms unfolding elsewhere_def by (intro Collect_cong) metis

lemma announced_put:
  assumes "ka_instances k' = mset_at n inst (ka_instances k)"
  shows "announced k' = set (in_Svcips inst) \<union> elsewhere n k"
  using announced_at(1) [of k' n inst] elsewhere_same [of n k' k] by (simp add: assms gomap_simps)

lemma announced_remove:
  assumes "ka_instances k' = mdel n (ka_instances k)"
  shows "announced k' = elsewhere n k"
  using announced_at(2) [of k' n] elsewhere_same [of n k' k] by (simp add: assms gomap_simps)

lemma not_elsewhere:
  assumes "ka_inv_but X k" and "mget (ka_vips k) vip = Some n"
  shows "vip \<notin> elsewhere n k"
  using announced_in_one [OF assms(1)] assms(2) by (auto simp: elsewhere_def)

text \<open>Removing an instance and giving its router identifier back.\<close>

lemma ka_inv_remove:
  assumes "ka_inv k" and "mget (ka_instances k) n = Some inst"
  obtains a where "Free_id (in_RouteID inst) (ka_idAlloc k) = (Ok (), a)"
    "ka_inv (k\<lparr>ka_instances := mdel n (ka_instances k), ka_idAlloc := a\<rparr>)"
proof -
  have ok: "inst_ok None k n inst" and k: "ida_inv (ka_idAlloc k)" "capacity (ka_idAlloc k) = 256" "0 \<in> ids (ka_idAlloc k)"
    using assms by (simp_all add: ka_inv_but_def)
  obtain a where a: "Free_id (in_RouteID inst) (ka_idAlloc k) = (Ok (), a)"
    "ids a = ids (ka_idAlloc k) - {unat (in_RouteID inst)}" "ida_inv a" "ia_maxBlocks a = ia_maxBlocks (ka_idAlloc k)"
    using Free_id_Ok [OF k(1), of "in_RouteID inst"] ok unfolding inst_ok_def by blast
  let ?k = "k\<lparr>ka_instances := mdel n (ka_instances k), ka_idAlloc := a\<rparr>"
  have "inst_ok None ?k m i" if "mget (ka_instances k) m = Some i" "m \<noteq> n" for m i
  proof -
    have "inst_ok None k m i" "in_RouteID i \<noteq> in_RouteID inst" using assms that by (auto simp: ka_inv_but_def)
    then show ?thesis using a(2) by (auto simp: inst_ok_def word_unat_eq_iff [symmetric])
  qed
  moreover have "unat (in_RouteID inst) \<noteq> 0" using ok by (simp add: inst_ok_def unat_eq_0)
  moreover have "capacity a = 256" using k(2) a(4) by (simp add: capacity_def)
  ultimately have "ka_inv ?k" using a(2,3) k(3) assms(1) by (auto simp: ka_inv_but_def gomap_simps split: if_splits)
  with a(1) show thesis by (rule that)
qed

lemma cleanRecord_spec:
  assumes "ka_inv k" and "mget (ka_vips k) vip = Some n"
  obtains k' where "cleanRecord vip n k = (Ok (), k')" "ka_inv k'" "ka_vips k' = ka_vips k"
    "ka_configs k' = ka_configs k" "announced k' = announced k - {vip}"
proof (cases "mget (ka_instances k) n")
  case None
  then have "vip \<notin> announced k" using not_elsewhere [OF assms] announced_at(2) by simp
  then show thesis using None assms by (intro that [of k]) (simp_all add: cleanRecord_def)
next
  case (Some inst)
  let ?inst = "inst\<lparr>in_Svcips := remove1 vip (in_Svcips inst)\<rparr>"
  have ok: "inst_ok None k n inst" using assms(1) Some by (simp add: ka_inv_but_def)
  have ann: "announced k - {vip} = set (in_Svcips ?inst) \<union> elsewhere n k"
    using announced_at(1) [OF Some] not_elsewhere [OF assms] ok by (auto simp: inst_ok_def)
  show thesis
  proof (cases "in_Svcips ?inst = []")
    case True
    obtain a where "Free_id (in_RouteID inst) (ka_idAlloc k) = (Ok (), a)"
      "ka_inv (k\<lparr>ka_instances := mdel n (ka_instances k), ka_idAlloc := a\<rparr>)" using ka_inv_remove [OF assms(1) Some] .
    with True show thesis using ann announced_remove [of _ n k]
      by (intro that [of "k\<lparr>ka_instances := mdel n (ka_instances k), ka_idAlloc := a\<rparr>"])
        (simp_all add: cleanRecord_def Some remove_svcip_eq)
  next
    case False
    let ?k = "k\<lparr>ka_instances := mset_at n ?inst (ka_instances k)\<rparr>"
    have "inst_ok None ?k n ?inst"
      using ok False by (auto simp: inst_ok_def dest: notin_set_remove1 set_remove1_subset [THEN subsetD])
    moreover have "in_RouteID i \<noteq> in_RouteID ?inst" if "m \<noteq> n" "mget (ka_instances k) m = Some i" for m i
      using assms(1) that Some by (auto simp: ka_inv_but_def)
    ultimately have "ka_inv ?k" using assms(1) by (intro ka_inv_put [OF assms(1), of n _ ?k ?inst]) (auto simp: ka_inv_but_def)
    then show thesis using False ann announced_put [of ?k n ?inst k]
      by (intro that [of ?k]) (simp_all add: cleanRecord_def Some remove_svcip_eq Let_def)
  qed
qed

lemma ka_inv_forget:
  assumes "ka_inv k" and "vip \<notin> announced k"
  shows "ka_inv (k\<lparr>ka_vips := mdel vip (ka_vips k)\<rparr>)"
proof -
  have "inst_ok None (k\<lparr>ka_vips := mdel vip (ka_vips k)\<rparr>) n i" if "mget (ka_instances k) n = Some i" for n i
  proof -
    have "vip \<notin> set (in_Svcips i)" using assms(2) that by (auto simp: announced_def)
    moreover have "inst_ok None k n i" using assms(1) that by (simp add: ka_inv_but_def)
    ultimately show ?thesis by (auto simp: inst_ok_def gomap_simps)
  qed
  then show ?thesis using assms(1) by (auto simp: ka_inv_but_def)
qed

lemma get_instance_spec:
  assumes "ka_inv k" and "get_instance nodes iface k = Some (r, k')"
  shows "ka_vips k' = ka_vips k" and "announced k' = announced k"
    and "r = Ok inst \<Longrightarrow> ka_inv_but (Some (instance_name nodes iface)) k' \<and>
      mget (ka_instances k') (instance_name nodes iface) = Some inst"
    and "\<not> is_Ok r \<Longrightarrow> ka_inv k'"
proof -
  let ?n = "instance_name nodes iface"
  have res: "ka_vips k' = ka_vips k \<and> announced k' = announced k \<and>
    (\<forall>inst. r = Ok inst \<longrightarrow> ka_inv_but (Some ?n) k' \<and> mget (ka_instances k') ?n = Some inst) \<and> (\<not> is_Ok r \<longrightarrow> ka_inv k')"
  proof (cases "mget (ka_instances k) ?n")
    case (Some inst)
    have "ka_inv_but (Some ?n) k" using assms(1) by (auto simp: ka_inv_but_def inst_ok_def)
    then show ?thesis using assms(2) Some by (auto simp: get_instance_def)
  next
    case None
    have k: "ida_inv (ka_idAlloc k)" "capacity (ka_idAlloc k) = 256" "0 \<in> ids (ka_idAlloc k)"
      using assms(1) by (simp_all add: ka_inv_but_def)
    then have "capacity (ka_idAlloc k) \<le> 2147483648" by simp
    from AllocateWithHash_spec [OF k(1) this, of "getNodeSha256Bytes nodes"] obtain q a where
      a: "AllocateWithHash (getNodeSha256Bytes nodes) (ka_idAlloc k) = Some (q, a)"
      and p: "ida_inv a" "ia_maxBlocks a = ia_maxBlocks (ka_idAlloc k)"
        "(\<exists>m. q = Ok m \<and> unat m \<notin> ids (ka_idAlloc k) \<and> ids a = insert (unat m) (ids (ka_idAlloc k))) \<or>
         q = Err ErrIDsExhausted \<and> ids a = ids (ka_idAlloc k)"
      unfolding probe_or_full_def free_id_def by (metis (no_types, lifting))
    have cap: "capacity a = 256" using k(2) p(2) by (simp add: capacity_def)
    from p(3) show ?thesis
    proof (elim disjE exE conjE)
      fix m assume m: "q = Ok m" "unat m \<notin> ids (ka_idAlloc k)" "ids a = insert (unat m) (ids (ka_idAlloc k))"
      let ?i = "\<lparr>in_Name = ?n, in_Iface = iface, in_RouteID = m, in_Svcips = [], in_Priority = 100, in_Enabled = False\<rparr>"
      let ?k = "k\<lparr>ka_instances := mset_at ?n ?i (ka_instances k), ka_idAlloc := a\<rparr>"
      have r: "r = Ok ?i" "k' = ?k" using assms(2) None a m(1) by (simp_all add: get_instance_def Let_def)
      have "m \<noteq> 0" using m(2) k(3) by auto
      then have "inst_ok (Some ?n) ?k ?n ?i" using m(3) by (simp add: inst_ok_def)
      moreover have "in_RouteID i \<noteq> m" if "mget (ka_instances k) x = Some i" for x i
        using assms(1) that m(2) by (auto simp: ka_inv_but_def inst_ok_def)
      ultimately have "ka_inv_but (Some ?n) ?k"
        using p(1) cap m(3) by (intro ka_inv_put [OF assms(1), of ?n _ ?k ?i]) auto
      moreover have "announced ?k = announced k"
        using announced_put [of ?k ?n ?i k] announced_at(2) [OF None] by simp
      ultimately show ?thesis using r by (simp add: gomap_simps)
    next
      assume m: "q = Err ErrIDsExhausted" "ids a = ids (ka_idAlloc k)"
      have r: "r = Err ErrIDsExhausted" "k' = k\<lparr>ka_idAlloc := a\<rparr>" using assms(2) None a m(1) by (simp_all add: get_instance_def)
      have "ka_inv k'" using assms(1) p(1) cap m(2) by (auto simp: r(2) ka_inv_but_def inst_ok_def)
      then show ?thesis using r by (simp add: announced_def)
    qed
  qed
  then show "ka_vips k' = ka_vips k" "announced k' = announced k" "\<not> is_Ok r \<Longrightarrow> ka_inv k'"
    "r = Ok inst \<Longrightarrow> ka_inv_but (Some ?n) k' \<and> mget (ka_instances k') ?n = Some inst" by simp_all
qed

lemma write_and_reload_keeps: "write_and_reload C E k w = Some (r, k', w') \<Longrightarrow> k' = k"
  by (auto simp: write_and_reload_def split: prod.splits res.splits option.splits)

text \<open>The address joins its instance.\<close>

lemma join_instance:
  assumes "ka_inv_but (Some n) k" and "mget (ka_instances k) n = Some inst" and "vip \<notin> announced k"
    and "k' = k\<lparr>ka_instances := mset_at n (inst\<lparr>in_Enabled := b, in_Svcips := in_Svcips inst @ [vip]\<rparr>) (ka_instances k),
      ka_vips := mset_at vip n (ka_vips k)\<rparr>"
  shows "ka_inv k'" and "announced k' = insert vip (announced k)"
proof -
  let ?i = "inst\<lparr>in_Enabled := b, in_Svcips := in_Svcips inst @ [vip]\<rparr>"
  have ok: "inst_ok (Some n) k n inst" using assms(1,2) by (simp add: ka_inv_but_def)
  have "vip \<notin> set (in_Svcips inst)" using assms(2,3) by (auto simp: announced_def)
  then have new: "inst_ok None k' n ?i" using ok unfolding assms(4) by (auto simp: inst_ok_def gomap_simps)
  show "ka_inv k'"
  proof (rule ka_inv_put [OF assms(1), of n None k' ?i])
    show "mget (ka_vips k') ip = mget (ka_vips k) ip" if "m \<noteq> n" "mget (ka_instances k) m = Some i" "ip \<in> set (in_Svcips i)" for m i ip
      using that assms(3) unfolding assms(4) by (auto simp: gomap_simps announced_def)
    show "in_RouteID i \<noteq> in_RouteID ?i" if "m \<noteq> n" "mget (ka_instances k) m = Some i" for m i
      using assms(1,2) that by (auto simp: ka_inv_but_def)
  qed (use new assms(1) in \<open>simp_all add: assms(4) ka_inv_but_def\<close>)
  show "announced k' = insert vip (announced k)"
    using announced_put [of k' n ?i k] announced_at(1) [OF assms(2)] by (simp add: assms(4))
qed

section \<open>The operations\<close>

lemma ka_SetBalancer_spec:
  assumes "ka_inv k" and "ka_SetBalancer C E vip nodes (k, w) = Some (r, k', w')"
  shows "ka_inv k' \<and> announced k' \<subseteq> insert vip (announced k) \<and> (r = Ok () \<longrightarrow> announced k' = insert vip (announced k))"
proof (cases "getInterfaces (ka_configs k) vip")
  case (Ok iface)
  show ?thesis
  proof (cases "iface = []")
    case True
    with Ok assms show ?thesis by (auto simp: ka_SetBalancer_def)
  next
    case False
    obtain k1 where k1: "ka_inv k1" "announced k1 = announced k - {vip}"
      and run: "thenTry (map_option (\<lambda>(r, k). (r, k, w)) (get_instance nodes iface k1)) (\<lambda>inst (k, w).
          let instanceName = instance_name nodes iface;
              inst = inst\<lparr>in_Enabled := isNodeInList C nodes, in_Svcips := in_Svcips inst @ [vip]\<rparr>;
              k = k\<lparr>ka_instances := mset_at instanceName inst (ka_instances k),
                    ka_vips := mset_at vip instanceName (ka_vips k)\<rparr> in
          write_and_reload C E k w) = Some (r, k', w')"
    proof (cases "mget (ka_vips k) vip")
      case None
      then have "vip \<notin> announced k" using announced_in_one [OF assms(1)] by (fastforce simp: announced_def)
      then show thesis using assms Ok False None by (intro that [of k]) (simp_all add: ka_SetBalancer_def)
    next
      case (Some n)
      obtain k1 where "cleanRecord vip n k = (Ok (), k1)" "ka_inv k1" "announced k1 = announced k - {vip}"
        using cleanRecord_spec [OF assms(1) Some] by blast
      then show thesis using assms(2) Ok False Some by (intro that [of k1]) (simp_all add: ka_SetBalancer_def)
    qed
    from run obtain q k2 where g: "get_instance nodes iface k1 = Some (q, k2)" by (cases "get_instance nodes iface k1") auto
    note gs = get_instance_spec [OF k1(1) g]
    show ?thesis
    proof (cases q)
      case (Ok inst)
      note i = gs(3) [OF Ok]
      have v: "vip \<notin> announced k2" using gs(2) k1(2) by simp
      let ?k = "k2\<lparr>ka_instances := mset_at (instance_name nodes iface)
          (inst\<lparr>in_Enabled := isNodeInList C nodes, in_Svcips := in_Svcips inst @ [vip]\<rparr>) (ka_instances k2),
        ka_vips := mset_at vip (instance_name nodes iface) (ka_vips k2)\<rparr>"
      from run g Ok have "k' = ?k" by (auto simp: Let_def dest: write_and_reload_keeps)
      from join_instance [OF conjunct1 [OF i] conjunct2 [OF i] v this] show ?thesis using gs(2) k1(2) by auto
    qed (use run g gs(2,4) k1(2) in auto)
  qed
qed (use assms in \<open>auto simp: ka_SetBalancer_def\<close>)

lemma cleanRecord_vips: "cleanRecord vip n (k\<lparr>ka_vips := v\<rparr>) = (case cleanRecord vip n k of (r, k) \<Rightarrow> (r, k\<lparr>ka_vips := v\<rparr>))"
  by (auto simp: cleanRecord_def Let_def split: option.splits prod.splits)

lemma ka_DelBalancer_spec:
  assumes "ka_inv k" and "ka_DelBalancer C E vip (k, w) = Some (r, k', w')"
  shows "ka_inv k' \<and> announced k' = announced k - {vip}"
proof (cases "mget (ka_vips k) vip")
  case None
  then have "vip \<notin> announced k" using announced_in_one [OF assms(1)] by (fastforce simp: announced_def)
  then show ?thesis using assms None by (simp add: ka_DelBalancer_def)
next
  case (Some n)
  obtain k1 where c: "cleanRecord vip n k = (Ok (), k1)" "ka_inv k1" "ka_vips k1 = ka_vips k" "announced k1 = announced k - {vip}"
    using cleanRecord_spec [OF assms(1) Some] by blast
  let ?v = "mdel vip (ka_vips k)"
  have f: "ka_inv (k1\<lparr>ka_vips := ?v\<rparr>)" using ka_inv_forget [OF c(2), of vip] c(3,4) by simp
  have ann: "announced (x\<lparr>ka_vips := v\<rparr>) = announced x" for x v by (simp add: announced_def)
  show ?thesis
  proof (cases "mget (ka_instances k) n")
    case None
    then have "k1 = k" "k' = k\<lparr>ka_vips := ?v\<rparr>" using c(1) assms(2) Some by (simp_all add: cleanRecord_def ka_DelBalancer_def)
    then show ?thesis using f c(4) ann by simp
  next
    case (Some i)
    then have "k' = k1\<lparr>ka_vips := ?v\<rparr>" using assms(2) \<open>mget (ka_vips k) vip = Some n\<close> c(1)
      by (auto simp: ka_DelBalancer_def cleanRecord_vips Let_def dest: write_and_reload_keeps)
    then show ?thesis using f c(4) ann by simp
  qed
qed

lemma ka_ConfigureWithEIP_spec:
  assumes "ka_inv k" and "ka_ConfigureWithEIP E c deleted (k, w) = Some (r, k', w')"
  shows "ka_inv k' \<and> announced k' = announced k"
proof -
  have c: "ka_inv (k\<lparr>ka_configs := cs\<rparr>) = ka_inv k" "announced (k\<lparr>ka_configs := cs\<rparr>) = announced k" for cs
    by (simp_all add: ka_inv_but_def inst_ok_def announced_def)
  have "k' = k \<or> (\<exists>cs. k' = k\<lparr>ka_configs := cs\<rparr>)"
    using assms(2) by (auto simp: ka_ConfigureWithEIP_def split: prod.splits res.splits if_splits)
  then show ?thesis using assms(1) c by auto
qed

interpretation ka: speaker_interface "lift_client C" "ka_speaker C' E" "\<lambda>st. announced (fst st)" "\<lambda>st. ka_inv (fst st)"
  for C :: "'w client" and C' :: "'v client" and E :: "'w ka_env"
proof
  fix w :: "keepAlived \<times> 'w" and ip nodes r w'
  assume "ka_inv (fst w)" "sp_SetBalancer (ka_speaker C' E) ip nodes w = Some (r, w')"
  then show "ka_inv (fst w') \<and> announced (fst w') \<subseteq> insert ip (announced (fst w)) \<and>
      (r = Ok () \<longrightarrow> announced (fst w') = insert ip (announced (fst w)))"
    using ka_SetBalancer_spec [of "fst w" C' E ip nodes "snd w" r "fst w'" "snd w'"] by (simp add: ka_speaker_def)
next
  fix w :: "keepAlived \<times> 'w" and ip r w'
  assume "ka_inv (fst w)" "sp_DelBalancer (ka_speaker C' E) ip w = Some (r, w')"
  then show "ka_inv (fst w') \<and> announced (fst w') \<subseteq> announced (fst w) \<and>
      (r = Ok () \<longrightarrow> announced (fst w') = announced (fst w) - {ip})"
    using ka_DelBalancer_spec [of "fst w" C' E ip "snd w" r "fst w'" "snd w'"] by (auto simp: ka_speaker_def)
next
  fix w :: "keepAlived \<times> 'w" and c deleted r w'
  assume "ka_inv (fst w)" "sp_ConfigureWithEIP (ka_speaker C' E) c deleted w = Some (r, w')"
  then show "ka_inv (fst w') \<and> announced (fst w') = announced (fst w)"
    using ka_ConfigureWithEIP_spec [of "fst w" E c deleted "snd w" r "fst w'" "snd w'"] by (simp add: ka_speaker_def)
qed (simp_all add: lift_client_def lift_call_def split: prod.splits)

section \<open>Reachable states\<close>

text \<open>
  The calls of the manager, the goroutine that runs the process, and whatever else happens in the
  world, in any order.
\<close>

inductive ka_reach :: "'v client \<Rightarrow> 'w ka_env \<Rightarrow> keepAlived \<times> 'w \<Rightarrow> bool" for C E where
  init: "NewKeepAlived E args w = (Ok k, w') \<Longrightarrow> ka_reach C E (k, w')"
| SetBalancer: "ka_reach C E st \<Longrightarrow> ka_SetBalancer C E vip nodes st = Some (r, st') \<Longrightarrow> ka_reach C E st'"
| DelBalancer: "ka_reach C E st \<Longrightarrow> ka_DelBalancer C E vip st = Some (r, st') \<Longrightarrow> ka_reach C E st'"
| Configure: "ka_reach C E st \<Longrightarrow> ka_ConfigureWithEIP E c deleted st = Some (r, st') \<Longrightarrow> ka_reach C E st'"
| Spawn: "ka_reach C E (k, w) \<Longrightarrow> kStart E (ka_command k) w = (Ok pid, w') \<Longrightarrow> ka_reach C E (k\<lparr>ka_cmd := Some pid\<rparr>, w')"
| World: "ka_reach C E (k, w) \<Longrightarrow> ka_reach C E (k, w')"

lemma NewKeepAlived_inv: "NewKeepAlived E args w = (Ok k, w') \<Longrightarrow> ka_inv k \<and> announced k = {}"
proof -
  assume new: "NewKeepAlived E args w = (Ok k, w')"
  then obtain a where a: "IDAllocator_New 256 = Ok a" and k: "k = \<lparr>ka_instances = [], ka_vips = [], ka_configs = [], ka_idAlloc = a, ka_args = args, ka_cmd = None\<rparr>"
    by (cases "IDAllocator_New 256") (auto simp: NewKeepAlived_def res_simps)
  show ?thesis using New_spec [OF a] by (simp add: k ka_inv_but_def announced_def)
qed

lemma ka_reach_inv: "ka_reach C E st \<Longrightarrow> ka_inv (fst st)"
proof (induction rule: ka_reach.induct)
  case (SetBalancer st vip nodes r st')
  then show ?case using ka_SetBalancer_spec [of "fst st" C E vip nodes "snd st" r "fst st'" "snd st'"] by simp
next
  case (DelBalancer st vip r st')
  then show ?case using ka_DelBalancer_spec [of "fst st" C E vip "snd st" r "fst st'" "snd st'"] by simp
next
  case (Configure st c deleted r st')
  then show ?case using ka_ConfigureWithEIP_spec [of "fst st" E c deleted "snd st" r "fst st'" "snd st'"] by simp
next
  case (Spawn k w pid w')
  then show ?case by (simp add: ka_inv_but_def inst_ok_def)
qed (simp_all add: NewKeepAlived_inv)

lemma ka_inv_ids:
  assumes "ka_inv k" and "mget (ka_instances k) n = Some i"
  shows "0 < unat (in_RouteID i) \<and> unat (in_RouteID i) < 256"
proof -
  have ok: "inst_ok None k n i" and a: "ida_inv (ka_idAlloc k)" "capacity (ka_idAlloc k) = 256"
    using assms by (simp_all add: ka_inv_but_def)
  have "unat (in_RouteID i) < 64 * length (ia_bits (ka_idAlloc k))" using ok ids_less by (simp add: inst_ok_def)
  also have "\<dots> \<le> 256" using a by (simp add: ida_inv_def capacity_def)
  finally show ?thesis using ok by (simp add: inst_ok_def unat_gt_0)
qed

text \<open>
  (C33) In every state the keepalived speaker can reach, each VRRP instance has an address and a router
  identifier between 1 and 255, no two instances share an identifier, and no address is in two instances.
\<close>

theorem ka_instances_apart:
  assumes "ka_reach C E (k, w)" and "mget (ka_instances k) n = Some i"
  shows "in_Svcips i \<noteq> [] \<and> distinct (in_Svcips i) \<and> 0 < unat (in_RouteID i) \<and> unat (in_RouteID i) < 256 \<and>
    (\<forall>m j. mget (ka_instances k) m = Some j \<and> m \<noteq> n \<longrightarrow>
       in_RouteID j \<noteq> in_RouteID i \<and> set (in_Svcips j) \<inter> set (in_Svcips i) = {})"
proof -
  have inv: "ka_inv k" using ka_reach_inv [OF assms(1)] by simp
  have "set (in_Svcips j) \<inter> set (in_Svcips i) = {}" if "mget (ka_instances k) m = Some j" "m \<noteq> n" for m j
    using announced_in_one [OF inv that(1)] announced_in_one [OF inv assms(2)] that(2) by fastforce
  then show ?thesis using inv assms(2) ka_inv_ids [OF inv assms(2)] by (auto simp: ka_inv_but_def inst_ok_def)
qed

section \<open>The manager with the keepalived speaker\<close>

text \<open>
  The speakers of a process with keepalived, registered in the order of \<open>cmd/speaker/app/speaker.go\<close>: the BGP
  speaker always, then the keepalived speaker, and the layer 2 speaker if it is enabled. The state of the
  other speakers is a part of the world.
\<close>

definition vip_manager :: "'v client \<Rightarrow> 'w ka_env \<Rightarrow> 'w speaker \<Rightarrow> 'w speaker option \<Rightarrow> (keepAlived \<times> 'w) Manager" where
  "vip_manager C' E bgp l2 =
     (let M = RegisterSpeaker OpenELBProtocolBGP (beside bgp) NewSpeakerManager;
          M = RegisterSpeaker OpenELBProtocolVip (ka_speaker C' E) M in
      case l2 of None \<Rightarrow> M | Some l \<Rightarrow> RegisterSpeaker OpenELBProtocolLayer2 (beside l) M)"

lemma vip_manager_speakers:
  assumes "mget (sm_speakers (vip_manager C' E bgp l2)) q = Some s"
  shows "if q = OpenELBProtocolVip then sc_Speaker s = ka_speaker C' E else \<exists>sp. sc_Speaker s = beside sp"
  using assms
  by (auto simp: vip_manager_def RegisterSpeaker_def NewSpeakerManager_def cancel_registered_def cancel_def Let_def
      const_defs gomap_simps split: option.splits if_splits)

interpretation ka_mgr: registered "lift_client C" "ka_speaker C' E" "\<lambda>st. announced (fst st)" "\<lambda>st. ka_inv (fst st)"
  "sm_speakers (vip_manager C' E bgp l2)" OpenELBProtocolVip
  for C :: "'w client" and C' :: "'v client" and E :: "'w ka_env" and bgp :: "'w speaker" and l2 :: "'w speaker option"
proof
  show "sc_Speaker s = ka_speaker C' E" if "mget (sm_speakers (vip_manager C' E bgp l2)) OpenELBProtocolVip = Some s" for s
    using vip_manager_speakers [OF that] by simp
  fix q s and w w' :: "keepAlived \<times> 'w"
  assume "q \<noteq> OpenELBProtocolVip" "mget (sm_speakers (vip_manager C' E bgp l2)) q = Some s" and inv: "ka_inv (fst w)"
  then obtain sp where sp: "sc_Speaker s = beside sp" using vip_manager_speakers by metis
  note keeps = beside_keeps [of sp]
  show "ka_inv (fst w') \<and> announced (fst w') = announced (fst w)"
    if "sp_SetBalancer (sc_Speaker s) ip nodes w = Some (r, w')" for ip nodes r
    using keeps(1) [OF that [unfolded sp]] inv by simp
  show "ka_inv (fst w') \<and> announced (fst w') = announced (fst w)"
    if "sp_DelBalancer (sc_Speaker s) ip w = Some (r, w')" for ip r
    using keeps(2) [OF that [unfolded sp]] inv by simp
  show "ka_inv (fst w') \<and> announced (fst w') = announced (fst w)"
    if "sp_ConfigureWithEIP (sc_Speaker s) c deleted w = Some (r, w')" for c deleted r
    using keeps(3) [OF that [unfolded sp]] inv by simp
qed

text \<open>
  (C6) Exactly the addresses in use are announced: if the keepalived speaker announced the addresses
  recorded in the pools of its protocol, it does so after every successful \<open>HandleEIP\<close>, be the EIP new,
  changed, moved to another interface, moved from or to the protocol of another speaker, or deleted. The BGP speaker,
  and the layer 2 speaker if there is one, serve their protocols beside. No other pool of the protocol shares
  an address with the EIP before or after the change, and the addresses of the EIP have next hops.
\<close>

theorem HandleEIP_announces_used:
  assumes "sm_speakers M = sm_speakers (vip_manager C' E bgp l2)"
    and "ka_inv k" and "announced k = pool_ips OpenELBProtocolVip (sm_pools M)"
    and "exact (lift_client C :: (keepAlived \<times> 'w) client) OpenELBProtocolVip (sm_pools M) eip"
    and "HandleEIP (lift_client C) (Some eip) (M, k, w) = Some (Ok (), M', k', w')"
  shows "announced k' = pool_ips OpenELBProtocolVip (sm_pools M') \<and> ka_inv k'"
  using ka_mgr.HandleEIP_ann [of "(k, w)" M C' E bgp l2 C eip M' "(k', w')"] assms by simp

text \<open>
  (C32) Nothing else is ever announced: whatever the next hops and however the pools overlap, a successful
  \<open>HandleEIP\<close> keeps the addresses the keepalived speaker announces among those recorded in the pools of its protocol, and
  handling the deletion of a known EIP of this protocol withdraws all of its addresses and forgets its pool. The
  BGP speaker, and the layer 2 speaker if there is one, serve their protocols beside.
\<close>

theorem HandleEIP_announces_only_used:
  assumes "sm_speakers M = sm_speakers (vip_manager C' E bgp l2)"
    and "ka_inv k" and "announced k \<subseteq> pool_ips OpenELBProtocolVip (sm_pools M)"
    and "HandleEIP (lift_client C) (Some eip) (M, k, w) = Some (Ok (), M', k', w')"
  shows "announced k' \<subseteq> pool_ips OpenELBProtocolVip (sm_pools M') \<and>
    (\<forall>old. e_deleting eip \<and> mget (sm_pools M) (e_name eip) = Some old \<and> GetProtocol old = OpenELBProtocolVip \<longrightarrow>
       announced k' \<inter> used_ips old = {} \<and> mget (sm_pools M') (e_name eip) = None)"
  using ka_mgr.HandleEIP_ann [of "(k, w)" M C' E bgp l2 C eip M' "(k', w')"]
    ka_mgr.HandleEIP_withdraws [of "(k, w)" M C' E bgp l2 eip _ C M' "(k', w')"] assms by simp

section \<open>Examples\<close>

text \<open>A host on which every call succeeds, with one interface, and a cluster of one node.\<close>

definition calm_env :: "'w ka_env" where
  "calm_env = \<lparr>
     kHost = \<lparr>hInterfaceByName = \<lambda>n w. (Ok \<lparr>if_Name = n, if_Index = 2, if_HardwareAddr = []\<rparr>, w),
       hInterfaceByIndex = \<lambda>i w. (Ok \<lparr>if_Name = ''eth0'', if_Index = i, if_HardwareAddr = []\<rparr>, w),
       hRouteGet = \<lambda>ip w. (Ok [2], w), hAddrs = \<lambda>i w. (Ok [''10.0.0.5/24''], w)\<rparr>,
     kParseFiles = \<lambda>_ w. (Ok (), w), kMkdirAll = \<lambda>_ w. (Ok (), w), kCreate = \<lambda>_ w. (Ok (), w),
     kExecute = \<lambda>_ _ w. (Ok (), w), kPidMissing = \<lambda>w. (False, w), kSleep = \<lambda>w. w,
     kKill = \<lambda>_ _ w. (Ok (), w), kStart = \<lambda>_ w. (Ok 7, w)\<rparr>"

definition ex_node :: Node where
  "ex_node = \<lparr>n_meta = zero_meta\<lparr>m_name := ''n1''\<rparr>, n_addresses = [], n_conditions = []\<rparr>"

definition ex_svc :: Service where
  "ex_svc = \<lparr>s_meta = zero_meta\<lparr>m_namespace := ''d'', m_name := ''s''\<rparr>, s_type = ''LoadBalancer'', s_loadBalancerIP = [],
     s_ipFamilies = [], s_externalTrafficPolicy = ''Cluster'', s_clusterIP = [], s_ports = [], s_ingress = None\<rparr>"

definition ex_client :: "mem client" where
  "ex_client = mem_client\<lparr>cListNodes := \<lambda>w. (Ok [ex_node], w), cGetService := \<lambda>ns n w. (Ok ex_svc, w),
     cGetEndpoints := \<lambda>ns n w. (Ok \<lparr>ep_meta = zero_meta, ep_subsets = []\<rparr>, w)\<rparr>"

definition ex_pool :: "(string, string) gomap \<Rightarrow> nat option \<Rightarrow> Eip" where
  "ex_pool used t = \<lparr>e_meta = zero_meta\<lparr>m_name := ''pool'', m_deletionTimestamp := t\<rparr>,
     e_spec = zero_EipSpec\<lparr>Address := ''10.0.0.1-10.0.0.9'', Protocol := ''vip'', Interface := ''eth0''\<rparr>,
     e_status = zero_EipStatus\<lparr>Used := Some used\<rparr>\<rparr>"

definition ex_ka :: keepAlived where
  "ex_ka = \<lparr>ka_instances = [(''i'', \<lparr>in_Name = ''i'', in_Iface = ''eth0'', in_RouteID = 3,
       in_Svcips = [''10.0.0.1'', ''10.0.0.2''], in_Priority = 100, in_Enabled = True\<rparr>)],
     ka_vips = [(''10.0.0.1'', ''i''), (''10.0.0.2'', ''i'')],
     ka_configs = [(''pool'', \<lparr>cfg_Name = ''pool'', cfg_IPRange = Some (v4Range (v4InV6Prefix @ [10, 0, 0, 1]) (v4InV6Prefix @ [10, 0, 0, 9])), cfg_Iface = ''eth0''\<rparr>)],
     ka_idAlloc = \<lparr>ia_bits = [9], ia_maxBlocks = 4\<rparr>, ka_args = [], ka_cmd = Some 7\<rparr>"

definition idle_speaker :: "'w speaker" where
  "idle_speaker = \<lparr>sp_SetBalancer = \<lambda>_ _ w. Some (Ok (), w), sp_DelBalancer = \<lambda>_ w. Some (Ok (), w),
     sp_ConfigureWithEIP = \<lambda>_ _ w. Some (Ok (), w)\<rparr>"

definition ex_M :: "(keepAlived \<times> mem) Manager" where
  "ex_M = (vip_manager ex_client calm_env idle_speaker None)
     \<lparr>sm_pools := [(''pool'', ex_pool [(''10.0.0.1'', ''d/s''), (''10.0.0.2'', ''d/s'')] None)]\<rparr>"

lemma ex_ka_inv: "ka_inv ex_ka"
proof -
  have "0 \<in> ids \<lparr>ia_bits = [9], ia_maxBlocks = 4\<rparr>" "3 \<in> ids \<lparr>ia_bits = [9], ia_maxBlocks = 4\<rparr>"
    by (simp_all add: ids_def)
  then show ?thesis by (auto simp: ex_ka_def ka_inv_but_def inst_ok_def ida_inv_def capacity_def split: if_splits)
qed

lemma wait_calm: "wait_running calm_env w = Some w"
  by (subst wait_running.simps) (simp add: calm_env_def)

lemma run_Ok: "map_option fst r = Some (Ok ()) \<Longrightarrow> \<exists>M k w. r = Some (Ok (), M, k, w)"
  by (cases r) auto

text \<open>The EIP moves to the BGP speaker.\<close>

definition ex_moved :: Eip where
  "ex_moved = (ex_pool [(''10.0.0.1'', ''d/s'')] None)\<lparr>e_spec := zero_EipSpec\<lparr>Address := ''10.0.0.1-10.0.0.9'', Protocol := ''bgp''\<rparr>\<rparr>"

lemma ex_status:
  "map_option fst (HandleEIP (lift_client ex_client) (Some ex_moved) (ex_M, ex_ka, empty_mem)) =
     Some (Ok ())"
  by code_simp

lemma ex_delete:
  "map_option fst (HandleEIP (lift_client ex_client) (Some (ex_pool [] (Some 1))) (ex_M, ex_ka, empty_mem)) = Some (Ok ())"
  by code_simp

lemma ex_M_simps [simp]:
  "sm_speakers ex_M = sm_speakers (vip_manager ex_client calm_env idle_speaker None)"
  "sm_pools ex_M = [(''pool'', ex_pool [(''10.0.0.1'', ''d/s''), (''10.0.0.2'', ''d/s'')] None)]"
  by (simp_all add: ex_M_def)

lemma ex_pool_simps [simp]:
  "e_name (ex_pool used t) = ''pool''" "GetProtocol (ex_pool used t) = OpenELBProtocolVip" "used_ips (ex_pool used t) = fst ` set used"
  "m_deletionTimestamp (e_meta (ex_pool used t)) = t" "Used (e_status (ex_pool used t)) = Some used"
  by (simp_all add: ex_pool_def GetProtocol_def const_defs used_ips_def nmap_def)

lemma ex_announced: "announced ex_ka = pool_ips OpenELBProtocolVip (sm_pools ex_M)"
  by (auto simp: announced_def ex_ka_def pool_ips_def split: if_splits)

lemma ex_moved_simps [simp]:
  "e_name ex_moved = ''pool''" "GetProtocol ex_moved \<noteq> OpenELBProtocolVip" "Used (e_status ex_moved) = Some [(''10.0.0.1'', ''d/s'')]"
  by (simp_all add: ex_moved_def ex_pool_def GetProtocol_def const_defs)

lemma ex_exact: "exact (lift_client ex_client) OpenELBProtocolVip (sm_pools ex_M) ex_moved"
proof -
  have "getServiceNodes (lift_client ex_client) ''d/s'' w = (Ok [ex_node], w)" for w :: "'a \<times> mem"
    by (simp add: getServiceNodes_def lift_client_def ex_client_def lift_call_def next_hops_def ex_svc_def add_nodes_def)
  then show ?thesis by (auto simp: exact_def has_hops_def pool_ips_def nmap_def)
qed

theorem HandleEIP_announces_used_witness:
  "announced ex_ka \<noteq> {} \<and>
   (\<exists>M' k' w'. HandleEIP (lift_client ex_client) (Some ex_moved) (ex_M, ex_ka, empty_mem) = Some (Ok (), M', k', w') \<and>
      announced k' = pool_ips OpenELBProtocolVip (sm_pools M') \<and> ka_inv k')"
proof -
  have "''10.0.0.1'' \<in> announced ex_ka" by (simp add: announced_def ex_ka_def)
  then have "announced ex_ka \<noteq> {}" by blast
  then show ?thesis
    using run_Ok [OF ex_status] HandleEIP_announces_used [OF ex_M_simps(1) ex_ka_inv ex_announced ex_exact] by blast
qed

theorem HandleEIP_announces_only_used_witness:
  "\<exists>M' k' w'. HandleEIP (lift_client ex_client) (Some (ex_pool [] (Some 1))) (ex_M, ex_ka, empty_mem) =
      Some (Ok (), M', k', w') \<and> announced k' \<inter> {''10.0.0.1'', ''10.0.0.2''} = {}"
proof -
  obtain M' k' w' where run: "HandleEIP (lift_client ex_client) (Some (ex_pool [] (Some 1))) (ex_M, ex_ka, empty_mem) =
      Some (Ok (), M', k', w')" using run_Ok [OF ex_delete] by blast
  from HandleEIP_announces_only_used [OF ex_M_simps(1) ex_ka_inv equalityD1 [OF ex_announced] run]
  have "announced k' \<inter> {''10.0.0.1'', ''10.0.0.2''} = {}" by (simp add: IsZero_def)
  with run show ?thesis by blast
qed

text \<open>A speaker that has been set up announces its first address.\<close>

definition ex_config :: Config where
  "ex_config = \<lparr>cfg_Name = ''pool'', cfg_IPRange = Some (v4Range (v4InV6Prefix @ [10, 0, 0, 1]) (v4InV6Prefix @ [10, 0, 0, 9])),
     cfg_Iface = ''eth0''\<rparr>"

definition ex_start :: keepAlived where
  "ex_start = \<lparr>ka_instances = [], ka_vips = [],
     ka_configs = [(''pool'', ex_config)],
     ka_idAlloc = \<lparr>ia_bits = [1], ia_maxBlocks = 4\<rparr>, ka_args = [], ka_cmd = Some 7\<rparr>"

lemma write_calm:
  assumes "ka_cmd k = Some 7"
  shows "write_and_reload C calm_env k w = Some (Ok (), k, w)"
proof -
  have "Reload calm_env k w = Some (Ok (), w)"
    unfolding Reload_def wait_calm by (simp add: assms calm_env_def)
  moreover have "WriteCfg C calm_env k w = (Ok (), w)" by (simp add: WriteCfg_def calm_env_def)
  ultimately show ?thesis by (simp add: write_and_reload_def)
qed

lemma ex_first:
  "\<exists>k'. ka_SetBalancer ex_client calm_env ''10.0.0.1'' [ex_node] (ex_start, w) = Some (Ok (), k', w)"
proof -
  let ?a = "\<lparr>ia_bits = [1], ia_maxBlocks = 4\<rparr> :: IDAllocator" and ?h = "getNodeSha256Bytes [ex_node]"
  have f: "free_id ?a 1" by (simp add: free_id_def ids_def capacity_def)
  have "ida_inv ?a" "capacity ?a \<le> 2147483648" by (simp_all add: ida_inv_def capacity_def)
  from AllocateWithHash_spec [OF this, of ?h] f obtain m a where "AllocateWithHash ?h ?a = Some (Ok m, a)"
    unfolding probe_or_full_def by metis
  moreover have "getInterfaces (ka_configs ex_start) ''10.0.0.1'' = Ok ''eth0''" by code_simp
  moreover have k: "ka_vips ex_start = []" "ka_instances ex_start = []" "ka_idAlloc ex_start = ?a" "ka_cmd ex_start = Some 7"
    by (simp_all add: ex_start_def)
  ultimately show ?thesis by (simp add: ka_SetBalancer_def get_instance_def write_calm Let_def k)
qed

lemma ex_validate: "validate_loop ''eth0'' (cfg_IPRange ex_config) [''10.0.0.5/24''] = Ok ()"
  by code_simp

lemma ex_parse: "SplitN2 ''eth0'' (CHR '':'') = [''eth0'']"
  by code_simp

lemma ex_new: "NewKeepAlived calm_env [] w = (Ok (ex_start\<lparr>ka_configs := [], ka_cmd := None\<rparr>), w)"
  by (simp add: NewKeepAlived_def calm_env_def IDAllocator_New_def ex_start_def)

lemma ex_configure:
  "ka_ConfigureWithEIP calm_env ex_config False (ex_start\<lparr>ka_configs := [], ka_cmd := None\<rparr>, w) =
     Some (Ok (), ex_start\<lparr>ka_cmd := None\<rparr>, w)"
proof -
  have "cfg_Iface ex_config = ''eth0''" "cfg_Name ex_config = ''pool''" "ex_config\<lparr>cfg_Iface := ''eth0''\<rparr> = ex_config"
    by (simp_all add: ex_config_def)
  then show ?thesis
    by (simp add: ka_ConfigureWithEIP_def ParseInterface_def ValidateInterface_def ex_parse ex_validate calm_env_def
        ex_start_def del: validate_loop.simps)
qed

lemma ex_reach: "ka_reach ex_client calm_env (ex_start, ())"
proof -
  have "ka_reach ex_client calm_env (ex_start\<lparr>ka_cmd := None\<rparr>, ())"
    by (rule ka_reach.Configure [OF ka_reach.init [OF ex_new] ex_configure])
  moreover have "kStart calm_env (ka_command (ex_start\<lparr>ka_cmd := None\<rparr>)) () = (Ok 7, ())" by (simp add: calm_env_def)
  ultimately have "ka_reach ex_client calm_env ((ex_start\<lparr>ka_cmd := None\<rparr>)\<lparr>ka_cmd := Some 7\<rparr>, ())" by (rule ka_reach.Spawn)
  then show ?thesis by (simp add: ex_start_def)
qed

theorem ka_instances_apart_witness:
  "\<exists>k n i. ka_reach ex_client calm_env (k, ()) \<and> mget (ka_instances k) n = Some i \<and> in_Svcips i \<noteq> [] \<and>
     0 < unat (in_RouteID i) \<and> unat (in_RouteID i) < 256"
proof -
  obtain k where run: "ka_SetBalancer ex_client calm_env ''10.0.0.1'' [ex_node] (ex_start, ()) = Some (Ok (), k, ())"
    using ex_first [of "()"] by (rule exE)
  have reach: "ka_reach ex_client calm_env (k, ())" using ka_reach.SetBalancer [OF ex_reach run] .
  have inv: "ka_inv ex_start" using ka_reach_inv [OF ex_reach] unfolding fst_conv .
  have "announced k = insert ''10.0.0.1'' (announced ex_start)"
    using ka_SetBalancer_spec [OF inv run, THEN conjunct2, THEN conjunct2] by (rule mp) (rule refl)
  then have "''10.0.0.1'' \<in> announced k" by (simp only: insertI1)
  then obtain n i where i: "mget (ka_instances k) n = Some i" unfolding announced_def by blast
  note c = ka_instances_apart [OF reach i]
  show ?thesis
    by (rule exI [of _ k], rule exI [of _ n], rule exI [of _ i]) (intro conjI reach i c [THEN conjunct1] c [THEN conjunct2, THEN conjunct2, THEN conjunct1]
        c [THEN conjunct2, THEN conjunct2, THEN conjunct2, THEN conjunct1])
qed

end
