(* ===== verification/Metrics.thy ===== *)
theory Metrics
  imports Prelude
begin

text \<open>
  The metrics, \<open>pkg/metrics/metrics.go\<close>. The Prometheus client is a parameter: setting, adding to,
  incrementing and deleting the series of a vector with given label values, as effects on the world.
  A vector is its name. Values are natural numbers here, as the callers pass counts.
\<close>

record 'w prometheus =
  pSet :: "string \<Rightarrow> string list \<Rightarrow> nat \<Rightarrow> 'w \<Rightarrow> 'w"
  pAdd :: "string \<Rightarrow> string list \<Rightarrow> nat \<Rightarrow> 'w \<Rightarrow> 'w"
  pInc :: "string \<Rightarrow> string list \<Rightarrow> 'w \<Rightarrow> 'w"
  pDelete :: "string \<Rightarrow> string list \<Rightarrow> 'w \<Rightarrow> 'w"

definition addressesTotal :: string where
  "addressesTotal = ''addresses_total''"

definition addressesInUseTotal :: string where
  "addressesInUseTotal = ''addresses_in_use_total''"

definition servicesAllocatedTotal :: string where
  "servicesAllocatedTotal = ''services_allocated_total''"

definition requestsReceived :: string where
  "requestsReceived = ''requests_received''"

definition responsesSent :: string where
  "responsesSent = ''responses_sent''"

definition gratuitousSent :: string where
  "gratuitousSent = ''gratuitous_sent''"

definition sessionUp :: string where
  "sessionUp = ''session_up''"

definition updatesTotal :: string where
  "updatesTotal = ''updates_total''"

definition announcedPrefixesTotal :: string where
  "announcedPrefixesTotal = ''announced_prefixes_total''"

definition pendingPrefixesTotal :: string where
  "pendingPrefixesTotal = ''pending_prefixes_total''"

definition UpdateEipMetrics :: "'w prometheus \<Rightarrow> string \<Rightarrow> nat \<Rightarrow> nat \<Rightarrow> nat \<Rightarrow> 'w \<Rightarrow> 'w" where
  "UpdateEipMetrics P eipName tot used svcCount w =
     pSet P servicesAllocatedTotal [eipName] svcCount
       (pSet P addressesInUseTotal [eipName] used (pSet P addressesTotal [eipName] tot w))"

text \<open>The vectors of the announcers, where those of the EIP are meant.\<close>

definition DeleteEipMetrics :: "'w prometheus \<Rightarrow> string \<Rightarrow> 'w \<Rightarrow> 'w" where
  "DeleteEipMetrics P eip w =
     pDelete P requestsReceived [eip] (pDelete P responsesSent [eip] (pDelete P gratuitousSent [eip] w))"

definition InitLayer2Metrics :: "'w prometheus \<Rightarrow> string \<Rightarrow> 'w \<Rightarrow> 'w" where
  "InitLayer2Metrics P ip w =
     pAdd P requestsReceived [ip] 0 (pAdd P responsesSent [ip] 0 (pAdd P gratuitousSent [ip] 0 w))"

definition UpdateGratuitousSentMetrics :: "'w prometheus \<Rightarrow> string \<Rightarrow> 'w \<Rightarrow> 'w" where
  "UpdateGratuitousSentMetrics P ip w = pInc P gratuitousSent [ip] w"

definition UpdateResponsesSentMetrics :: "'w prometheus \<Rightarrow> string \<Rightarrow> 'w \<Rightarrow> 'w" where
  "UpdateResponsesSentMetrics P ip w = pInc P responsesSent [ip] w"

definition UpdateRequestsReceivedMetrics :: "'w prometheus \<Rightarrow> string \<Rightarrow> 'w \<Rightarrow> 'w" where
  "UpdateRequestsReceivedMetrics P ip w = pInc P requestsReceived [ip] w"

definition DeleteLayer2Metrics :: "'w prometheus \<Rightarrow> string \<Rightarrow> 'w \<Rightarrow> 'w" where
  "DeleteLayer2Metrics P ip w =
     pDelete P requestsReceived [ip] (pDelete P responsesSent [ip] (pDelete P gratuitousSent [ip] w))"

definition InitBGPPeerMetrics :: "'w prometheus \<Rightarrow> string \<Rightarrow> string \<Rightarrow> 'w \<Rightarrow> 'w" where
  "InitBGPPeerMetrics P peerIP node w =
     pAdd P pendingPrefixesTotal [peerIP, node] 0 (pAdd P announcedPrefixesTotal [peerIP, node] 0
       (pAdd P updatesTotal [peerIP, node] 0 (pAdd P sessionUp [peerIP, node] 0 w)))"

definition UpdateBGPSessionMetrics :: "'w prometheus \<Rightarrow> string \<Rightarrow> string \<Rightarrow> nat \<Rightarrow> nat \<Rightarrow> 'w \<Rightarrow> 'w" where
  "UpdateBGPSessionMetrics P peerIP node state updateTotal w =
     pSet P updatesTotal [peerIP, node] updateTotal (pSet P sessionUp [peerIP, node] state w)"

definition UpdateBGPPathMetrics :: "'w prometheus \<Rightarrow> string \<Rightarrow> string \<Rightarrow> nat \<Rightarrow> nat \<Rightarrow> 'w \<Rightarrow> 'w" where
  "UpdateBGPPathMetrics P peerIP node announcedTotal pendingTotal w =
     pAdd P pendingPrefixesTotal [peerIP, node] pendingTotal (pAdd P announcedPrefixesTotal [peerIP, node] announcedTotal w)"

definition DeleteBGPPeerMetrics :: "'w prometheus \<Rightarrow> string \<Rightarrow> string \<Rightarrow> 'w \<Rightarrow> 'w" where
  "DeleteBGPPeerMetrics P peerIP node w =
     pDelete P pendingPrefixesTotal [peerIP, node] (pDelete P announcedPrefixesTotal [peerIP, node]
       (pDelete P updatesTotal [peerIP, node] (pDelete P sessionUp [peerIP, node] w)))"

end
