(* ===== verification/Announcers.thy ===== *)
theory Announcers
  imports Speaker Metrics
begin

text \<open>
  The announcers of the layer 2 speaker, \<open>pkg/speaker/layer2\<close>: \<open>arp_announcer.go\<close> answers ARP requests
  and \<open>ndp_announcer.go\<close> neighbour solicitations for the addresses it announces, \<open>announcer.go\<close> is
  their interface.

  \<open>l2_env\<close> is what the code calls outside the repository: the member list, the packet sockets, the
  codecs of the packet libraries, \<open>ndp.SolicitedNodeMulticast\<close>, the pod list, Prometheus, and the choice
  \<open>sort.Slice\<close> makes between equal elements. \<open>lReceives\<close> tells whether the goroutine of an announcer
  takes the value that \<open>Stop\<close> sends to it. Locks are left out: every operation is one step. The locale
  \<open>announcer_impl\<close> is the contract of both announcers and of their sum.
\<close>

section \<open>Packets and calls outside\<close>

type_synonym HardwareAddr = "8 word list"

datatype Operation = OperationRequest | OperationReply | OtherOperation nat

record ArpPacket =
  ap_Operation :: Operation
  ap_SenderHardwareAddr :: HardwareAddr
  ap_SenderIP :: IP
  ap_TargetHardwareAddr :: HardwareAddr
  ap_TargetIP :: IP

record Frame =
  fr_Destination :: HardwareAddr
  fr_Source :: HardwareAddr
  fr_EtherType :: nat
  fr_Payload :: "8 word list"

datatype Direction = Source | Target

datatype ndp_option = LinkLayerAddress Direction HardwareAddr | OtherOption

record NeighborAdvertisement =
  na_Router :: bool
  na_Solicited :: bool
  na_Override :: bool
  na_TargetAddress :: "8 word list"
  na_Options :: "ndp_option list"

text \<open>What a read of a socket returns: the end of the stream, another error, or a packet.\<close>

datatype 'p read_result = EOF | ReadError | Packet 'p

datatype ndp_message = NeighborSolicitation "8 word list" "ndp_option list" | OtherMessage

record 'w l2_env =
  lHost :: "'w host"
  lProm :: "'w prometheus"
  lMembers :: "'w \<Rightarrow> (string \<times> IP) list \<times> 'w"
  lJoin :: "string list \<Rightarrow> 'w \<Rightarrow> unit res \<times> 'w"
  lListPods :: "string \<Rightarrow> (string, string) gomap \<Rightarrow> 'w \<Rightarrow> string list res \<times> 'w"
  lSort :: "(string \<Rightarrow> string \<Rightarrow> bool) \<Rightarrow> string list \<Rightarrow> string list"
  lListenPacket :: "NetInterface \<Rightarrow> 'w \<Rightarrow> unit res \<times> 'w"
  lArpNew :: "NetInterface \<Rightarrow> 'w \<Rightarrow> unit res \<times> 'w"
  lNdpListen :: "NetInterface \<Rightarrow> 'w \<Rightarrow> unit res \<times> 'w"
  lClose :: "string \<Rightarrow> 'w \<Rightarrow> 'w"
  lReceives :: "string \<Rightarrow> 'w \<Rightarrow> bool"
  lNewPacket :: "Operation \<Rightarrow> HardwareAddr \<Rightarrow> IP \<Rightarrow> HardwareAddr \<Rightarrow> IP \<Rightarrow> ArpPacket res"
  lPacketBinary :: "ArpPacket \<Rightarrow> 8 word list res"
  lFrameBinary :: "Frame \<Rightarrow> 8 word list res"
  lArpWriteTo :: "string \<Rightarrow> 8 word list \<Rightarrow> HardwareAddr \<Rightarrow> 'w \<Rightarrow> unit res \<times> 'w"
  lArpRead :: "string \<Rightarrow> 'w \<Rightarrow> ArpPacket read_result \<times> 'w"
  lNdpWriteTo :: "string \<Rightarrow> NeighborAdvertisement \<Rightarrow> 8 word list \<Rightarrow> 'w \<Rightarrow> unit res \<times> 'w"
  lNdpRead :: "string \<Rightarrow> 'w \<Rightarrow> (ndp_message \<times> 8 word list) read_result \<times> 'w"
  lSolicitedNodeMulticast :: "8 word list \<Rightarrow> 8 word list res"
  lJoinGroup :: "string \<Rightarrow> 8 word list \<Rightarrow> 'w \<Rightarrow> unit res \<times> 'w"
  lLeaveGroup :: "string \<Rightarrow> 8 word list \<Rightarrow> 'w \<Rightarrow> unit res \<times> 'w"

datatype dropReason =
    dropReasonNone
  | dropReasonClosed
  | dropReasonError
  | dropReasonARPReply
  | dropReasonUnknowTargetIP
  | dropReasonLeader
  | dropReasonNotNeighborSolicitation
  | dropReasonNotSourceDirection

text \<open>\<open>netip.Addr.String\<close> for an address without a zone.\<close>

definition netip_String :: "8 word list \<Rightarrow> string" where
  "netip_String b =
     (if length b = 4 then v4_string b
      else if take 12 b = v4InV6Prefix then ''::ffff:'' @ v4_string (drop 12 b)
      else v6_string (v6_groups b))"

definition Broadcast :: HardwareAddr where
  "Broadcast = replicate 6 0xff"

definition IPv6linklocalallnodes :: IP where
  "IPv6linklocalallnodes = [0xff, 0x02] @ replicate 13 0 @ [0x01]"

section \<open>ARP announcer\<close>

record arpAnnouncer =
  a_intf :: NetInterface
  a_ip2mac :: "(string, HardwareAddr) gomap"
  a_ipranges :: "(string, Range) gomap"

definition arp_RegisterIPRange :: "string \<Rightarrow> Range \<Rightarrow> arpAnnouncer \<Rightarrow> arpAnnouncer" where
  "arp_RegisterIPRange name r a = a\<lparr>a_ipranges := mset_at name r (a_ipranges a)\<rparr>"

definition arp_UnregisterIPRange :: "string \<Rightarrow> arpAnnouncer \<Rightarrow> arpAnnouncer" where
  "arp_UnregisterIPRange name a =
     (case mget (a_ipranges a) name of
        None \<Rightarrow> a
      | Some r \<Rightarrow>
          a\<lparr>a_ip2mac :=
              foldl (\<lambda>m (ip, _). if Range_Contains r (net_ParseIP ip) then mdel ip m else m) (a_ip2mac a) (a_ip2mac a),
            a_ipranges := mdel name (a_ipranges a)\<rparr>)"

definition arp_Size :: "arpAnnouncer \<Rightarrow> nat" where
  "arp_Size a = length (a_ipranges a)"

definition arp_ContainsIP :: "IP \<Rightarrow> arpAnnouncer \<Rightarrow> bool" where
  "arp_ContainsIP ip a = list_ex (\<lambda>(_, r). Range_Contains r ip) (a_ipranges a)"

definition arp_getMac :: "string \<Rightarrow> arpAnnouncer \<Rightarrow> HardwareAddr option" where
  "arp_getMac ip a = mget (a_ip2mac a) ip"

definition arp_setMac :: "'w l2_env \<Rightarrow> string \<Rightarrow> HardwareAddr \<Rightarrow> arpAnnouncer \<times> 'w \<Rightarrow> arpAnnouncer \<times> 'w" where
  "arp_setMac E ip mac st =
     (let (a, w) = st;
          w = (if mget (a_ip2mac a) ip = None then InitLayer2Metrics (lProm E) ip w else w) in
      (a\<lparr>a_ip2mac := mset_at ip mac (a_ip2mac a)\<rparr>, w))"

definition newARPAnnouncer :: "'w l2_env \<Rightarrow> NetInterface \<Rightarrow> 'w \<Rightarrow> arpAnnouncer res \<times> 'w" where
  "newARPAnnouncer E ifi w =
     andThen (lListenPacket E ifi w) (\<lambda>_ w.
       case lArpNew E ifi w of
         (Err e, w) \<Rightarrow> (Err (Errorf (''creating ARP Speaker for '' @ if_Name ifi @ '', err='' @ error_text e)), w)
       | (Panic p, w) \<Rightarrow> (Panic p, w)
       | (Ok _, w) \<Rightarrow> (Ok \<lparr>a_intf = ifi, a_ip2mac = [], a_ipranges = []\<rparr>, w))"

definition generateArp ::
    "'w l2_env \<Rightarrow> HardwareAddr \<Rightarrow> Operation \<Rightarrow> HardwareAddr \<Rightarrow> IP \<Rightarrow> HardwareAddr \<Rightarrow> IP \<Rightarrow> 8 word list res" where
  "generateArp E intfHW op srcHW srcIP dstHW dstIP =
     bind_res (lNewPacket E op srcHW srcIP dstHW dstIP) (\<lambda>pkt.
     bind_res (lPacketBinary E pkt) (\<lambda>pb.
       lFrameBinary E \<lparr>fr_Destination = dstHW, fr_Source = intfHW, fr_EtherType = 0x0806, fr_Payload = pb\<rparr>))"

fun arp_gratuitous_loop :: "'w l2_env \<Rightarrow> NetInterface \<Rightarrow> IP \<Rightarrow> Operation list \<Rightarrow> 'w \<Rightarrow> unit res \<times> 'w" where
  "arp_gratuitous_loop E ifi ip [] w = (Ok (), w)"
| "arp_gratuitous_loop E ifi ip (op # ops) w =
     andThen (generateArp E (if_HardwareAddr ifi) op (if_HardwareAddr ifi) ip Broadcast ip, w) (\<lambda>fb w.
     andThen (lArpWriteTo E (if_Name ifi) fb Broadcast w) (\<lambda>_ w. arp_gratuitous_loop E ifi ip ops w))"

definition arp_gratuitous :: "'w l2_env \<Rightarrow> IP \<Rightarrow> arpAnnouncer \<times> 'w \<Rightarrow> unit res \<times> arpAnnouncer \<times> 'w" where
  "arp_gratuitous E ip st =
     (if arp_getMac (IP_String ip) (fst st) \<noteq> None then (Ok (), st)
      else
        (let (a, w) = arp_setMac E (IP_String ip) (if_HardwareAddr (a_intf (fst st))) st;
             (r, w) = arp_gratuitous_loop E (a_intf a) ip [OperationRequest, OperationReply] w in
         (r, a, w)))"

definition arp_AddAnnouncedIP :: "'w l2_env \<Rightarrow> IP \<Rightarrow> arpAnnouncer \<times> 'w \<Rightarrow> unit res \<times> arpAnnouncer \<times> 'w" where
  "arp_AddAnnouncedIP E ip st =
     andThen (arp_gratuitous E ip st) (\<lambda>_ (a, w). (Ok (), a, UpdateGratuitousSentMetrics (lProm E) (IP_String ip) w))"

definition arp_DelAnnouncedIP :: "'w l2_env \<Rightarrow> IP \<Rightarrow> arpAnnouncer \<times> 'w \<Rightarrow> unit res \<times> arpAnnouncer \<times> 'w" where
  "arp_DelAnnouncedIP E ip st =
     (let (a, w) = st in
      (Ok (), a\<lparr>a_ip2mac := mdel (IP_String ip) (a_ip2mac a)\<rparr>, DeleteLayer2Metrics (lProm E) (IP_String ip) w))"

definition arp_Stop :: "'w l2_env \<Rightarrow> arpAnnouncer \<Rightarrow> 'w \<Rightarrow> (unit res \<times> 'w) option" where
  "arp_Stop E a w =
     (let w = lClose E (if_Name (a_intf a)) w in
      if lReceives E (if_Name (a_intf a)) w then Some (Ok (), w) else None)"

definition arp_processRequest :: "'w l2_env \<Rightarrow> arpAnnouncer \<Rightarrow> 'w \<Rightarrow> dropReason res \<times> 'w" where
  "arp_processRequest E a w =
     (case lArpRead E (if_Name (a_intf a)) w of
        (EOF, w) \<Rightarrow> (Ok dropReasonClosed, w)
      | (ReadError, w) \<Rightarrow> (Ok dropReasonError, w)
      | (Packet pkt, w) \<Rightarrow>
          if ap_Operation pkt \<noteq> OperationRequest then (Ok dropReasonARPReply, w)
          else
            (case arp_getMac (IP_String (ap_TargetIP pkt)) a of
               None \<Rightarrow> (Ok dropReasonUnknowTargetIP, w)
             | Some hwAddr \<Rightarrow>
                 (let w = UpdateRequestsReceivedMetrics (lProm E) (IP_String (ap_TargetIP pkt)) w in
                  case generateArp E (if_HardwareAddr (a_intf a)) OperationReply hwAddr (ap_TargetIP pkt)
                         (ap_SenderHardwareAddr pkt) (ap_SenderIP pkt) of
                    Err e \<Rightarrow> (Ok dropReasonError, w)
                  | Panic p \<Rightarrow> (Panic p, w)
                  | Ok fb \<Rightarrow>
                      (case lArpWriteTo E (if_Name (a_intf a)) fb (ap_SenderHardwareAddr pkt) w of
                         (Err e, w) \<Rightarrow> (Ok dropReasonError, w)
                       | (Panic p, w) \<Rightarrow> (Panic p, w)
                       | (Ok _, w) \<Rightarrow>
                           (Ok dropReasonNone, UpdateResponsesSentMetrics (lProm E) (IP_String (ap_TargetIP pkt)) w)))))"

text \<open>The goroutine of \<open>Start\<close>: \<open>True\<close> in the list when the stop channel is ready at that round.\<close>

fun arp_serve :: "'w l2_env \<Rightarrow> arpAnnouncer \<Rightarrow> bool list \<Rightarrow> 'w \<Rightarrow> unit res \<times> 'w" where
  "arp_serve E a [] w = (Ok (), w)"
| "arp_serve E a (True # rounds) w = (Ok (), w)"
| "arp_serve E a (False # rounds) w =
     andThen (arp_processRequest E a w) (\<lambda>reason w.
       if reason = dropReasonClosed then (Ok (), w) else arp_serve E a rounds w)"

section \<open>NDP announcer\<close>

record ndpAnnouncer =
  n_intf :: NetInterface
  n_ip2mac :: "(string, HardwareAddr) gomap"
  n_ipranges :: "(string, Range) gomap"

definition newNDPAnnouncer :: "'w l2_env \<Rightarrow> NetInterface \<Rightarrow> 'w \<Rightarrow> ndpAnnouncer res \<times> 'w" where
  "newNDPAnnouncer E ifi w =
     (case lNdpListen E ifi w of
        (Err e, w) \<Rightarrow> (Err (Errorf (''creating NDP Announcer for '' @ if_Name ifi @ '', err='' @ error_text e)), w)
      | (Panic p, w) \<Rightarrow> (Panic p, w)
      | (Ok _, w) \<Rightarrow> (Ok \<lparr>n_intf = ifi, n_ip2mac = [], n_ipranges = []\<rparr>, w))"

definition ndp_ContainsIP :: "IP \<Rightarrow> ndpAnnouncer \<Rightarrow> bool" where
  "ndp_ContainsIP ip n = list_ex (\<lambda>(_, r). Range_Contains r ip) (n_ipranges n)"

definition ndp_RegisterIPRange :: "string \<Rightarrow> Range \<Rightarrow> ndpAnnouncer \<Rightarrow> ndpAnnouncer" where
  "ndp_RegisterIPRange name r n = n\<lparr>n_ipranges := mset_at name r (n_ipranges n)\<rparr>"

definition ndp_UnregisterIPRange :: "string \<Rightarrow> ndpAnnouncer \<Rightarrow> ndpAnnouncer" where
  "ndp_UnregisterIPRange name n =
     (case mget (n_ipranges n) name of
        None \<Rightarrow> n
      | Some r \<Rightarrow>
          n\<lparr>n_ip2mac :=
              foldl (\<lambda>m (ip, _). if Range_Contains r (net_ParseIP ip) then mdel ip m else m) (n_ip2mac n) (n_ip2mac n),
            n_ipranges := mdel name (n_ipranges n)\<rparr>)"

definition ndp_Size :: "ndpAnnouncer \<Rightarrow> nat" where
  "ndp_Size n = length (n_ipranges n)"

definition ndp_getMac :: "string \<Rightarrow> ndpAnnouncer \<Rightarrow> HardwareAddr option" where
  "ndp_getMac ip n = mget (n_ip2mac n) ip"

definition ndp_setMac :: "'w l2_env \<Rightarrow> string \<Rightarrow> HardwareAddr \<Rightarrow> ndpAnnouncer \<times> 'w \<Rightarrow> ndpAnnouncer \<times> 'w" where
  "ndp_setMac E ip mac st =
     (let (n, w) = st;
          w = (if mget (n_ip2mac n) ip = None then InitLayer2Metrics (lProm E) ip w else w) in
      (n\<lparr>n_ip2mac := mset_at ip mac (n_ip2mac n)\<rparr>, w))"

definition generateNDP :: "bool \<Rightarrow> HardwareAddr \<Rightarrow> 8 word list \<Rightarrow> NeighborAdvertisement" where
  "generateNDP gratuitous srcHW srcIP =
     \<lparr>na_Router = False, na_Solicited = \<not> gratuitous, na_Override = gratuitous, na_TargetAddress = srcIP,
      na_Options = [LinkLayerAddress Target srcHW]\<rparr>"

definition ndp_Gratuitous :: "'w l2_env \<Rightarrow> 8 word list \<Rightarrow> ndpAnnouncer \<times> 'w \<Rightarrow> unit res \<times> ndpAnnouncer \<times> 'w" where
  "ndp_Gratuitous E ip st =
     (if ndp_getMac (netip_String ip) (fst st) \<noteq> None then (Ok (), st)
      else
        (let (n, w) = ndp_setMac E (netip_String ip) (if_HardwareAddr (n_intf (fst st))) st in
         case ParseAddr (IP_String IPv6linklocalallnodes) of
           None \<Rightarrow> (Err (Errorf ''parse IPv6linklocalallnodes''), n, w)
         | Some addr \<Rightarrow>
             (let (r, w) =
                lNdpWriteTo E (if_Name (n_intf n)) (generateNDP True (if_HardwareAddr (n_intf n)) ip) addr w in
              (r, n, w))))"

text \<open>Joining and leaving a multicast group differ in the call and in the messages.\<close>

definition ndp_group ::
    "'w l2_env \<Rightarrow> string \<Rightarrow> (8 word list \<Rightarrow> 'w \<Rightarrow> unit res \<times> 'w) \<Rightarrow> 8 word list \<Rightarrow> 'w \<Rightarrow> unit res \<times> 'w" where
  "ndp_group E verb call ip w =
     (if length ip \<noteq> 16 then (Err (Errorf (verb @ '' multicastgroup need ipv6'')), w)
      else
        (case lSolicitedNodeMulticast E ip of
           Err e \<Rightarrow> (Err (Errorf (''no match solicitedNodeMulticast: '' @ error_text e)), w)
         | Panic p \<Rightarrow> (Panic p, w)
         | Ok multicastGroup \<Rightarrow>
             (case call multicastGroup w of
                (Err e, w) \<Rightarrow> (Err (Errorf (''failed to '' @ verb @ '' multicast group: '' @ error_text e)), w)
              | (r, w) \<Rightarrow> (r, w))))"

definition JoinMulticastGroup :: "'w l2_env \<Rightarrow> ndpAnnouncer \<Rightarrow> 8 word list \<Rightarrow> 'w \<Rightarrow> unit res \<times> 'w" where
  "JoinMulticastGroup E n ip w = ndp_group E ''join'' (lJoinGroup E (if_Name (n_intf n))) ip w"

definition LeaveMulticastGroup :: "'w l2_env \<Rightarrow> ndpAnnouncer \<Rightarrow> 8 word list \<Rightarrow> 'w \<Rightarrow> unit res \<times> 'w" where
  "LeaveMulticastGroup E n ip w = ndp_group E ''leave'' (lLeaveGroup E (if_Name (n_intf n))) ip w"

text \<open>The message about an address that cannot be parsed leaves out the reason given by the parser.\<close>

definition ndp_AddAnnouncedIP :: "'w l2_env \<Rightarrow> IP \<Rightarrow> ndpAnnouncer \<times> 'w \<Rightarrow> unit res \<times> ndpAnnouncer \<times> 'w" where
  "ndp_AddAnnouncedIP E ip st =
     (let (n, w) = st in
      case ParseAddr (IP_String ip) of
        None \<Rightarrow> (Err (Errorf ''parse service ip error''), n, w)
      | Some svcIP \<Rightarrow>
          (case JoinMulticastGroup E n svcIP w of
             (Err e, w) \<Rightarrow> (Err (Errorf ('' ip: '' @ IP_String ip @ '' join multicastgroup err'')), n, w)
           | (Panic p, w) \<Rightarrow> (Panic p, n, w)
           | (Ok _, w) \<Rightarrow>
               andThen (ndp_Gratuitous E svcIP (n, w)) (\<lambda>_ (n, w).
                 (Ok (), n, UpdateGratuitousSentMetrics (lProm E) (IP_String ip) w))))"

definition ndp_DelAnnouncedIP :: "'w l2_env \<Rightarrow> IP \<Rightarrow> ndpAnnouncer \<times> 'w \<Rightarrow> unit res \<times> ndpAnnouncer \<times> 'w" where
  "ndp_DelAnnouncedIP E ip st =
     (let (n, w) = st in
      case ParseAddr (IP_String ip) of
        None \<Rightarrow> (Err (Errorf ''parse service ip error''), n, w)
      | Some svcIP \<Rightarrow>
          (case LeaveMulticastGroup E n svcIP w of
             (Err e, w) \<Rightarrow> (Err (Errorf ('' ip: '' @ IP_String ip @ '' leave multicastgroup err'')), n, w)
           | (Panic p, w) \<Rightarrow> (Panic p, n, w)
           | (Ok _, w) \<Rightarrow>
               (Ok (), n\<lparr>n_ip2mac := mdel (IP_String ip) (n_ip2mac n)\<rparr>, DeleteLayer2Metrics (lProm E) (IP_String ip) w)))"

definition ndp_Stop :: "'w l2_env \<Rightarrow> ndpAnnouncer \<Rightarrow> 'w \<Rightarrow> (unit res \<times> 'w) option" where
  "ndp_Stop E n w =
     (let w = lClose E (if_Name (n_intf n)) w in
      if lReceives E (if_Name (n_intf n)) w then Some (Ok (), w) else None)"

fun source_address :: "ndp_option list \<Rightarrow> HardwareAddr option" where
  "source_address [] = None"
| "source_address (LinkLayerAddress Source hw # os) = Some hw"
| "source_address (_ # os) = source_address os"

definition ndp_processRequest :: "'w l2_env \<Rightarrow> ndpAnnouncer \<Rightarrow> 'w \<Rightarrow> dropReason res \<times> 'w" where
  "ndp_processRequest E n w =
     (case lNdpRead E (if_Name (n_intf n)) w of
        (EOF, w) \<Rightarrow> (Ok dropReasonClosed, w)
      | (ReadError, w) \<Rightarrow> (Ok dropReasonError, w)
      | (Packet (OtherMessage, _), w) \<Rightarrow> (Ok dropReasonNotNeighborSolicitation, w)
      | (Packet (NeighborSolicitation target options, nsSenderIP), w) \<Rightarrow>
          if source_address options = None \<or> source_address options = Some [] then (Ok dropReasonNotSourceDirection, w)
          else
            (case ndp_getMac (netip_String target) n of
               None \<Rightarrow> (Ok dropReasonUnknowTargetIP, w)
             | Some hwAddr \<Rightarrow>
                 (let w = UpdateRequestsReceivedMetrics (lProm E) (netip_String target) w in
                  case lNdpWriteTo E (if_Name (n_intf n)) (generateNDP False hwAddr target) nsSenderIP w of
                    (Err e, w) \<Rightarrow> (Ok dropReasonError, w)
                  | (Panic p, w) \<Rightarrow> (Panic p, w)
                  | (Ok _, w) \<Rightarrow> (Ok dropReasonNone, UpdateResponsesSentMetrics (lProm E) (netip_String target) w))))"

fun ndp_serve :: "'w l2_env \<Rightarrow> ndpAnnouncer \<Rightarrow> bool list \<Rightarrow> 'w \<Rightarrow> unit res \<times> 'w" where
  "ndp_serve E n [] w = (Ok (), w)"
| "ndp_serve E n (True # rounds) w = (Ok (), w)"
| "ndp_serve E n (False # rounds) w =
     andThen (ndp_processRequest E n w) (\<lambda>reason w.
       if reason = dropReasonClosed then (Ok (), w) else ndp_serve E n rounds w)"

section \<open>The interface\<close>

datatype Announcer = ARP arpAnnouncer | NDP ndpAnnouncer

definition newAnnouncer :: "'w l2_env \<Rightarrow> NetInterface \<Rightarrow> Family \<Rightarrow> 'w \<Rightarrow> Announcer res \<times> 'w" where
  "newAnnouncer E iface family w =
     (if family = V4Family then andThen (newARPAnnouncer E iface w) (\<lambda>a w. (Ok (ARP a), w))
      else andThen (newNDPAnnouncer E iface w) (\<lambda>n w. (Ok (NDP n), w)))"

fun AddAnnouncedIP :: "'w l2_env \<Rightarrow> IP \<Rightarrow> Announcer \<times> 'w \<Rightarrow> unit res \<times> Announcer \<times> 'w" where
  "AddAnnouncedIP E ip (ARP a, w) = (let (r, a, w) = arp_AddAnnouncedIP E ip (a, w) in (r, ARP a, w))"
| "AddAnnouncedIP E ip (NDP n, w) = (let (r, n, w) = ndp_AddAnnouncedIP E ip (n, w) in (r, NDP n, w))"

fun DelAnnouncedIP :: "'w l2_env \<Rightarrow> IP \<Rightarrow> Announcer \<times> 'w \<Rightarrow> unit res \<times> Announcer \<times> 'w" where
  "DelAnnouncedIP E ip (ARP a, w) = (let (r, a, w) = arp_DelAnnouncedIP E ip (a, w) in (r, ARP a, w))"
| "DelAnnouncedIP E ip (NDP n, w) = (let (r, n, w) = ndp_DelAnnouncedIP E ip (n, w) in (r, NDP n, w))"

fun Announcer_Stop :: "'w l2_env \<Rightarrow> Announcer \<Rightarrow> 'w \<Rightarrow> (unit res \<times> 'w) option" where
  "Announcer_Stop E (ARP a) w = arp_Stop E a w"
| "Announcer_Stop E (NDP n) w = ndp_Stop E n w"

fun ContainsIP :: "IP \<Rightarrow> Announcer \<Rightarrow> bool" where
  "ContainsIP ip (ARP a) = arp_ContainsIP ip a"
| "ContainsIP ip (NDP n) = ndp_ContainsIP ip n"

fun RegisterIPRange :: "string \<Rightarrow> Range \<Rightarrow> Announcer \<Rightarrow> Announcer" where
  "RegisterIPRange name r (ARP a) = ARP (arp_RegisterIPRange name r a)"
| "RegisterIPRange name r (NDP n) = NDP (ndp_RegisterIPRange name r n)"

fun UnregisterIPRange :: "string \<Rightarrow> Announcer \<Rightarrow> Announcer" where
  "UnregisterIPRange name (ARP a) = ARP (arp_UnregisterIPRange name a)"
| "UnregisterIPRange name (NDP n) = NDP (ndp_UnregisterIPRange name n)"

fun Announcer_Size :: "Announcer \<Rightarrow> nat" where
  "Announcer_Size (ARP a) = arp_Size a"
| "Announcer_Size (NDP n) = ndp_Size n"

section \<open>The contract\<close>

text \<open>\<open>anns\<close> reads the texts of the announced addresses, \<open>rgs\<close> the registered ranges.\<close>

locale announcer_impl =
  fixes add :: "IP \<Rightarrow> 'a \<times> 'w \<Rightarrow> unit res \<times> 'a \<times> 'w" and del :: "IP \<Rightarrow> 'a \<times> 'w \<Rightarrow> unit res \<times> 'a \<times> 'w"
    and contains :: "IP \<Rightarrow> 'a \<Rightarrow> bool" and register :: "string \<Rightarrow> Range \<Rightarrow> 'a \<Rightarrow> 'a"
    and unregister :: "string \<Rightarrow> 'a \<Rightarrow> 'a" and anns :: "'a \<Rightarrow> string set" and rgs :: "'a \<Rightarrow> (string, Range) gomap"
  assumes add_law: "\<And>ip a w r a' w'. add ip (a, w) = (r, a', w') \<Longrightarrow>
      anns a \<subseteq> anns a' \<and> anns a' \<subseteq> insert (IP_String ip) (anns a) \<and> rgs a' = rgs a \<and>
      (r = Ok () \<longrightarrow> IP_String ip \<in> anns a')"
    and del_law: "\<And>ip a w r a' w'. del ip (a, w) = (r, a', w') \<Longrightarrow>
      rgs a' = rgs a \<and> anns a' = (if r = Ok () then anns a - {IP_String ip} else anns a)"
    and contains_law: "\<And>ip a. contains ip a \<longleftrightarrow> (\<exists>(n, r)\<in>set (rgs a). Range_Contains r ip)"
    and register_law: "\<And>n r a. anns (register n r a) = anns a \<and> rgs (register n r a) = mset_at n r (rgs a)"
    and unregister_law: "\<And>n a. rgs (unregister n a) = mdel n (rgs a) \<and>
      anns (unregister n a) = anns a - {ip. \<exists>r. mget (rgs a) n = Some r \<and> Range_Contains r (net_ParseIP ip)}"
begin

text \<open>A range that has been unregistered is gone, with every announced address in it.\<close>

lemma unregistered:
  assumes "mget (rgs a) n = Some r"
  shows "mget (rgs (unregister n a)) n = None" and "ip \<in> anns (unregister n a) \<Longrightarrow> \<not> Range_Contains r (net_ParseIP ip)"
  using unregister_law [of n a] assms by (simp_all add: gomap_simps)

text \<open>Announcing and withdrawing an address leaves the other announcements as they were.\<close>

lemma add_then_del:
  assumes "add ip (a, w) = (r, a', w')" and "del ip (a', w'') = (Ok (), a'', w3)"
  shows "anns a'' = anns a - {IP_String ip}"
  using add_law [OF assms(1)] del_law [OF assms(2)] by auto

end

lemma unregister_loop:
  fixes m m0 :: "('k, 'v) gomap"
  shows "mkeys (foldl (\<lambda>m (ip, _). if P ip then mdel ip m else m) m m0) = mkeys m - {ip \<in> mkeys m0. P ip}"
proof (induction m0 arbitrary: m)
  case (Cons e m0)
  then show ?case by (cases e) (auto simp: gomap_simps)
qed simp

lemma del_absent: "mget m k = None \<Longrightarrow> mdel k m = m"
  by (simp add: mget_None_iff delete_id)

lemma hexString_chars:
  assumes "c \<in> set (hexString ip)"
  shows "c \<noteq> CHR ''.'' \<and> c \<noteq> CHR '':'' \<and> c \<noteq> CHR ''%''"
proof -
  have plain: "list_all (\<lambda>n. hex_char n \<noteq> CHR ''.'' \<and> hex_char n \<noteq> CHR '':'' \<and> hex_char n \<noteq> CHR ''%'') [0..<16]"
    by code_simp
  from assms obtain b where "c = hex_char (unat b div 16) \<or> c = hex_char (unat (b :: 8 word) mod 16)"
    by (auto simp: hexString_def)
  moreover have "unat b div 16 < 16" "unat b mod 16 < 16" using unat_byte_less [of b] by auto
  ultimately show ?thesis using plain by (auto simp: list_all_iff)
qed

text \<open>The two ways of printing an IPv6 address agree on what the announcers print.\<close>

lemma IP_String_netip:
  assumes "ParseAddr (IP_String ip) = Some b" and "length b = 16"
  shows "netip_String b = IP_String ip"
proof -
  have "length ip = 4 \<or> length ip = 16"
  proof (rule ccontr)
    assume n: "\<not> (length ip = 4 \<or> length ip = 16)"
    have "find (\<lambda>c. c = CHR ''.'' \<or> c = CHR '':'' \<or> c = CHR ''%'') (IP_String ip) = None"
      using n hexString_chars [of _ ip] by (auto simp: IP_String_def find_None_iff)
    then have "ParseAddr (IP_String ip) = None" by (simp add: ParseAddr_def)
    with assms(1) show False by simp
  qed
  moreover have t: "To4 ip = []"
  proof (rule ccontr)
    assume t: "To4 ip \<noteq> []"
    have ne: "ip \<noteq> []" using t by (auto simp: To4_def)
    have "IP_String ip = v4_string (To4 ip)" using t ne \<open>length ip = 4 \<or> length ip = 16\<close> by (auto simp: IP_String_def)
    then have "length b = 4" using assms(1) length_To4 [OF t] ParseAddr_v4_string [of "To4 ip"] by simp
    with assms(2) show False by simp
  qed
  ultimately have ip: "length ip = 16" by (auto simp: To4_def)
  have s: "IP_String ip = v6_string (v6_groups ip)" using t ip by (auto simp: IP_String_def)
  have "b = ip" using assms(1) ip v6_groups_props [of ip] by (simp add: s ParseAddr_v6_string)
  moreover have "take 12 ip \<noteq> v4InV6Prefix" using t ip by (auto simp: To4_def split: if_splits)
  ultimately show ?thesis using ip by (simp add: netip_String_def s)
qed

lemma arp_gratuitous_ip2mac:
  assumes "arp_gratuitous E ip (a, w) = (r, a', w')"
  shows "mkeys (a_ip2mac a') = insert (IP_String ip) (mkeys (a_ip2mac a))" and "a_ipranges a' = a_ipranges a"
proof -
  have "mkeys (a_ip2mac a') = insert (IP_String ip) (mkeys (a_ip2mac a)) \<and> a_ipranges a' = a_ipranges a"
  proof (cases "mget (a_ip2mac a) (IP_String ip)")
    case None
    then have "a' = a\<lparr>a_ip2mac := mset_at (IP_String ip) (if_HardwareAddr (a_intf a)) (a_ip2mac a)\<rparr>"
      using assms by (simp add: arp_gratuitous_def arp_getMac_def arp_setMac_def Let_def split: prod.splits)
    then show ?thesis by (simp add: gomap_simps)
  next
    case (Some mac)
    then show ?thesis using assms mget_Some_key [OF Some] by (simp add: arp_gratuitous_def arp_getMac_def insert_absorb)
  qed
  then show "mkeys (a_ip2mac a') = insert (IP_String ip) (mkeys (a_ip2mac a))" "a_ipranges a' = a_ipranges a" by simp_all
qed

lemma ndp_Gratuitous_ip2mac:
  assumes "ndp_Gratuitous E ip (n, w) = (r, n', w')"
  shows "mkeys (n_ip2mac n') = insert (netip_String ip) (mkeys (n_ip2mac n))" and "n_ipranges n' = n_ipranges n"
proof -
  have "mkeys (n_ip2mac n') = insert (netip_String ip) (mkeys (n_ip2mac n)) \<and> n_ipranges n' = n_ipranges n"
  proof (cases "mget (n_ip2mac n) (netip_String ip)")
    case None
    then have "n' = n\<lparr>n_ip2mac := mset_at (netip_String ip) (if_HardwareAddr (n_intf n)) (n_ip2mac n)\<rparr>"
      using assms by (simp add: ndp_Gratuitous_def ndp_getMac_def ndp_setMac_def Let_def split: prod.splits option.splits)
    then show ?thesis by (simp add: gomap_simps)
  next
    case (Some mac)
    then show ?thesis using assms mget_Some_key [OF Some] by (simp add: ndp_Gratuitous_def ndp_getMac_def insert_absorb)
  qed
  then show "mkeys (n_ip2mac n') = insert (netip_String ip) (mkeys (n_ip2mac n))" "n_ipranges n' = n_ipranges n" by simp_all
qed

interpretation arp: announcer_impl "arp_AddAnnouncedIP E" "arp_DelAnnouncedIP E" arp_ContainsIP arp_RegisterIPRange
  arp_UnregisterIPRange "\<lambda>a. mkeys (a_ip2mac a)" a_ipranges for E
proof
  fix ip a r a' and w w' :: 'a assume run: "arp_AddAnnouncedIP E ip (a, w) = (r, a', w')"
  obtain r1 a1 w1 where g: "arp_gratuitous E ip (a, w) = (r1, a1, w1)" by (metis prod_cases3)
  then have "a' = a1" using run by (cases r1) (auto simp: arp_AddAnnouncedIP_def)
  then show "mkeys (a_ip2mac a) \<subseteq> mkeys (a_ip2mac a') \<and> mkeys (a_ip2mac a') \<subseteq> insert (IP_String ip) (mkeys (a_ip2mac a)) \<and>
      a_ipranges a' = a_ipranges a \<and> (r = Ok () \<longrightarrow> IP_String ip \<in> mkeys (a_ip2mac a'))"
    using arp_gratuitous_ip2mac [OF g] by (simp add: subset_insertI)
qed (auto simp: arp_DelAnnouncedIP_def arp_ContainsIP_def arp_RegisterIPRange_def arp_UnregisterIPRange_def gomap_simps
    list_ex_iff unregister_loop del_absent split: option.splits)

lemma ndp_join_v6: "JoinMulticastGroup E n b w = (Ok x, w') \<Longrightarrow> length b = 16"
  by (auto simp: JoinMulticastGroup_def ndp_group_def split: if_splits)

interpretation ndp: announcer_impl "ndp_AddAnnouncedIP E" "ndp_DelAnnouncedIP E" ndp_ContainsIP ndp_RegisterIPRange
  ndp_UnregisterIPRange "\<lambda>n. mkeys (n_ip2mac n)" n_ipranges for E
proof
  fix ip n r n' and w w' :: 'a assume run: "ndp_AddAnnouncedIP E ip (n, w) = (r, n', w')"
  show "mkeys (n_ip2mac n) \<subseteq> mkeys (n_ip2mac n') \<and> mkeys (n_ip2mac n') \<subseteq> insert (IP_String ip) (mkeys (n_ip2mac n)) \<and>
      n_ipranges n' = n_ipranges n \<and> (r = Ok () \<longrightarrow> IP_String ip \<in> mkeys (n_ip2mac n'))"
  proof (cases "\<exists>b x w1. ParseAddr (IP_String ip) = Some b \<and> JoinMulticastGroup E n b w = (Ok x, w1)")
    case True
    then obtain b x w1 where b: "ParseAddr (IP_String ip) = Some b" "JoinMulticastGroup E n b w = (Ok x, w1)" by blast
    obtain r1 n1 w2 where g: "ndp_Gratuitous E b (n, w1) = (r1, n1, w2)" by (metis prod_cases3)
    then have "n' = n1" using run b by (cases r1) (auto simp: ndp_AddAnnouncedIP_def)
    then show ?thesis using ndp_Gratuitous_ip2mac [OF g] IP_String_netip [OF b(1) ndp_join_v6 [OF b(2)]]
      by (simp add: subset_insertI)
  next
    case False
    then have "n' = n" "r \<noteq> Ok ()" using run by (auto simp: ndp_AddAnnouncedIP_def split: option.splits prod.splits res.splits)
    then show ?thesis by (simp add: subset_insertI)
  qed
next
  fix ip n r n' and w w' :: 'a assume "ndp_DelAnnouncedIP E ip (n, w) = (r, n', w')"
  then have "r = Ok () \<and> n' = n\<lparr>n_ip2mac := mdel (IP_String ip) (n_ip2mac n)\<rparr> \<or> r \<noteq> Ok () \<and> n' = n"
    by (auto simp: ndp_DelAnnouncedIP_def split: option.splits prod.splits res.splits)
  then show "n_ipranges n' = n_ipranges n \<and>
      mkeys (n_ip2mac n') = (if r = Ok () then mkeys (n_ip2mac n) - {IP_String ip} else mkeys (n_ip2mac n))"
    by (elim disjE conjE) (simp_all add: gomap_simps)
qed (auto simp: ndp_ContainsIP_def ndp_RegisterIPRange_def ndp_UnregisterIPRange_def gomap_simps
    list_ex_iff unregister_loop del_absent split: option.splits)

text \<open>An announcer of either kind.\<close>

fun announced_by :: "Announcer \<Rightarrow> string set" where
  "announced_by (ARP a) = mkeys (a_ip2mac a)"
| "announced_by (NDP n) = mkeys (n_ip2mac n)"

fun ranges_of :: "Announcer \<Rightarrow> (string, Range) gomap" where
  "ranges_of (ARP a) = a_ipranges a"
| "ranges_of (NDP n) = n_ipranges n"

interpretation anc: announcer_impl "AddAnnouncedIP E" "DelAnnouncedIP E" ContainsIP RegisterIPRange UnregisterIPRange
  announced_by ranges_of for E
proof
  fix ip a r a' and w w' :: 'a
  show "announced_by a \<subseteq> announced_by a' \<and> announced_by a' \<subseteq> insert (IP_String ip) (announced_by a) \<and>
      ranges_of a' = ranges_of a \<and> (r = Ok () \<longrightarrow> IP_String ip \<in> announced_by a')"
    if run: "AddAnnouncedIP E ip (a, w) = (r, a', w')"
  proof (cases a)
    case (ARP x)
    obtain x' where x: "arp_AddAnnouncedIP E ip (x, w) = (r, x', w')" "a' = ARP x'" using run ARP by (auto split: prod.splits)
    show ?thesis using arp.add_law [OF x(1)] unfolding ARP x(2) announced_by.simps ranges_of.simps .
  next
    case (NDP x)
    obtain x' where x: "ndp_AddAnnouncedIP E ip (x, w) = (r, x', w')" "a' = NDP x'" using run NDP by (auto split: prod.splits)
    show ?thesis using ndp.add_law [OF x(1)] unfolding NDP x(2) announced_by.simps ranges_of.simps .
  qed
  show "ranges_of a' = ranges_of a \<and> announced_by a' = (if r = Ok () then announced_by a - {IP_String ip} else announced_by a)"
    if run: "DelAnnouncedIP E ip (a, w) = (r, a', w')"
  proof (cases a)
    case (ARP x)
    obtain x' where x: "arp_DelAnnouncedIP E ip (x, w) = (r, x', w')" "a' = ARP x'" using run ARP by (auto split: prod.splits)
    show ?thesis using arp.del_law [OF x(1)] unfolding ARP x(2) announced_by.simps ranges_of.simps .
  next
    case (NDP x)
    obtain x' where x: "ndp_DelAnnouncedIP E ip (x, w) = (r, x', w')" "a' = NDP x'" using run NDP by (auto split: prod.splits)
    show ?thesis using ndp.del_law [OF x(1)] unfolding NDP x(2) announced_by.simps ranges_of.simps .
  qed
next
  fix ip n r and a :: Announcer
  show "ContainsIP ip a \<longleftrightarrow> (\<exists>(n, r)\<in>set (ranges_of a). Range_Contains r ip)"
    using arp.contains_law ndp.contains_law by (cases a) simp_all
  show "announced_by (RegisterIPRange n r a) = announced_by a \<and> ranges_of (RegisterIPRange n r a) = mset_at n r (ranges_of a)"
    using arp.register_law ndp.register_law by (cases a) simp_all
  show "ranges_of (UnregisterIPRange n a) = mdel n (ranges_of a) \<and> announced_by (UnregisterIPRange n a) =
      announced_by a - {ip. \<exists>r. mget (ranges_of a) n = Some r \<and> Range_Contains r (net_ParseIP ip)}"
    using arp.unregister_law ndp.unregister_law by (cases a) simp_all
qed

end
