(* ===== verification/Layer2.thy ===== *)
theory Layer2
  imports Announcers Announce Digest
begin

text \<open>
  The layer 2 speaker, \<open>pkg/speaker/layer2/memberlist.go\<close>: one announcer per interface, and an election
  among the nodes for each address. The speakers of all nodes order the candidates, the members of the
  list that are next hops, by the hash of node and address, and the first one announces the address.
\<close>

section \<open>Definitions\<close>

record layer2Speaker =
  l2_announcers :: "(string, Announcer) gomap"

record l2_Options =
  o_EnableLayer2 :: bool
  o_NodeName :: string
  o_BindAddr :: string
  o_BindPort :: int
  o_SecretKey :: string

definition l2_NewOptions :: "'v client \<Rightarrow> l2_Options" where
  "l2_NewOptions C = \<lparr>o_EnableLayer2 = False, o_NodeName = GetNodeName C, o_BindAddr = ''0.0.0.0'',
     o_BindPort = 7946, o_SecretKey = Layer2MemberlistDefaultSecret\<rparr>"

text \<open>The member list is created with a name, an address, a port and a secret, by the call \<open>create\<close>.\<close>

definition l2_NewSpeaker ::
    "'v client \<Rightarrow> (string \<Rightarrow> string \<Rightarrow> int \<Rightarrow> string \<Rightarrow> 'w \<Rightarrow> unit res \<times> 'w) \<Rightarrow> l2_Options \<Rightarrow> 'w \<Rightarrow>
     layer2Speaker res \<times> 'w" where
  "l2_NewSpeaker C create opt w =
     (let secret = (if GetSecret C = [] then o_SecretKey opt else GetSecret C) in
      andThen (create (o_NodeName opt) (o_BindAddr opt) (o_BindPort opt) secret w)
        (\<lambda>_ w. (Ok \<lparr>l2_announcers = []\<rparr>, w)))"

definition joinMembers :: "'v client \<Rightarrow> 'w l2_env \<Rightarrow> 'w \<Rightarrow> unit res \<times> 'w" where
  "joinMembers C E w =
     andThen (lListPods E (EnvNamespace C) [(''app'', ''openelb''), (''component'', ''speaker'')] w)
       (\<lambda>iplist w. lJoin E iplist w)"

text \<open>The order of the election.\<close>

definition bytes_before :: "8 word list \<Rightarrow> 8 word list \<Rightarrow> bool" where
  "bytes_before a b = (bytes_Compare a b < 0)"

definition node_hash :: "string \<Rightarrow> string \<Rightarrow> 8 word list" where
  "node_hash ip node = Sum256 (node @ ''#'' @ ip)"

definition candidates :: "(string \<times> IP) list \<Rightarrow> Node list \<Rightarrow> string list" where
  "candidates mlist clusterNodes =
     (let member = foldl (\<lambda>m (name, addr). mset_at name (IP_String addr) m) [] mlist in
      filter (\<lambda>n. mget member n \<noteq> None) (map node_name clusterNodes))"

fun l2_set_loop ::
    "'v client \<Rightarrow> 'w l2_env \<Rightarrow> string \<Rightarrow> Node list \<Rightarrow> (string, Announcer) gomap \<Rightarrow> layer2Speaker \<times> 'w \<Rightarrow>
     unit res \<times> layer2Speaker \<times> 'w" where
  "l2_set_loop C E ip clusterNodes [] st = (Ok (), st)"
| "l2_set_loop C E ip clusterNodes ((ifname, a) # as) (l, w) =
     (if ContainsIP (net_ParseIP ip) a then
        (let (mlist, w) = lMembers E w; nodes = candidates mlist clusterNodes in
         if nodes = [] then (Ok (), l, w)
         else
           (let nodes = lSort E (\<lambda>x y. bytes_before (node_hash ip x) (node_hash ip y)) nodes in
            if hd nodes \<noteq> GetNodeName C then (Ok (), l, w)
            else
              (let (r, a, w) = AddAnnouncedIP E (net_ParseIP ip) (a, w) in
               (r, l\<lparr>l2_announcers := mset_at ifname a (l2_announcers l)\<rparr>, w))))
      else l2_set_loop C E ip clusterNodes as (l, w))"

definition l2_SetBalancer ::
    "'v client \<Rightarrow> 'w l2_env \<Rightarrow> string \<Rightarrow> Node list \<Rightarrow> layer2Speaker \<times> 'w \<Rightarrow> unit res \<times> layer2Speaker \<times> 'w" where
  "l2_SetBalancer C E ip clusterNodes st = l2_set_loop C E ip clusterNodes (l2_announcers (fst st)) st"

fun l2_del_loop ::
    "'w l2_env \<Rightarrow> string \<Rightarrow> (string, Announcer) gomap \<Rightarrow> layer2Speaker \<times> 'w \<Rightarrow> unit res \<times> layer2Speaker \<times> 'w" where
  "l2_del_loop E ip [] st = (Ok (), st)"
| "l2_del_loop E ip ((ifname, a) # as) (l, w) =
     (if ContainsIP (net_ParseIP ip) a then
        (let (r, a, w) = DelAnnouncedIP E (net_ParseIP ip) (a, w) in
         (r, l\<lparr>l2_announcers := mset_at ifname a (l2_announcers l)\<rparr>, w))
      else l2_del_loop E ip as (l, w))"

definition l2_DelBalancer ::
    "'w l2_env \<Rightarrow> string \<Rightarrow> layer2Speaker \<times> 'w \<Rightarrow> unit res \<times> layer2Speaker \<times> 'w" where
  "l2_DelBalancer E ip st = l2_del_loop E ip (l2_announcers (fst st)) st"

definition registerAnnouncer ::
    "'w l2_env \<Rightarrow> string \<Rightarrow> NetInterface \<Rightarrow> Range \<Rightarrow> layer2Speaker \<times> 'w \<Rightarrow> unit res \<times> layer2Speaker \<times> 'w" where
  "registerAnnouncer E eipName netif r st =
     (let (l, w) = st;
          put = (\<lambda>a l. l\<lparr>l2_announcers := mset_at (if_Name netif) (RegisterIPRange eipName r a) (l2_announcers l)\<rparr>) in
      case mget (l2_announcers l) (if_Name netif) of
        Some a \<Rightarrow> (Ok (), put a l, w)
      | None \<Rightarrow>
          (case newAnnouncer E netif (Range_Family r) w of
             (Err e, w) \<Rightarrow>
               (Err (Errorf (''new Announcer error. interface '' @ if_Name netif @ '', error '' @ error_text e)), l, w)
           | (Panic p, w) \<Rightarrow> (Panic p, l, w)
           | (Ok a, w) \<Rightarrow> (Ok (), put a l, w)))"

definition unregisterAnnouncer ::
    "'w l2_env \<Rightarrow> string \<Rightarrow> string \<Rightarrow> layer2Speaker \<times> 'w \<Rightarrow> (unit res \<times> layer2Speaker \<times> 'w) option" where
  "unregisterAnnouncer E eipName netifName st =
     (let (l, w) = st in
      case mget (l2_announcers l) netifName of
        None \<Rightarrow> Some (Ok (), l, w)
      | Some a \<Rightarrow>
          (let a = UnregisterIPRange eipName a;
               l = l\<lparr>l2_announcers := mset_at netifName a (l2_announcers l)\<rparr> in
           if Announcer_Size a = 0 then
             (case Announcer_Stop E a w of
                None \<Rightarrow> None
              | Some (Ok _, w) \<Rightarrow> Some (Ok (), l\<lparr>l2_announcers := mdel netifName (l2_announcers l)\<rparr>, w)
              | Some (Err e, w) \<Rightarrow> Some (Err e, l, w)
              | Some (Panic p, w) \<Rightarrow> Some (Panic p, l, w))
           else Some (Ok (), l, w)))"

fun stop_all :: "'w l2_env \<Rightarrow> (string, Announcer) gomap \<Rightarrow> 'w \<Rightarrow> (unit res \<times> 'w) option" where
  "stop_all E [] w = Some (Ok (), w)"
| "stop_all E ((_, a) # as) w =
     (case Announcer_Stop E a w of
        None \<Rightarrow> None
      | Some (Panic p, w) \<Rightarrow> Some (Panic p, w)
      | Some (_, w) \<Rightarrow> stop_all E as w)"

definition unregisterAllAnnouncers :: "'w l2_env \<Rightarrow> layer2Speaker \<times> 'w \<Rightarrow> (unit res \<times> layer2Speaker \<times> 'w) option" where
  "unregisterAllAnnouncers E st =
     (let (l, w) = st in
      case stop_all E (l2_announcers l) w of
        None \<Rightarrow> None
      | Some (Ok _, w) \<Rightarrow> Some (Ok (), l\<lparr>l2_announcers := []\<rparr>, w)
      | Some (r, w) \<Rightarrow> Some (r, l, w))"

text \<open>
  \<open>ValidateInterface\<close> never accepts a range that is nil, so that the announcers get a range.
\<close>

definition l2_ConfigureWithEIP ::
    "'w l2_env \<Rightarrow> Config \<Rightarrow> bool \<Rightarrow> layer2Speaker \<times> 'w \<Rightarrow> (unit res \<times> layer2Speaker \<times> 'w) option" where
  "l2_ConfigureWithEIP E config deleted st =
     (let (l, w) = st in
      case
        andThen (ParseInterface (lHost E) (cfg_Iface config) w) (\<lambda>netif w.
        andThen (ValidateInterface (lHost E) netif (cfg_IPRange config) w) (\<lambda>_ w. (Ok netif, w))) of
        (Err e, w) \<Rightarrow> Some (Err e, l, w)
      | (Panic p, w) \<Rightarrow> Some (Panic p, l, w)
      | (Ok netif, w) \<Rightarrow>
          if deleted then unregisterAnnouncer E (cfg_Name config) (if_Name netif) (l, w)
          else
            (case cfg_IPRange config of
               None \<Rightarrow> Some (Panic nil_deref, l, w)
             | Some r \<Rightarrow> Some (registerAnnouncer E (cfg_Name config) netif r (l, w))))"

text \<open>
  The loop of \<open>Start\<close> on the events it waits for: \<open>False\<close> is a change of the member list, which sends a
  reload request for the EIPs to the controller, \<open>True\<close> the end. The result counts the requests.
\<close>

fun l2_Start_loop :: "'w l2_env \<Rightarrow> bool list \<Rightarrow> nat \<Rightarrow> layer2Speaker \<times> 'w \<Rightarrow> (unit res \<times> nat \<times> layer2Speaker \<times> 'w) option" where
  "l2_Start_loop E [] reloads st = None"
| "l2_Start_loop E (False # events) reloads st = l2_Start_loop E events (Suc reloads) st"
| "l2_Start_loop E (True # events) reloads st =
     (case unregisterAllAnnouncers E st of None \<Rightarrow> None | Some (r, st) \<Rightarrow> Some (r, reloads, st))"

definition l2_Start ::
    "'v client \<Rightarrow> 'w l2_env \<Rightarrow> bool list \<Rightarrow> layer2Speaker \<times> 'w \<Rightarrow> (unit res \<times> nat \<times> layer2Speaker \<times> 'w) option" where
  "l2_Start C E events st =
     (let (l, w) = st in
      case joinMembers C E w of
        (Ok _, w) \<Rightarrow> l2_Start_loop E events 0 (l, w)
      | (Err e, w) \<Rightarrow> Some (Err e, 0, l, w)
      | (Panic p, w) \<Rightarrow> Some (Panic p, 0, l, w))"

definition l2_speaker :: "'v client \<Rightarrow> 'w l2_env \<Rightarrow> (layer2Speaker \<times> 'w) speaker" where
  "l2_speaker C E =
     \<lparr>sp_SetBalancer = \<lambda>ip nodes st. Some (l2_SetBalancer C E ip nodes st),
      sp_DelBalancer = \<lambda>ip st. Some (l2_DelBalancer E ip st),
      sp_ConfigureWithEIP = l2_ConfigureWithEIP E\<rparr>"

section \<open>The log of the member list\<close>

text \<open>
  \<open>logRegexp\<close> finds the first pair of brackets around capital letters; the message is the rest of that
  line. \<open>None\<close> stands for no match.
\<close>

definition is_capital :: "char \<Rightarrow> bool" where
  "is_capital c \<longleftrightarrow> 65 \<le> (of_char c :: nat) \<and> (of_char c :: nat) \<le> 90"

fun logRegexp :: "string \<Rightarrow> (string \<times> string) option" where
  "logRegexp [] = None"
| "logRegexp (c # cs) =
     (let level = takeWhile is_capital cs; rest = dropWhile is_capital cs in
      if c = CHR ''['' \<and> level \<noteq> [] \<and> rest \<noteq> [] \<and> hd rest = CHR '']''
      then Some (level, takeWhile (\<lambda>c. c \<noteq> CHR 0x0A) (tl rest))
      else logRegexp cs)"

definition subexps :: "string \<Rightarrow> (string, string) gomap" where
  "subexps line =
     (case logRegexp line of None \<Rightarrow> [] | Some (level, msg) \<Rightarrow> [(''level'', level), (''msg'', msg)])"

datatype severity = LogV2 | LogInfo | LogWarning | LogError

definition logWithLevel :: "string \<Rightarrow> severity" where
  "logWithLevel lvl =
     (if lvl = ''DEBUG'' then LogV2
      else if lvl = ''INFO'' then LogInfo
      else if lvl = ''WARN'' then LogWarning
      else if lvl = ''ERR'' \<or> lvl = ''ERROR'' then LogError
      else LogInfo)"

text \<open>What is logged for a line, and at which severity; all of the bytes count as written.\<close>

definition logWriter_Write :: "string \<Rightarrow> nat \<times> severity \<times> string list" where
  "logWriter_Write p =
     (let result = subexps p;
          keyvals = (case mget result ''msg'' of Some msg \<Rightarrow> [msg] | None \<Rightarrow> []);
          level = mget_str (Some result) ''level'';
          level = (if level = [] then ''INFO'' else level) in
      (length p, logWithLevel level, keyvals))"

section \<open>The election\<close>

text \<open>The node that wins an address among the candidates \<open>S\<close>.\<close>

definition wins :: "string \<Rightarrow> string set \<Rightarrow> string \<Rightarrow> bool" where
  "wins ip S n \<longleftrightarrow> n \<in> S \<and> (\<forall>m\<in>S. \<not> bytes_before (node_hash ip m) (node_hash ip n))"

definition l2_ips :: "layer2Speaker \<Rightarrow> string set" where
  "l2_ips l = (\<Union>(n, a)\<in>set (l2_announcers l). announced_by a)"

lemma bytes_before_num: "bytes_before (node_hash ip m) (node_hash ip n) \<longleftrightarrow> SetBytes (node_hash ip m) < SetBytes (node_hash ip n)"
  by (simp add: bytes_before_def node_hash_def bytes_Compare_sgn length_Sum256 sgn_if)

lemma strict_weak_hash: "strict_weak (\<lambda>x y. bytes_before (node_hash ip x) (node_hash ip y))"
  by (auto simp: strict_weak_def bytes_before_num)

lemma wins_hd:
  assumes "sorts_slices srt" and "xs \<noteq> []"
  shows "wins ip (set xs) (hd (srt (\<lambda>x y. bytes_before (node_hash ip x) (node_hash ip y)) xs))"
proof -
  have s: "slice_sorter srt" using assms(1) by unfold_locales
  show ?thesis
    using slice_sorter.hd_srt_in [OF s strict_weak_hash assms(2)] slice_sorter.hd_srt_least [OF s strict_weak_hash]
    by (simp add: wins_def)
qed

lemma wins_unique:
  assumes "inj_on (node_hash ip) S" and "wins ip S n" and "wins ip S m"
  shows "n = m"
proof -
  have "SetBytes (node_hash ip n) = SetBytes (node_hash ip m)"
    using assms(2,3) by (auto simp: wins_def bytes_before_num intro!: antisym)
  then have "node_hash ip n = node_hash ip m"
    using SetBytes_inject [of "node_hash ip n" "node_hash ip m"] by (simp add: node_hash_def length_Sum256)
  then show ?thesis using assms by (auto simp: wins_def dest: inj_onD)
qed

lemma l2_set_loop_find:
  "l2_set_loop C E ip clusterNodes as (l, w) =
     (case find (\<lambda>(_, a). ContainsIP (net_ParseIP ip) a) as of
        None \<Rightarrow> (Ok (), l, w)
      | Some (ifname, a) \<Rightarrow> l2_set_loop C E ip clusterNodes [(ifname, a)] (l, w))"
proof (induction as)
  case (Cons x as)
  then show ?case by (cases x) simp
qed simp

text \<open>The node whose name is sorted to the front is the one that wins.\<close>

lemma winner_hd:
  assumes "sorts_slices srt" and "xs \<noteq> []" and "inj_on (node_hash ip) (set xs)"
  shows "wins ip (set xs) n \<longleftrightarrow> hd (srt (\<lambda>x y. bytes_before (node_hash ip x) (node_hash ip y)) xs) = n"
  using wins_hd [OF assms(1,2)] wins_unique [OF assms(3)] by blast

text \<open>
  (C9) The election for an address, when the hashes of the candidates (the given nodes that are members) differ: exactly
  one of them wins if there is any,
  whatever the order in which nodes and members come and equal elements are sorted. A successful
  \<open>SetBalancer\<close> on the node that wins announces the address, provided that an announcer has a range with the address;
  without such an announcer, without candidates and on every other node it succeeds and
  changes no announcer, not even one that announces the address since an earlier election.
\<close>

theorem l2_SetBalancer_elects:
  assumes "sorts_slices (lSort E)" and "S = set (candidates (fst (lMembers E w)) clusterNodes)"
    and "inj_on (node_hash ip) S" and "l2_SetBalancer C E ip clusterNodes (l, w) = (r, l', w')"
  shows "(S \<noteq> {} \<longrightarrow> (\<exists>!n. wins ip S n)) \<and>
    (if wins ip S (GetNodeName C) \<and> (\<exists>(n, a)\<in>set (l2_announcers l). ContainsIP (net_ParseIP ip) a)
     then r = Ok () \<longrightarrow> IP_String (net_ParseIP ip) \<in> l2_ips l' else r = Ok () \<and> l' = l)"
proof -
  let ?nodes = "candidates (fst (lMembers E w)) clusterNodes"
  let ?win = "hd (lSort E (\<lambda>x y. bytes_before (node_hash ip x) (node_hash ip y)) ?nodes)"
  note self = winner_hd [OF assms(1) _ assms(3) [unfolded assms(2)], folded assms(2)]
  have one: "S \<noteq> {} \<longrightarrow> (\<exists>!n. wins ip S n)" using self assms(2) by auto
  have empty: "\<not> wins ip S n" if "?nodes = []" for n using that assms(2) by (simp add: wins_def)
  obtain ml w1 where ml: "lMembers E w = (ml, w1)" by fastforce
  show ?thesis
  proof (cases "find (\<lambda>(_, a). ContainsIP (net_ParseIP ip) a) (l2_announcers l)")
    case None
    then have "r = Ok () \<and> l' = l" using assms(4) l2_set_loop_find [of C E ip clusterNodes "l2_announcers l" l w]
      by (simp add: l2_SetBalancer_def)
    then show ?thesis using one None by (auto simp: find_None_iff)
  next
    case (Some p)
    then obtain ifname a where f: "find (\<lambda>(_, a). ContainsIP (net_ParseIP ip) a) (l2_announcers l) = Some (ifname, a)" by (cases p) simp
    then have c: "ContainsIP (net_ParseIP ip) a" by (auto simp: find_Some_iff)
    have some: "\<exists>(n, a)\<in>set (l2_announcers l). ContainsIP (net_ParseIP ip) a"
      using f find_None_iff [of "\<lambda>(_, a). ContainsIP (net_ParseIP ip) a" "l2_announcers l"] by auto
    have run: "l2_set_loop C E ip clusterNodes [(ifname, a)] (l, w) = (r, l', w')"
      using assms(4) l2_set_loop_find [of C E ip clusterNodes "l2_announcers l" l w] f by (simp add: l2_SetBalancer_def)
    show ?thesis
    proof (cases "wins ip S (GetNodeName C)")
      case False
      then have "r = Ok () \<and> l' = l" using run c ml self by (auto simp: Let_def split: if_splits)
      then show ?thesis using one False by simp
    next
      case True
      have ne: "?nodes \<noteq> []" using empty True by blast
      then have "?win = GetNodeName C" using self True by simp
      then obtain a' where a: "AddAnnouncedIP E (net_ParseIP ip) (a, w1) = (r, a', w')"
        and l': "l' = l\<lparr>l2_announcers := mset_at ifname a' (l2_announcers l)\<rparr>"
        using run c ne ml by (auto simp: Let_def split: prod.splits)
      have "announced_by a' \<subseteq> l2_ips l'" using map_of_SomeD [of "mset_at ifname a' (l2_announcers l)" ifname a']
        by (auto simp: l2_ips_def l' gomap_simps)
      then show ?thesis using one some True anc.add_law [OF a] by auto
    qed
  qed
qed

section \<open>Withdrawing an EIP\<close>

text \<open>
  (C34) When the layer 2 speaker has dropped an EIP, the announcer of its interface announces no address
  of the range of the EIP and keeps at least one other range; an announcer that has lost its last range
  is gone. The announcers of the other interfaces are as they were.
\<close>

theorem unregisterAnnouncer_withdraws:
  assumes "mget (l2_announcers l) netifName = Some a" and "mget (ranges_of a) eipName = Some rg"
    and "unregisterAnnouncer E eipName netifName (l, w) = Some (Ok (), l', w')"
  shows "(\<forall>a'. mget (l2_announcers l') netifName = Some a' \<longrightarrow>
      mget (ranges_of a') eipName = None \<and> ranges_of a' \<noteq> [] \<and> (\<forall>ip\<in>announced_by a'. \<not> Range_Contains rg (net_ParseIP ip))) \<and>
    (\<forall>n. n \<noteq> netifName \<longrightarrow> mget (l2_announcers l') n = mget (l2_announcers l) n)"
proof -
  let ?a = "UnregisterIPRange eipName a"
  have size: "Announcer_Size x = length (ranges_of x)" for x by (cases x) (simp_all add: arp_Size_def ndp_Size_def)
  show ?thesis
  proof (cases "ranges_of ?a = []")
    case True
    obtain w1 where "Announcer_Stop E ?a w = Some (Ok (), w1)"
      using assms(1,3) True by (auto simp: unregisterAnnouncer_def size Let_def split: option.splits res.splits prod.splits)
    then have "l2_announcers l' = mdel netifName (mset_at netifName ?a (l2_announcers l))"
      using assms(1,3) True by (auto simp: unregisterAnnouncer_def size Let_def)
    then show ?thesis by (simp add: gomap_simps)
  next
    case False
    then have l': "l2_announcers l' = mset_at netifName ?a (l2_announcers l)"
      using assms(1,3) by (auto simp: unregisterAnnouncer_def size Let_def)
    show ?thesis using False anc.unregistered [OF assms(2)] by (simp add: l' gomap_simps)
  qed
qed

section \<open>Examples\<close>

text \<open>A host on which every call succeeds and the member list has one node.\<close>

definition calm_prom :: "'w prometheus" where
  "calm_prom = \<lparr>pSet = \<lambda>_ _ _ w. w, pAdd = \<lambda>_ _ _ w. w, pInc = \<lambda>_ _ w. w, pDelete = \<lambda>_ _ w. w\<rparr>"

definition calm_l2 :: "'w l2_env" where
  "calm_l2 = \<lparr>
     lHost = \<lparr>hInterfaceByName = \<lambda>n w. (Ok \<lparr>if_Name = n, if_Index = 2, if_HardwareAddr = [2, 0, 0, 0, 0, 1]\<rparr>, w),
       hInterfaceByIndex = \<lambda>i w. (Ok \<lparr>if_Name = ''eth0'', if_Index = i, if_HardwareAddr = [2, 0, 0, 0, 0, 1]\<rparr>, w),
       hRouteGet = \<lambda>ip w. (Ok [2], w), hAddrs = \<lambda>i w. (Ok [''10.0.0.5/24''], w)\<rparr>,
     lProm = calm_prom, lMembers = \<lambda>w. ([(''n1'', [10, 0, 0, 5])], w), lJoin = \<lambda>_ w. (Ok (), w),
     lListPods = \<lambda>_ _ w. (Ok [], w), lSort = insertion_sort, lListenPacket = \<lambda>_ w. (Ok (), w), lArpNew = \<lambda>_ w. (Ok (), w),
     lNdpListen = \<lambda>_ w. (Ok (), w), lClose = \<lambda>_ w. w, lReceives = \<lambda>_ _. True,
     lNewPacket = \<lambda>op shw sip thw tip. Ok \<lparr>ap_Operation = op, ap_SenderHardwareAddr = shw, ap_SenderIP = sip,
        ap_TargetHardwareAddr = thw, ap_TargetIP = tip\<rparr>,
     lPacketBinary = \<lambda>_. Ok [], lFrameBinary = \<lambda>_. Ok [], lArpWriteTo = \<lambda>_ _ _ w. (Ok (), w), lArpRead = \<lambda>_ w. (EOF, w),
     lNdpWriteTo = \<lambda>_ _ _ w. (Ok (), w), lNdpRead = \<lambda>_ w. (EOF, w), lSolicitedNodeMulticast = \<lambda>ip. Ok ip,
     lJoinGroup = \<lambda>_ _ w. (Ok (), w), lLeaveGroup = \<lambda>_ _ w. (Ok (), w)\<rparr>"

definition ex_range :: Range where
  "ex_range = v4Range (v4InV6Prefix @ [10, 0, 0, 1]) (v4InV6Prefix @ [10, 0, 0, 9])"

definition ex_arp :: Announcer where
  "ex_arp = ARP \<lparr>a_intf = \<lparr>if_Name = ''eth0'', if_Index = 2, if_HardwareAddr = [2, 0, 0, 0, 0, 1]\<rparr>,
     a_ip2mac = [(''10.0.0.2'', [2, 0, 0, 0, 0, 1]), (''10.0.1.7'', [2, 0, 0, 0, 0, 1])],
     a_ipranges = [(''pool'', ex_range), (''other'', v4Range (v4InV6Prefix @ [10, 0, 1, 1]) (v4InV6Prefix @ [10, 0, 1, 9]))]\<rparr>"

definition ex_l2 :: layer2Speaker where
  "ex_l2 = \<lparr>l2_announcers = [(''eth0'', ex_arp)]\<rparr>"

definition ex_n1 :: Node where
  "ex_n1 = \<lparr>n_meta = zero_meta\<lparr>m_name := ''n1''\<rparr>, n_addresses = [], n_conditions = []\<rparr>"

definition ex_self :: "mem client" where
  "ex_self = mem_client\<lparr>cGetenv := \<lambda>_. ''n1''\<rparr>"

lemma ex_candidates: "candidates (fst (lMembers calm_l2 w)) [ex_n1] = [''n1'']"
  by (simp add: candidates_def calm_l2_def ex_n1_def)

lemma ex_contains: "ContainsIP (net_ParseIP ''10.0.0.3'') ex_arp"
  by code_simp

lemma ex_add: "fst (AddAnnouncedIP calm_l2 (net_ParseIP ''10.0.0.3'') (ex_arp, ())) = Ok ()"
  by code_simp

lemma ex_set: "fst (l2_SetBalancer ex_self calm_l2 ''10.0.0.3'' [ex_n1] (ex_l2, ())) = Ok ()"
proof -
  have "lSort calm_l2 lt [x] = [x]" for lt x by (simp add: calm_l2_def insertion_sort_def)
  then show ?thesis using ex_add ex_candidates [of "()"]
    by (simp add: l2_SetBalancer_def ex_l2_def ex_contains GetNodeName_def ex_self_def Let_def split: prod.splits) auto
qed

theorem l2_SetBalancer_elects_witness:
  "\<exists>l'. l2_SetBalancer ex_self calm_l2 ''10.0.0.3'' [ex_n1] (ex_l2, ()) = (Ok (), l', ()) \<and> ''10.0.0.3'' \<in> l2_ips l'"
proof -
  obtain l' where run: "l2_SetBalancer ex_self calm_l2 ''10.0.0.3'' [ex_n1] (ex_l2, ()) = (Ok (), l', ())"
    using ex_set by (cases "l2_SetBalancer ex_self calm_l2 ''10.0.0.3'' [ex_n1] (ex_l2, ())") auto
  have srt: "sorts_slices (lSort (calm_l2 :: unit l2_env))" by (simp add: calm_l2_def insertion_sort_sorts)
  have S: "{''n1''} = set (candidates (fst (lMembers calm_l2 ())) [ex_n1])" by (simp add: ex_candidates)
  have c: "\<exists>(n, a)\<in>set (l2_announcers ex_l2). ContainsIP (net_ParseIP ''10.0.0.3'') a" using ex_contains by (simp add: ex_l2_def)
  have w: "wins ''10.0.0.3'' {''n1''} (GetNodeName ex_self)" by (simp add: wins_def bytes_before_num GetNodeName_def ex_self_def)
  have t: "IP_String (net_ParseIP ''10.0.0.3'') = ''10.0.0.3''" by code_simp
  have i: "inj_on (node_hash ''10.0.0.3'') {''n1''}" by simp
  note e = l2_SetBalancer_elects [OF srt S i run, THEN conjunct2, unfolded if_P [OF conjI [OF w c]] t]
  show ?thesis by (rule exI [of _ l']) (intro conjI run mp [OF e] refl)
qed

lemma ex_unregister: "map_option fst (unregisterAnnouncer calm_l2 ''pool'' ''eth0'' (ex_l2, ())) = Some (Ok ())"
  by code_simp

theorem unregisterAnnouncer_withdraws_witness:
  "\<exists>l'. unregisterAnnouncer calm_l2 ''pool'' ''eth0'' (ex_l2, ()) = Some (Ok (), l', ()) \<and>
     (\<forall>a'. mget (l2_announcers l') ''eth0'' = Some a' \<longrightarrow> mget (ranges_of a') ''pool'' = None)"
proof -
  obtain l' where run: "unregisterAnnouncer calm_l2 ''pool'' ''eth0'' (ex_l2, ()) = Some (Ok (), l', ())"
    using ex_unregister by (cases "unregisterAnnouncer calm_l2 ''pool'' ''eth0'' (ex_l2, ())") auto
  have "mget (l2_announcers ex_l2) ''eth0'' = Some ex_arp" "mget (ranges_of ex_arp) ''pool'' = Some ex_range"
    by (simp_all add: ex_l2_def ex_arp_def)
  note u = unregisterAnnouncer_withdraws [OF this run, THEN conjunct1]
  show ?thesis by (rule exI [of _ l']) (intro conjI run allI impI, rule u [rule_format, THEN conjunct1])
qed

end
