(* ===== verification/BgpConfig.thy ===== *)
theory BgpConfig
  imports Prelude
begin

text \<open>
  The policy configuration of the BGP speaker, \<open>pkg/speaker/bgp/bgp/config/bgp_configs.go\<close>: the
  enumerations, which are named strings with tables to integers, and the structures a policy file is
  decoded into. A slice that is compared with nil is an option; the empty struct \<open>IgpConditions\<close> is left out.
\<close>

section \<open>Enumerations\<close>

text \<open>\<open>enum_ToInt\<close> and \<open>enum_Validate\<close> are the bodies the methods of the enumerations share.\<close>

definition enum_ToInt :: "(string, int) gomap \<Rightarrow> string \<Rightarrow> int" where
  "enum_ToInt m v = (case mget m v of None \<Rightarrow> -1 | Some i \<Rightarrow> i)"

definition enum_Validate :: "string \<Rightarrow> (string, int) gomap \<Rightarrow> string \<Rightarrow> unit res" where
  "enum_Validate name m v =
     (case mget m v of None \<Rightarrow> Err (Errorf (''invalid '' @ name @ '': '' @ v)) | Some _ \<Rightarrow> Ok ())"

type_synonym BgpOriginAttrType = string

definition BgpOriginAttrTypeToIntMap :: "(BgpOriginAttrType, int) gomap" where
  "BgpOriginAttrTypeToIntMap = [(''igp'', 0), (''egp'', 1), (''incomplete'', 2)]"

definition IntToBgpOriginAttrTypeMap :: "(int, BgpOriginAttrType) gomap" where
  "IntToBgpOriginAttrTypeMap = [(0, ''igp''), (1, ''egp''), (2, ''incomplete'')]"

type_synonym BgpWellKnownStdCommunity = string

definition BgpWellKnownStdCommunityToIntMap :: "(BgpWellKnownStdCommunity, int) gomap" where
  "BgpWellKnownStdCommunityToIntMap =
     [(''no_export'', 0), (''no_advertise'', 1), (''no_export_subconfed'', 2), (''nopeer'', 3)]"

definition IntToBgpWellKnownStdCommunityMap :: "(int, BgpWellKnownStdCommunity) gomap" where
  "IntToBgpWellKnownStdCommunityMap =
     [(0, ''no_export''), (1, ''no_advertise''), (2, ''no_export_subconfed''), (3, ''nopeer'')]"

definition BgpWellKnownStdCommunity_Validate :: "BgpWellKnownStdCommunity \<Rightarrow> unit res" where
  "BgpWellKnownStdCommunity_Validate v =
     enum_Validate ''BgpWellKnownStdCommunity'' BgpWellKnownStdCommunityToIntMap v"

definition BgpWellKnownStdCommunity_ToInt :: "BgpWellKnownStdCommunity \<Rightarrow> int" where
  "BgpWellKnownStdCommunity_ToInt v = enum_ToInt BgpWellKnownStdCommunityToIntMap v"

type_synonym MatchSetOptionsRestrictedType = string

definition MatchSetOptionsRestrictedTypeToIntMap :: "(MatchSetOptionsRestrictedType, int) gomap" where
  "MatchSetOptionsRestrictedTypeToIntMap = [(''any'', 0), (''invert'', 1)]"

definition IntToMatchSetOptionsRestrictedTypeMap :: "(int, MatchSetOptionsRestrictedType) gomap" where
  "IntToMatchSetOptionsRestrictedTypeMap = [(0, ''any''), (1, ''invert'')]"

definition MatchSetOptionsRestrictedType_Validate :: "MatchSetOptionsRestrictedType \<Rightarrow> unit res" where
  "MatchSetOptionsRestrictedType_Validate v =
     enum_Validate ''MatchSetOptionsRestrictedType'' MatchSetOptionsRestrictedTypeToIntMap v"

definition MatchSetOptionsRestrictedType_Default :: "MatchSetOptionsRestrictedType \<Rightarrow> MatchSetOptionsRestrictedType" where
  "MatchSetOptionsRestrictedType_Default v = ''any''"

definition MatchSetOptionsRestrictedType_DefaultAsNeeded ::
    "MatchSetOptionsRestrictedType \<Rightarrow> MatchSetOptionsRestrictedType" where
  "MatchSetOptionsRestrictedType_DefaultAsNeeded v =
     (if v = [] then MatchSetOptionsRestrictedType_Default v else v)"

definition MatchSetOptionsRestrictedType_ToInt :: "MatchSetOptionsRestrictedType \<Rightarrow> int" where
  "MatchSetOptionsRestrictedType_ToInt v =
     enum_ToInt MatchSetOptionsRestrictedTypeToIntMap (MatchSetOptionsRestrictedType_DefaultAsNeeded v)"

type_synonym MatchSetOptionsType = string

definition MatchSetOptionsTypeToIntMap :: "(MatchSetOptionsType, int) gomap" where
  "MatchSetOptionsTypeToIntMap = [(''any'', 0), (''all'', 1), (''invert'', 2)]"

definition IntToMatchSetOptionsTypeMap :: "(int, MatchSetOptionsType) gomap" where
  "IntToMatchSetOptionsTypeMap = [(0, ''any''), (1, ''all''), (2, ''invert'')]"

definition MatchSetOptionsType_Validate :: "MatchSetOptionsType \<Rightarrow> unit res" where
  "MatchSetOptionsType_Validate v = enum_Validate ''MatchSetOptionsType'' MatchSetOptionsTypeToIntMap v"

definition MatchSetOptionsType_Default :: "MatchSetOptionsType \<Rightarrow> MatchSetOptionsType" where
  "MatchSetOptionsType_Default v = ''any''"

definition MatchSetOptionsType_DefaultAsNeeded :: "MatchSetOptionsType \<Rightarrow> MatchSetOptionsType" where
  "MatchSetOptionsType_DefaultAsNeeded v = (if v = [] then MatchSetOptionsType_Default v else v)"

definition MatchSetOptionsType_ToInt :: "MatchSetOptionsType \<Rightarrow> int" where
  "MatchSetOptionsType_ToInt v =
     enum_ToInt MatchSetOptionsTypeToIntMap (MatchSetOptionsType_DefaultAsNeeded v)"

type_synonym InstallProtocolType = string

definition InstallProtocolTypeToIntMap :: "(InstallProtocolType, int) gomap" where
  "InstallProtocolTypeToIntMap =
     [(''bgp'', 0), (''isis'', 1), (''ospf'', 2), (''ospf3'', 3), (''static'', 4),
      (''directly-connected'', 5), (''local-aggregate'', 6)]"

definition IntToInstallProtocolTypeMap :: "(int, InstallProtocolType) gomap" where
  "IntToInstallProtocolTypeMap =
     [(0, ''bgp''), (1, ''isis''), (2, ''ospf''), (3, ''ospf3''), (4, ''static''),
      (5, ''directly-connected''), (6, ''local-aggregate'')]"

definition InstallProtocolType_Validate :: "InstallProtocolType \<Rightarrow> unit res" where
  "InstallProtocolType_Validate v = enum_Validate ''InstallProtocolType'' InstallProtocolTypeToIntMap v"

definition InstallProtocolType_ToInt :: "InstallProtocolType \<Rightarrow> int" where
  "InstallProtocolType_ToInt v = enum_ToInt InstallProtocolTypeToIntMap v"

type_synonym AttributeComparison = string

definition AttributeComparisonToIntMap :: "(AttributeComparison, int) gomap" where
  "AttributeComparisonToIntMap =
     [(''attribute-eq'', 0), (''attribute-ge'', 1), (''attribute-le'', 2), (''eq'', 3), (''ge'', 4), (''le'', 5)]"

definition IntToAttributeComparisonMap :: "(int, AttributeComparison) gomap" where
  "IntToAttributeComparisonMap =
     [(0, ''attribute-eq''), (1, ''attribute-ge''), (2, ''attribute-le''), (3, ''eq''), (4, ''ge''), (5, ''le'')]"

definition AttributeComparison_Validate :: "AttributeComparison \<Rightarrow> unit res" where
  "AttributeComparison_Validate v = enum_Validate ''AttributeComparison'' AttributeComparisonToIntMap v"

definition AttributeComparison_ToInt :: "AttributeComparison \<Rightarrow> int" where
  "AttributeComparison_ToInt v = enum_ToInt AttributeComparisonToIntMap v"

type_synonym RouteDisposition = string

definition RouteDispositionToIntMap :: "(RouteDisposition, int) gomap" where
  "RouteDispositionToIntMap = [(''none'', 0), (''accept-route'', 1), (''reject-route'', 2)]"

definition IntToRouteDispositionMap :: "(int, RouteDisposition) gomap" where
  "IntToRouteDispositionMap = [(0, ''none''), (1, ''accept-route''), (2, ''reject-route'')]"

definition RouteDisposition_Validate :: "RouteDisposition \<Rightarrow> unit res" where
  "RouteDisposition_Validate v = enum_Validate ''RouteDisposition'' RouteDispositionToIntMap v"

definition RouteDisposition_ToInt :: "RouteDisposition \<Rightarrow> int" where
  "RouteDisposition_ToInt v = enum_ToInt RouteDispositionToIntMap v"

type_synonym RouteType = string

definition RouteTypeToIntMap :: "(RouteType, int) gomap" where
  "RouteTypeToIntMap = [(''none'', 0), (''internal'', 1), (''external'', 2), (''local'', 3)]"

definition IntToRouteTypeMap :: "(int, RouteType) gomap" where
  "IntToRouteTypeMap = [(0, ''none''), (1, ''internal''), (2, ''external''), (3, ''local'')]"

definition RouteType_Validate :: "RouteType \<Rightarrow> unit res" where
  "RouteType_Validate v = enum_Validate ''RouteType'' RouteTypeToIntMap v"

definition RouteType_ToInt :: "RouteType \<Rightarrow> int" where
  "RouteType_ToInt v = enum_ToInt RouteTypeToIntMap v"

type_synonym DefaultPolicyType = string

definition DefaultPolicyTypeToIntMap :: "(DefaultPolicyType, int) gomap" where
  "DefaultPolicyTypeToIntMap = [(''accept-route'', 0), (''reject-route'', 1)]"

definition IntToDefaultPolicyTypeMap :: "(int, DefaultPolicyType) gomap" where
  "IntToDefaultPolicyTypeMap = [(0, ''accept-route''), (1, ''reject-route'')]"

type_synonym BgpSetCommunityOptionType = string

definition BgpSetCommunityOptionTypeToIntMap :: "(BgpSetCommunityOptionType, int) gomap" where
  "BgpSetCommunityOptionTypeToIntMap = [(''add'', 0), (''remove'', 1), (''replace'', 2)]"

section \<open>Structures\<close>

record ApplyPolicyConfig =
  ImportPolicyList :: "string list"
  DefaultImportPolicy :: DefaultPolicyType
  ExportPolicyList :: "string list"
  DefaultExportPolicy :: DefaultPolicyType
  InPolicyList :: "string list"
  DefaultInPolicy :: DefaultPolicyType

record ApplyPolicy =
  apol_Config :: ApplyPolicyConfig

record Global =
  g_ApplyPolicy :: ApplyPolicy

record SetLargeCommunityMethod =
  slm_CommunitiesList :: "string list"

record SetLargeCommunity =
  sl_Method :: SetLargeCommunityMethod
  sl_Options :: BgpSetCommunityOptionType

record SetExtCommunityMethod =
  sem_CommunitiesList :: "string list"
  sem_ExtCommunitySetRef :: string

record SetExtCommunity =
  se_Method :: SetExtCommunityMethod
  se_Options :: string

record SetCommunityMethod =
  scm_CommunitiesList :: "string list"
  scm_CommunitySetRef :: string

record SetCommunity =
  sc_Method :: SetCommunityMethod
  sc_Options :: string

record SetAsPathPrepend =
  RepeatN :: "8 word"
  sap_As :: string

record BgpActions =
  ba_SetAsPathPrepend :: SetAsPathPrepend
  ba_SetCommunity :: SetCommunity
  ba_SetExtCommunity :: SetExtCommunity
  ba_SetRouteOrigin :: BgpOriginAttrType
  ba_SetLocalPref :: "32 word"
  ba_SetNextHop :: string
  ba_SetMed :: string
  ba_SetLargeCommunity :: SetLargeCommunity

record IgpActions =
  SetTag :: string

record Actions =
  a_RouteDisposition :: RouteDisposition
  a_IgpActions :: IgpActions
  a_BgpActions :: BgpActions

record MatchLargeCommunitySet =
  mls_LargeCommunitySet :: string
  mls_MatchSetOptions :: MatchSetOptionsType

record AsPathLength =
  apl_Operator :: AttributeComparison
  apl_Value :: "32 word"

record CommunityCount =
  cct_Operator :: AttributeComparison
  cct_Value :: "32 word"

record MatchAsPathSet =
  mas_AsPathSet :: string
  mas_MatchSetOptions :: MatchSetOptionsType

record MatchExtCommunitySet =
  mes_ExtCommunitySet :: string
  mes_MatchSetOptions :: MatchSetOptionsType

record MatchCommunitySet =
  mcs_CommunitySet :: string
  mcs_MatchSetOptions :: MatchSetOptionsType

record BgpConditions =
  bcd_MatchCommunitySet :: MatchCommunitySet
  bcd_MatchExtCommunitySet :: MatchExtCommunitySet
  bcd_MatchAsPathSet :: MatchAsPathSet
  bcd_MedEq :: "32 word"
  bcd_OriginEq :: BgpOriginAttrType
  bcd_NextHopInList :: "string list"
  bcd_AfiSafiInList :: "string list option"
  bcd_LocalPrefEq :: "32 word"
  bcd_CommunityCount :: CommunityCount
  bcd_AsPathLength :: AsPathLength
  bcd_RouteType :: RouteType
  bcd_MatchLargeCommunitySet :: MatchLargeCommunitySet

record MatchTagSet =
  mts_TagSet :: string
  mts_MatchSetOptions :: MatchSetOptionsRestrictedType

record MatchNeighborSet =
  mns_NeighborSet :: string
  mns_MatchSetOptions :: MatchSetOptionsRestrictedType

record MatchPrefixSet =
  mps_PrefixSet :: string
  mps_MatchSetOptions :: MatchSetOptionsRestrictedType

record Conditions =
  cd_CallPolicy :: string
  cd_MatchPrefixSet :: MatchPrefixSet
  cd_MatchNeighborSet :: MatchNeighborSet
  cd_MatchTagSet :: MatchTagSet
  cd_InstallProtocolEq :: InstallProtocolType
  cd_BgpConditions :: BgpConditions

record Statement =
  st_Name :: string
  st_Conditions :: Conditions
  st_Actions :: Actions

record PolicyDefinition =
  pd_Name :: string
  pd_Statements :: "Statement list"

record LargeCommunitySet =
  LargeCommunitySetName :: string
  LargeCommunityList :: "string list"

record AsPathSet =
  AsPathSetName :: string
  AsPathList :: "string list"

record ExtCommunitySet =
  ExtCommunitySetName :: string
  ExtCommunityList :: "string list"

record CommunitySet =
  CommunitySetName :: string
  CommunityList :: "string list"

record BgpDefinedSets =
  CommunitySets :: "CommunitySet list"
  ExtCommunitySets :: "ExtCommunitySet list"
  AsPathSets :: "AsPathSet list"
  LargeCommunitySets :: "LargeCommunitySet list"

record Tag =
  tag_Value :: string

record TagSet =
  TagSetName :: string
  TagList :: "Tag list"

record NeighborSet =
  NeighborSetName :: string
  NeighborInfoList :: "string list"

record Prefix =
  pf_IpPrefix :: string
  pf_MasklengthRange :: string

record PrefixSet =
  PrefixSetName :: string
  PrefixList :: "Prefix list"

record DefinedSets =
  PrefixSets :: "PrefixSet list"
  NeighborSets :: "NeighborSet list"
  TagSets :: "TagSet list"
  ds_BgpDefinedSets :: BgpDefinedSets

record RoutingPolicy =
  rp_DefinedSets :: DefinedSets
  rp_PolicyDefinitions :: "PolicyDefinition list"

section \<open>Facts\<close>

text \<open>Converting an enumeration to an integer and back is the identity on the valid names.\<close>

lemma enum_ToInt_valid:
  assumes "enum_Validate name m v = Ok ()" "\<forall>(k, i)\<in>set m. 0 \<le> i \<and> mget names i = Some k"
  shows "0 \<le> enum_ToInt m v \<and> mget names (enum_ToInt m v) = Some v"
proof -
  from assms(1) obtain i where "mget m v = Some i" by (auto simp: enum_Validate_def split: option.splits)
  then have "(v, i) \<in> set m" by (rule map_of_SomeD)
  with assms(2) \<open>mget m v = Some i\<close> show ?thesis by (auto simp: enum_ToInt_def)
qed

lemma enum_ToInt_invalid: "enum_Validate name m v = Err e \<Longrightarrow> enum_ToInt m v = -1"
  by (auto simp: enum_Validate_def enum_ToInt_def split: option.splits)

lemma AttributeComparison_ToInt_valid:
  "AttributeComparison_Validate v = Ok () \<Longrightarrow> mget IntToAttributeComparisonMap (AttributeComparison_ToInt v) = Some v"
  unfolding AttributeComparison_Validate_def AttributeComparison_ToInt_def
  by (drule enum_ToInt_valid [where names = IntToAttributeComparisonMap])
    (simp_all add: AttributeComparisonToIntMap_def IntToAttributeComparisonMap_def)

lemma InstallProtocolType_ToInt_valid:
  "InstallProtocolType_Validate v = Ok () \<Longrightarrow> mget IntToInstallProtocolTypeMap (InstallProtocolType_ToInt v) = Some v"
  unfolding InstallProtocolType_Validate_def InstallProtocolType_ToInt_def
  by (drule enum_ToInt_valid [where names = IntToInstallProtocolTypeMap])
    (simp_all add: InstallProtocolTypeToIntMap_def IntToInstallProtocolTypeMap_def)

end
