(* ===== verification/BgpTypes.thy ===== *)
theory BgpTypes
  imports Util Metrics
begin

text \<open>
  The custom resources of the BGP speaker and the calls it makes.

  \<^item> \<open>BgpConf\<close> and \<open>BgpPeer\<close> with their parts are the types of \<open>api/v1alpha2/bgpconf_types.go\<close> and
    \<open>bgppeer_types.go\<close>. A pointer is an option, and so is a slice that \<open>reflect.DeepEqual\<close> compares.
  \<^item> \<open>gobgp\<close> holds what is called of the GoBGP server, of protobuf and of the JSON codecs, with the
    types of its API that the sources build or read. \<open>'x\<close> is the type of the messages whose content
    the sources leave to these libraries, and \<open>'w\<close> that of the world.
\<close>

section \<open>BgpConf\<close>

record NodeConfStatus =
  ncs_RouterId :: string
  ncs_As :: "32 word"

record BgpConfStatus =
  NodesConfStatus :: "(string, NodeConfStatus) gomap option"

record GracefulRestart =
  gr_Enabled :: bool
  gr_RestartTime :: "32 word"
  gr_HelperOnly :: bool
  gr_DeferralTime :: "32 word"
  gr_NotificationEnabled :: bool
  gr_LonglivedEnabled :: bool
  gr_StaleRoutesTime :: "32 word"
  gr_PeerRestartTime :: "32 word"
  gr_PeerRestarting :: bool
  gr_LocalRestarting :: bool
  gr_Mode :: string

record BgpConfSpec =
  bcs_As :: "32 word"
  AsPerRack :: "(string, 32 word) gomap option"
  bcs_RouterId :: string
  ListenPort :: int
  ListenAddresses :: "string list option"
  Families :: "32 word list option"
  UseMultiplePaths :: bool
  bcs_GracefulRestart :: "GracefulRestart option"
  bcs_Policy :: string

record BgpConf =
  bc_meta :: ObjectMeta
  bc_spec :: BgpConfSpec
  bc_status :: BgpConfStatus

section \<open>BgpPeer\<close>

record Message =
  msg_Notification :: string
  msg_Update :: string
  msg_Open :: string
  msg_Keepalive :: string
  msg_Refresh :: string
  msg_Discarded :: string
  msg_Total :: string
  msg_WithdrawUpdate :: string
  msg_WithdrawPrefix :: string

record Messages =
  Received :: "Message option"
  Sent :: "Message option"

record Queues =
  q_Input :: "32 word"
  q_Output :: "32 word"

record PeerState =
  pst_AuthPassword :: string
  pst_Description :: string
  pst_LocalAs :: "32 word"
  pst_Messages :: "Messages option"
  pst_NeighborAddress :: string
  pst_PeerAs :: "32 word"
  pst_PeerGroup :: string
  pst_PeerType :: "32 word"
  pst_Queues :: "Queues option"
  pst_RemovePrivateAs :: "32 word"
  pst_RouteFlapDamping :: bool
  pst_SendCommunity :: "32 word"
  pst_SessionState :: string
  pst_AdminState :: string
  pst_OutQ :: "32 word"
  pst_Flops :: "32 word"
  pst_RouterId :: string

record TimersState =
  ts_ConnectRetry :: string
  ts_HoldTime :: string
  ts_KeepaliveInterval :: string
  ts_MinimumAdvertisementInterval :: string
  ts_NegotiatedHoldTime :: string
  ts_Uptime :: string
  ts_Downtime :: string

record NodePeerStatus =
  nps_PeerState :: PeerState
  nps_TimersState :: TimersState

record BgpPeerStatus =
  NodesPeerStatus :: "(string, NodePeerStatus) gomap option"

record TimersConfig =
  tc_ConnectRetry :: string
  tc_HoldTime :: string
  tc_KeepaliveInterval :: string
  tc_MinimumAdvertisementInterval :: string

record Timers =
  tm_Config :: "TimersConfig option"

record PeerConf =
  pc_AuthPassword :: string
  pc_Description :: string
  pc_LocalAs :: "32 word"
  pc_NeighborAddress :: string
  pc_PeerAs :: "32 word"
  pc_PeerGroup :: string
  pc_PeerType :: "32 word"
  pc_RemovePrivateAs :: string
  pc_RouteFlapDamping :: bool
  pc_SendCommunity :: "32 word"
  pc_NeighborInterface :: string
  pc_Vrf :: string
  pc_AllowOwnAs :: "32 word"
  pc_ReplacePeerAs :: bool
  pc_AdminDown :: bool

record Transport =
  tr_MtuDiscovery :: bool
  tr_PassiveMode :: bool
  tr_RemoteAddress :: string
  tr_RemotePort :: "32 word"
  tr_TcpMss :: "32 word"

record MpGracefulRestartConfig =
  mgc_Enabled :: bool

record MpGracefulRestart =
  mgr_Config :: "MpGracefulRestartConfig option"

record bgp_Family =
  f_Afi :: string
  f_Safi :: string

record AfiSafiConfig =
  asc_Family :: "bgp_Family option"
  asc_Enabled :: bool

record AddPathsConfig =
  apc_Receive :: bool
  apc_SendMax :: "32 word"

record AddPaths =
  ap_Config :: "AddPathsConfig option"

record AfiSafi =
  as_MpGracefulRestart :: "MpGracefulRestart option"
  as_Config :: "AfiSafiConfig option"
  as_AddPaths :: "AddPaths option"

record EbgpMultihop =
  em_Enabled :: bool
  em_MultihopTtl :: "32 word"

text \<open>\<open>metav1.LabelSelector\<close> with its requirements: a key, an operator and values.\<close>

record LabelSelector =
  ls_matchLabels :: "(string, string) gomap option"
  ls_matchExpressions :: "(string \<times> string \<times> string list) list option"

record BgpPeerSpec =
  ps_Conf :: "PeerConf option"
  ps_EbgpMultihop :: "EbgpMultihop option"
  ps_Timers :: "Timers option"
  ps_Transport :: "Transport option"
  ps_GracefulRestart :: "GracefulRestart option"
  ps_AfiSafis :: "AfiSafi option list option"
  ps_NodeSelector :: "LabelSelector option"

record BgpPeer =
  bp_meta :: ObjectMeta
  bp_spec :: BgpPeerSpec
  bp_status :: BgpPeerStatus

section \<open>\<open>reflect.DeepEqual\<close>\<close>

text \<open>Maps are equal when they hold the same entries; everything else is compared structurally.\<close>

definition DeepEqual_confSpec :: "BgpConfSpec \<Rightarrow> BgpConfSpec \<Rightarrow> bool" where
  "DeepEqual_confSpec a b \<longleftrightarrow>
     DeepEqualMap (AsPerRack a) (AsPerRack b) \<and> a\<lparr>AsPerRack := None\<rparr> = b\<lparr>AsPerRack := None\<rparr>"

definition DeepEqual_selector :: "LabelSelector option \<Rightarrow> LabelSelector option \<Rightarrow> bool" where
  "DeepEqual_selector a b \<longleftrightarrow>
     (case (a, b) of
        (Some x, Some y) \<Rightarrow> DeepEqualMap (ls_matchLabels x) (ls_matchLabels y) \<and>
          ls_matchExpressions x = ls_matchExpressions y
      | _ \<Rightarrow> a = b)"

definition DeepEqual_peerSpec :: "BgpPeerSpec \<Rightarrow> BgpPeerSpec \<Rightarrow> bool" where
  "DeepEqual_peerSpec a b \<longleftrightarrow>
     DeepEqual_selector (ps_NodeSelector a) (ps_NodeSelector b) \<and>
     a\<lparr>ps_NodeSelector := None\<rparr> = b\<lparr>ps_NodeSelector := None\<rparr>"

section \<open>The GoBGP server and the codecs\<close>

datatype Family_Afi = AFI_IP | AFI_IP6

datatype Family_Safi = SAFI_UNICAST

record api_Family =
  af_Afi :: Family_Afi
  af_Safi :: Family_Safi

datatype message =
    IPAddressPrefix string "32 word"
  | OriginAttribute "32 word"
  | NextHopAttribute string
  | OtherMessage string

record 'x Path =
  p_Family :: api_Family
  p_Nlri :: 'x
  p_Pattrs :: "'x list"
  p_Identifier :: "32 word"

text \<open>
  \<open>gUnmarshalAny\<close> returns the message of a packed value, none when it cannot be read. \<open>gPeerOfSpec\<close>
  and \<open>gGlobalOfSpec\<close> encode a specification as JSON and decode it as a message of the API,
  \<open>gPeerState\<close> and \<open>gTimersState\<close> go the other way. \<open>gPeerConf\<close> reads the neighbor address and interface
  of the \<open>Conf\<close> of a peer, none when it is nil, and \<open>gGetBgp\<close> the AS number and the router identifier.
  A listing calls a function on each element it finds before it returns: the result has the
  elements and the outcome.
\<close>

record ('x, 'w) gobgp =
  gMarshalAny :: "message \<Rightarrow> 'x"
  gUnmarshalAny :: "'x \<Rightarrow> message option"
  gPeerOfSpec :: "BgpPeerSpec \<Rightarrow> 'x res"
  gGlobalOfSpec :: "BgpConfSpec \<Rightarrow> 'x res"
  gPeerConf :: "'x \<Rightarrow> (string \<times> string) option"
  gPeerState :: "'x \<Rightarrow> PeerState res"
  gTimersState :: "'x \<Rightarrow> TimersState res"
  gGetBgp :: "'w \<Rightarrow> (32 word \<times> string) res \<times> 'w"
  gStartBgp :: "'x \<Rightarrow> 'w \<Rightarrow> unit res \<times> 'w"
  gStopBgp :: "'w \<Rightarrow> unit res \<times> 'w"
  gListPath :: "api_Family \<Rightarrow> string \<Rightarrow> 'w \<Rightarrow> ('x Path list list \<times> unit res) \<times> 'w"
  gAddPath :: "'x Path \<Rightarrow> 'w \<Rightarrow> unit res \<times> 'w"
  gDeletePath :: "'x Path \<Rightarrow> 'w \<Rightarrow> unit res \<times> 'w"
  gListPeer :: "'w \<Rightarrow> ('x list \<times> unit res) \<times> 'w"
  gUpdatePeer :: "'x \<Rightarrow> 'w \<Rightarrow> unit res \<times> 'w"
  gAddPeer :: "'x \<Rightarrow> 'w \<Rightarrow> unit res \<times> 'w"
  gDeletePeer :: "string \<Rightarrow> string \<Rightarrow> 'w \<Rightarrow> unit res \<times> 'w"
  gMonitorPeer :: "string \<Rightarrow> 'w \<Rightarrow> 'w"

definition ToGoBgpGlobalConf :: "('x, 'w) gobgp \<Rightarrow> BgpConfSpec \<Rightarrow> 'x res" where
  "ToGoBgpGlobalConf G c = gGlobalOfSpec G (c\<lparr>AsPerRack := None\<rparr>)"

definition ToGoBgpPeer :: "('x, 'w) gobgp \<Rightarrow> BgpPeerSpec \<Rightarrow> 'x res" where
  "ToGoBgpPeer G c = gPeerOfSpec G (c\<lparr>ps_NodeSelector := None\<rparr>)"

definition GetStatusFromGoBgpPeer :: "('x, 'w) gobgp \<Rightarrow> 'x \<Rightarrow> NodePeerStatus res" where
  "GetStatusFromGoBgpPeer G peer =
     bind_res (gPeerState G peer) (\<lambda>s.
     bind_res (gTimersState G peer) (\<lambda>t. Ok \<lparr>nps_PeerState = s, nps_TimersState = t\<rparr>))"

end
