(* ===== verification/BgpSpeaker.thy ===== *)
theory BgpSpeaker
  imports BgpTypes Speaker MemClient
begin

text \<open>
  The BGP speaker, \<open>pkg/speaker/bgp/bgp\<close>: \<open>path.go\<close>, \<open>gobgpd.go\<close> and \<open>options.go\<close>. An address is announced
  as a host route of the GoBGP server with one path per next hop, whose identifier is the FNV-1a
  hash of the next hop. \<open>bgp_SetBalancer\<close> compares the paths of the server with the nodes and adds
  and deletes the difference; \<open>bgp_DelBalancer\<close> deletes all of them.

  \<open>gobgp_table\<close> states what the speaker relies on of the server for IPv4: the documented effect of listing,
  adding and deleting the server's own paths. Under it the routes of an IPv4 address for which the server knows no
  other route are exactly those to the chosen nodes after a successful \<open>bgp_SetBalancer\<close>, and none after
  \<open>bgp_DelBalancer\<close>. For IPv6 the server lists the next hop in an attribute \<open>fromAPIPath\<close> does not read,
  and a listing by address falls back to the longest prefix that covers it, so neither is claimed beyond this.
\<close>

section \<open>Options and state\<close>

record BgpOptions =
  GrpcHosts :: string

definition NewBgpOptions :: BgpOptions where
  "NewBgpOptions = \<lparr>GrpcHosts = '':50051''\<rparr>"

text \<open>The server of the struct is the parameter \<open>G\<close> of the operations.\<close>

record Bgp =
  b_rack :: string

definition NewGoBgpd :: "BgpOptions \<Rightarrow> Bgp" where
  "NewGoBgpd bgpOptions = \<lparr>b_rack = []\<rparr>"

text \<open>\<open>ignoring r k\<close> continues with \<open>k\<close> whether or not the call failed.\<close>

definition ignoring :: "'a res \<times> 'w \<Rightarrow> ('w \<Rightarrow> 'b res \<times> 'w) \<Rightarrow> 'b res \<times> 'w" where
  "ignoring r k = (case r of (Panic s, w) \<Rightarrow> (Panic s, w) | (_, w) \<Rightarrow> k w)"

text \<open>What \<open>Start\<close> does once its channel is closed.\<close>

definition bgp_Start :: "('x, 'w) gobgp \<Rightarrow> 'w \<Rightarrow> unit res \<times> 'w" where
  "bgp_Start G w = ignoring (gStopBgp G w) (\<lambda>w. (Ok (), w))"

section \<open>Caches\<close>

record 'v bgp_cache =
  cache_confs :: "(string, 'v) gomap"

definition new_cache :: "'v bgp_cache" where
  "new_cache = \<lparr>cache_confs = []\<rparr>"

definition cache_set :: "string \<Rightarrow> 'v \<Rightarrow> 'v bgp_cache \<Rightarrow> 'v bgp_cache" where
  "cache_set k v c = c\<lparr>cache_confs := mset_at k v (cache_confs c)\<rparr>"

definition cache_delete :: "string \<Rightarrow> 'v bgp_cache \<Rightarrow> 'v bgp_cache" where
  "cache_delete k c = c\<lparr>cache_confs := mdel k (cache_confs c)\<rparr>"

definition cache_get :: "string \<Rightarrow> 'v bgp_cache \<Rightarrow> 'v option" where
  "cache_get k c = mget (cache_confs c) k"

section \<open>Paths\<close>

unbundle bit_operations_syntax

text \<open>\<open>hash/fnv\<close>, \<open>New32a\<close>.\<close>

definition fnv32a :: "string \<Rightarrow> 32 word" where
  "fnv32a s = foldl (\<lambda>h c. (h XOR of_nat (of_char c)) * 16777619) 2166136261 s"

definition getPathIdentifier :: "string \<Rightarrow> 32 word" where
  "getPathIdentifier nexthop = fnv32a nexthop"

definition getFamily :: "string \<Rightarrow> api_Family" where
  "getFamily ip =
     (if To4 (net_ParseIP ip) = [] then \<lparr>af_Afi = AFI_IP6, af_Safi = SAFI_UNICAST\<rparr>
      else \<lparr>af_Afi = AFI_IP, af_Safi = SAFI_UNICAST\<rparr>)"

definition toAPIPath :: "('x, 'w) gobgp \<Rightarrow> string \<Rightarrow> 32 word \<Rightarrow> string \<Rightarrow> 'x Path" where
  "toAPIPath G ip prefix nexthop =
     \<lparr>p_Family = getFamily ip,
      p_Nlri = gMarshalAny G (IPAddressPrefix ip prefix),
      p_Pattrs = [gMarshalAny G (OriginAttribute 0), gMarshalAny G (NextHopAttribute nexthop)],
      p_Identifier = getPathIdentifier nexthop\<rparr>"

fun next_hop_attr :: "('x, 'w) gobgp \<Rightarrow> 'x list \<Rightarrow> IP" where
  "next_hop_attr G [] = []"
| "next_hop_attr G (attr # attrs) =
     (case gUnmarshalAny G attr of
        Some (NextHopAttribute a) \<Rightarrow> net_ParseIP a
      | _ \<Rightarrow> next_hop_attr G attrs)"

definition fromAPIPath :: "('x, 'w) gobgp \<Rightarrow> 'x Path \<Rightarrow> IP" where
  "fromAPIPath G path = next_hop_attr G (p_Pattrs path)"

text \<open>The function the listing calls on each destination, with the variables it changes.\<close>

record routes_acc =
  ra_found :: bool
  ra_origins :: "(string, bool) gomap"
  ra_toAdd :: "string list"
  ra_toDelete :: "string list"

definition visit_dest ::
    "('x, 'w) gobgp \<Rightarrow> (string, bool) gomap \<Rightarrow> routes_acc \<Rightarrow> 'x Path list \<Rightarrow> routes_acc" where
  "visit_dest G news acc d =
     (let origins = foldl (\<lambda>m path. mset_at (IP_String (fromAPIPath G path)) True m) (ra_origins acc) d in
      \<lparr>ra_found = True, ra_origins = origins,
       ra_toAdd = ra_toAdd acc @ filter (\<lambda>key. mget origins key = None) (map fst news),
       ra_toDelete = ra_toDelete acc @ filter (\<lambda>key. mget news key = None) (map fst origins)\<rparr>)"

definition retriveRoutes ::
    "('x, 'w) gobgp \<Rightarrow> string \<Rightarrow> 32 word \<Rightarrow> string list \<Rightarrow> 'w \<Rightarrow> (string list \<times> string list) res \<times> 'w" where
  "retriveRoutes G ip prefix nexthops w =
     (let news = foldl (\<lambda>m item. mset_at item True m) [] nexthops;
          ((ds, err), w) = gListPath G (getFamily ip) ip w;
          acc = foldl (visit_dest G news)
            \<lparr>ra_found = False, ra_origins = [], ra_toAdd = [], ra_toDelete = []\<rparr> ds in
      andThen (err, w) (\<lambda>_ w.
        (Ok (if ra_found acc then ra_toAdd acc else nexthops, ra_toDelete acc), w)))"

definition bgp_ready :: "('x, 'w) gobgp \<Rightarrow> 'w \<Rightarrow> unit res \<times> 'w" where
  "bgp_ready G w =
     andThen (gGetBgp G w) (\<lambda>(as, routerId) w.
       if as = 0 then (Err (Errorf ''Bgp not ready, please config bgpconf/bgppeer''), w) else (Ok (), w))"

fun addMultiRoutes :: "('x, 'w) gobgp \<Rightarrow> string \<Rightarrow> 32 word \<Rightarrow> string list \<Rightarrow> 'w \<Rightarrow> unit res \<times> 'w" where
  "addMultiRoutes G ip prefix [] w = (Ok (), w)"
| "addMultiRoutes G ip prefix (nexthop # nexthops) w =
     andThen (gAddPath G (toAPIPath G ip prefix nexthop) w) (\<lambda>_ w. addMultiRoutes G ip prefix nexthops w)"

fun deleteMultiRoutes :: "('x, 'w) gobgp \<Rightarrow> string \<Rightarrow> 32 word \<Rightarrow> string list \<Rightarrow> 'w \<Rightarrow> unit res \<times> 'w" where
  "deleteMultiRoutes G ip prefix [] w = (Ok (), w)"
| "deleteMultiRoutes G ip prefix (nexthop # nexthops) w =
     andThen (gDeletePath G (toAPIPath G ip prefix nexthop) w) (\<lambda>_ w. deleteMultiRoutes G ip prefix nexthops w)"

text \<open>None is the nil list of a failed listing.\<close>

definition getPeers :: "('x, 'w) gobgp \<Rightarrow> 'w \<Rightarrow> 'x list option res \<times> 'w" where
  "getPeers G w =
     (case gListPeer G w of
        ((peers, Ok _), w) \<Rightarrow> (Ok (Some peers), w)
      | ((_, Err e), w) \<Rightarrow> (Ok None, w)
      | ((_, Panic s), w) \<Rightarrow> (Panic s, w))"

fun path_metrics ::
    "('x, 'w) gobgp \<Rightarrow> 'w prometheus \<Rightarrow> 'v client \<Rightarrow> nat \<Rightarrow> nat \<Rightarrow> 'x list \<Rightarrow> 'w \<Rightarrow> unit res \<times> 'w" where
  "path_metrics G P C announced pending [] w = (Ok (), w)"
| "path_metrics G P C announced pending (peer # peers) w =
     (case gPeerConf G peer of
        None \<Rightarrow> (Panic nil_deref, w)
      | Some (address, _) \<Rightarrow>
          path_metrics G P C announced pending peers
            (UpdateBGPPathMetrics P address (GetNodeName C) announced pending w))"

definition host_len :: "string \<Rightarrow> 32 word" where
  "host_len ip = (if To4 (net_ParseIP ip) = [] then 128 else 32)"

definition bgp_setBalancer ::
    "('x, 'w) gobgp \<Rightarrow> 'w prometheus \<Rightarrow> 'v client \<Rightarrow> string \<Rightarrow> string list \<Rightarrow> 'w \<Rightarrow> unit res \<times> 'w" where
  "bgp_setBalancer G P C ip nexthops w =
     (let prefix = host_len ip in
      andThen (retriveRoutes G ip prefix nexthops w) (\<lambda>(toAdd, toDelete) w.
      andThen (addMultiRoutes G ip prefix toAdd w) (\<lambda>_ w.
      andThen (deleteMultiRoutes G ip prefix toDelete w) (\<lambda>_ w.
      andThen (getPeers G w) (\<lambda>peerList w.
        case peerList of
          None \<Rightarrow> (Ok (), w)
        | Some peers \<Rightarrow> if toAdd = [] then (Ok (), w) else path_metrics G P C 1 0 peers w)))))"

fun node_hop :: "NodeAddress list \<Rightarrow> string res" where
  "node_hop [] = Err (Errorf ''node has no internal ip'')"
| "node_hop (addr # rest) = (if na_type addr = ''InternalIP'' then Ok (na_address addr) else node_hop rest)"

definition getNodeNextHop :: "Node \<Rightarrow> string res" where
  "getNodeNextHop node = node_hop (n_addresses node)"

fun bgp_hops :: "string \<Rightarrow> Node list \<Rightarrow> string list res" where
  "bgp_hops own [] = Ok []"
| "bgp_hops own (node # nodes) =
     (let rack = mget_str (m_labels (n_meta node)) OpenELBNodeRack in
      if rack = own \<or> own = [] then
        bind_res (getNodeNextHop node) (\<lambda>nexthop.
        bind_res (bgp_hops own nodes) (\<lambda>nexthops. Ok (nexthop # nexthops)))
      else bgp_hops own nodes)"

definition bgp_SetBalancer ::
    "('x, 'w) gobgp \<Rightarrow> 'w prometheus \<Rightarrow> 'v client \<Rightarrow> Bgp \<Rightarrow> string \<Rightarrow> Node list \<Rightarrow> 'w \<Rightarrow> unit res \<times> 'w" where
  "bgp_SetBalancer G P C b ip nodes w =
     andThen (bgp_ready G w) (\<lambda>_ w.
     andThen (bgp_hops (b_rack b) nodes, w) (\<lambda>nexthops w.
       bgp_setBalancer G P C ip nexthops w))"

text \<open>
  \<open>del_paths\<close> and \<open>del_dests\<close> are the function \<open>DelBalancer\<close> passes to the listing and its calls: it
  stops at the first path that cannot be deleted, and the next destination may overwrite the error.
\<close>

fun del_paths :: "('x, 'w) gobgp \<Rightarrow> unit res \<Rightarrow> 'x Path list \<Rightarrow> 'w \<Rightarrow> unit res \<times> 'w" where
  "del_paths G errDelete [] w = (errDelete, w)"
| "del_paths G errDelete (path # paths) w =
     andThen (gDeletePath G path w) (\<lambda>_ w. del_paths G (Ok ()) paths w)"

fun del_dests ::
    "('x, 'w) gobgp \<Rightarrow> unit res \<Rightarrow> bool \<Rightarrow> 'x Path list list \<Rightarrow> 'w \<Rightarrow> (unit res \<times> bool) res \<times> 'w" where
  "del_dests G errDelete existPath [] w = (Ok (errDelete, existPath), w)"
| "del_dests G errDelete existPath (d # ds) w =
     (let existPath = (if d = [] then False else existPath) in
      case del_paths G errDelete d w of
        (Panic s, w) \<Rightarrow> (Panic s, w)
      | (errDelete, w) \<Rightarrow> del_dests G errDelete existPath ds w)"

definition bgp_DelBalancer ::
    "('x, 'w) gobgp \<Rightarrow> 'w prometheus \<Rightarrow> 'v client \<Rightarrow> string \<Rightarrow> 'w \<Rightarrow> unit res \<times> 'w" where
  "bgp_DelBalancer G P C ip w =
     (case bgp_ready G w of
        (Err e, w) \<Rightarrow> (Ok (), w)
      | (Panic s, w) \<Rightarrow> (Panic s, w)
      | (Ok _, w) \<Rightarrow>
          (let ((ds, err), w) = gListPath G (getFamily ip) ip w in
           andThen (del_dests G (Ok ()) True ds w) (\<lambda>(errDelete, existPath) w.
           andThen (err, w) (\<lambda>_ w.
           andThen (errDelete, w) (\<lambda>_ w.
           andThen (getPeers G w) (\<lambda>peerList w.
             case peerList of
               None \<Rightarrow> (Ok (), w)
             | Some peers \<Rightarrow> if existPath then path_metrics G P C 0 1 peers w else (Ok (), w)))))))"

definition MonitorPeers :: "('x, 'w) gobgp \<Rightarrow> string \<Rightarrow> 'w \<Rightarrow> unit res \<times> 'w" where
  "MonitorPeers G ip w = (Ok (), gMonitorPeer G ''xxx'' w)"

definition bgp_ConfigureWithEIP :: "Config \<Rightarrow> bool \<Rightarrow> 'w \<Rightarrow> unit res \<times> 'w" where
  "bgp_ConfigureWithEIP config deleted w = (Ok (), w)"

text \<open>The speaker the manager registers, on the state of the struct and the world.\<close>

definition bgp_speaker :: "('x, 'w) gobgp \<Rightarrow> 'w prometheus \<Rightarrow> 'v client \<Rightarrow> (Bgp \<times> 'w) speaker" where
  "bgp_speaker G P C =
     \<lparr>sp_SetBalancer = \<lambda>ip nodes (b, w). let (r, w) = bgp_SetBalancer G P C b ip nodes w in Some (r, b, w),
      sp_DelBalancer = \<lambda>ip (b, w). let (r, w) = bgp_DelBalancer G P C ip w in Some (r, b, w),
      sp_ConfigureWithEIP = \<lambda>c deleted (b, w). let (r, w) = bgp_ConfigureWithEIP c deleted w in Some (r, b, w)\<rparr>"

section \<open>What the speaker relies on of the server\<close>

text \<open>A route of an address is the identifier of a path and its next hop as the speaker reads it.\<close>

definition route_of :: "('x, 'w) gobgp \<Rightarrow> 'x Path \<Rightarrow> 32 word \<times> string" where
  "route_of G p = (p_Identifier p, IP_String (fromAPIPath G p))"

definition routes :: "('x, 'w) gobgp \<Rightarrow> ('w \<Rightarrow> IP \<Rightarrow> 'x Path list) \<Rightarrow> 'w \<Rightarrow> IP \<Rightarrow> (32 word \<times> string) set" where
  "routes G tbl w a = route_of G ` set (tbl w a)"

definition v4_str :: "string \<Rightarrow> bool" where
  "v4_str ip \<longleftrightarrow> To4 (net_ParseIP ip) \<noteq> []"

text \<open>
  \<open>tbl\<close> reads the paths the server itself holds for the host route of an address; \<open>plain\<close> says of an address
  that the server has learned no path to it from a peer, has no shorter prefix that covers it, and has no
  import policy that rejects or changes its paths. While a call of the speaker runs, nothing else
  changes the table. Of IPv4 addresses:

  \<^item> reading the server leaves its table alone, and a packed message can be read back;
  \<^item> a path of a host route has the address and length 32 as prefix;
  \<^item> a successful listing of a plain address, which is a longest match, visits its host route, or nothing
    when it has no path;
  \<^item> adding a path the speaker makes for an IPv4 next hop at a plain address replaces the path of the same identifier;
  \<^item> deleting a path removes the path of its identifier; both leave the other addresses alone.
\<close>

definition gobgp_table :: "('x, 'w) gobgp \<Rightarrow> ('w \<Rightarrow> IP \<Rightarrow> 'x Path list) \<Rightarrow> ('w \<Rightarrow> IP \<Rightarrow> bool) \<Rightarrow> bool" where
  "gobgp_table G tbl plain \<longleftrightarrow>
     (\<forall>m. gUnmarshalAny G (gMarshalAny G m) = Some m) \<and>
     (\<forall>w. tbl (snd (gGetBgp G w)) = tbl w \<and> plain (snd (gGetBgp G w)) = plain w) \<and>
     (\<forall>w. tbl (snd (gListPeer G w)) = tbl w) \<and>
     (\<forall>w a. To4 a \<noteq> [] \<longrightarrow> (\<forall>p\<in>set (tbl w a). \<exists>ip. gUnmarshalAny G (p_Nlri p) = Some (IPAddressPrefix ip 32) \<and> net_ParseIP ip = a)) \<and>
     (\<forall>ip w ds r w'. v4_str ip \<longrightarrow> gListPath G (getFamily ip) ip w = ((ds, r), w') \<longrightarrow>
        tbl w' = tbl w \<and> plain w' = plain w \<and>
        (r = Ok () \<longrightarrow> plain w (net_ParseIP ip) \<longrightarrow>
           ds = [tbl w (net_ParseIP ip)] \<or> ds = [] \<and> tbl w (net_ParseIP ip) = [])) \<and>
     (\<forall>ip h w w'. v4_str ip \<longrightarrow> v4_str h \<longrightarrow> plain w (net_ParseIP ip) \<longrightarrow> gAddPath G (toAPIPath G ip 32 h) w = (Ok (), w') \<longrightarrow>
        plain w' = plain w \<and>
        routes G tbl w' (net_ParseIP ip) = insert (getPathIdentifier h, IP_String (net_ParseIP h))
          {r \<in> routes G tbl w (net_ParseIP ip). fst r \<noteq> getPathIdentifier h} \<and>
        (\<forall>a. a \<noteq> net_ParseIP ip \<longrightarrow> tbl w' a = tbl w a)) \<and>
     (\<forall>p ip w w'. v4_str ip \<longrightarrow> gUnmarshalAny G (p_Nlri p) = Some (IPAddressPrefix ip 32) \<longrightarrow> gDeletePath G p w = (Ok (), w') \<longrightarrow>
        routes G tbl w' (net_ParseIP ip) = {r \<in> routes G tbl w (net_ParseIP ip). fst r \<noteq> p_Identifier p} \<and>
        (\<forall>a. a \<noteq> net_ParseIP ip \<longrightarrow> tbl w' a = tbl w a))"

text \<open>The metrics are kept apart from the table.\<close>

definition metrics_apart :: "'w prometheus \<Rightarrow> ('w \<Rightarrow> 'b) \<Rightarrow> bool" where
  "metrics_apart P f \<longleftrightarrow> (\<forall>v ls n w. f (pAdd P v ls n w) = f w)"

abbreviation hop_route :: "string \<Rightarrow> 32 word \<times> string" where
  "hop_route h \<equiv> (getPathIdentifier h, h)"

lemma gobgp_tableD:
  assumes "gobgp_table G tbl plain"
  shows table_any: "gUnmarshalAny G (gMarshalAny G m) = Some m"
    and table_get: "gGetBgp G w = (r1, w') \<Longrightarrow> tbl w' = tbl w \<and> plain w' = plain w"
    and table_peers: "gListPeer G w = (r2, w') \<Longrightarrow> tbl w' = tbl w"
    and table_nlri: "To4 a \<noteq> [] \<Longrightarrow> p \<in> set (tbl w a) \<Longrightarrow>
      \<exists>ip. gUnmarshalAny G (p_Nlri p) = Some (IPAddressPrefix ip 32) \<and> net_ParseIP ip = a"
    and table_list: "v4_str ip \<Longrightarrow> gListPath G (getFamily ip) ip w = ((ds, r), w') \<Longrightarrow> tbl w' = tbl w \<and> plain w' = plain w \<and>
      (r = Ok () \<longrightarrow> plain w (net_ParseIP ip) \<longrightarrow> ds = [tbl w (net_ParseIP ip)] \<or> ds = [] \<and> tbl w (net_ParseIP ip) = [])"
proof -
  note T = assms [unfolded gobgp_table_def]
  show "gUnmarshalAny G (gMarshalAny G m) = Some m" using T [THEN conjunct1] by blast
  show "tbl w' = tbl w \<and> plain w' = plain w" if "gGetBgp G w = (r1, w')"
    using T [THEN conjunct2, THEN conjunct1, THEN spec, of w] that by simp
  show "tbl w' = tbl w" if "gListPeer G w = (r2, w')" using T [THEN conjunct2, THEN conjunct2, THEN conjunct1, THEN spec, of w] that by simp
  show "\<exists>ip. gUnmarshalAny G (p_Nlri p) = Some (IPAddressPrefix ip 32) \<and> net_ParseIP ip = a" if "To4 a \<noteq> []" "p \<in> set (tbl w a)"
    using T [THEN conjunct2, THEN conjunct2, THEN conjunct2, THEN conjunct1] that by blast
  show "tbl w' = tbl w \<and> plain w' = plain w \<and>
      (r = Ok () \<longrightarrow> plain w (net_ParseIP ip) \<longrightarrow> ds = [tbl w (net_ParseIP ip)] \<or> ds = [] \<and> tbl w (net_ParseIP ip) = [])"
    if "v4_str ip" "gListPath G (getFamily ip) ip w = ((ds, r), w')"
    using T [THEN conjunct2, THEN conjunct2, THEN conjunct2, THEN conjunct2, THEN conjunct1, rule_format] that by blast
qed

lemma table_add:
  assumes "gobgp_table G tbl plain" "v4_str ip" "v4_str h" "plain w (net_ParseIP ip)" "gAddPath G (toAPIPath G ip 32 h) w = (Ok (), w')"
  shows "plain w' = plain w \<and>
    routes G tbl w' (net_ParseIP ip) = insert (getPathIdentifier h, IP_String (net_ParseIP h))
      {r \<in> routes G tbl w (net_ParseIP ip). fst r \<noteq> getPathIdentifier h} \<and>
    (\<forall>a. a \<noteq> net_ParseIP ip \<longrightarrow> tbl w' a = tbl w a)"
  using assms(1) [unfolded gobgp_table_def, THEN conjunct2, THEN conjunct2, THEN conjunct2, THEN conjunct2, THEN conjunct2, THEN conjunct1] assms(2-) by blast

lemma table_delete:
  assumes "gobgp_table G tbl plain" "v4_str ip" "gUnmarshalAny G (p_Nlri p) = Some (IPAddressPrefix ip 32)" "gDeletePath G p w = (Ok (), w')"
  shows "routes G tbl w' (net_ParseIP ip) = {r \<in> routes G tbl w (net_ParseIP ip). fst r \<noteq> p_Identifier p} \<and>
    (\<forall>a. a \<noteq> net_ParseIP ip \<longrightarrow> tbl w' a = tbl w a)"
  using assms(1) [unfolded gobgp_table_def, THEN conjunct2, THEN conjunct2, THEN conjunct2, THEN conjunct2, THEN conjunct2, THEN conjunct2] assms(2-) by blast

section \<open>Routes of an address\<close>

lemma host_len_v4: "v4_str ip \<Longrightarrow> host_len ip = 32"
  by (simp add: v4_str_def host_len_def)

lemma toAPIPath_props:
  assumes "gobgp_table G tbl plain"
  shows "p_Identifier (toAPIPath G ip len h) = getPathIdentifier h"
    and "gUnmarshalAny G (p_Nlri (toAPIPath G ip len h)) = Some (IPAddressPrefix ip len)"
  by (simp_all add: toAPIPath_def table_any [OF assms])

lemma addMultiRoutes_routes:
  assumes T: "gobgp_table G tbl plain" and v4: "v4_str ip"
  shows "addMultiRoutes G ip 32 hs w = (Ok (), w') \<Longrightarrow> inj_on getPathIdentifier (set hs) \<Longrightarrow> plain w (net_ParseIP ip) \<Longrightarrow>
    (\<forall>h\<in>set hs. v4_str h \<and> IP_String (net_ParseIP h) = h) \<Longrightarrow>
    routes G tbl w' (net_ParseIP ip) =
      hop_route ` set hs \<union> {r \<in> routes G tbl w (net_ParseIP ip). fst r \<notin> getPathIdentifier ` set hs} \<and>
    (\<forall>a. a \<noteq> net_ParseIP ip \<longrightarrow> tbl w' a = tbl w a)"
proof (induction hs arbitrary: w)
  case (Cons h hs)
  from Cons.prems(1) obtain w1 where a: "gAddPath G (toAPIPath G ip 32 h) w = (Ok (), w1)"
    and r: "addMultiRoutes G ip 32 hs w1 = (Ok (), w')" by (auto simp: res_simps)
  from Cons.prems(4) have "v4_str h" by simp
  from table_add [OF T v4 this Cons.prems(3) a] Cons.prems(3,4)
  have one: "routes G tbl w1 (net_ParseIP ip) =
      insert (hop_route h) {r \<in> routes G tbl w (net_ParseIP ip). fst r \<noteq> getPathIdentifier h}"
    and oth: "\<forall>a. a \<noteq> net_ParseIP ip \<longrightarrow> tbl w1 a = tbl w a" and pl: "plain w1 (net_ParseIP ip)"
    by simp_all
  have new: "getPathIdentifier h \<in> getPathIdentifier ` set hs \<longleftrightarrow> h \<in> set hs"
    using Cons.prems(2) by (auto simp: inj_on_def)
  from Cons.IH [OF r _ pl] Cons.prems(2,4) one oth new show ?case by (auto simp: inj_on_def)
qed simp

lemma deleteMultiRoutes_routes:
  assumes T: "gobgp_table G tbl plain" and v4: "v4_str ip"
  shows "deleteMultiRoutes G ip 32 hs w = (Ok (), w') \<Longrightarrow>
    routes G tbl w' (net_ParseIP ip) = {r \<in> routes G tbl w (net_ParseIP ip). fst r \<notin> getPathIdentifier ` set hs} \<and>
    (\<forall>a. a \<noteq> net_ParseIP ip \<longrightarrow> tbl w' a = tbl w a)"
proof (induction hs arbitrary: w)
  case (Cons h hs)
  from Cons.prems obtain w1 where a: "gDeletePath G (toAPIPath G ip 32 h) w = (Ok (), w1)"
    and r: "deleteMultiRoutes G ip 32 hs w1 = (Ok (), w')" by (auto simp: res_simps)
  from table_delete [OF T v4 toAPIPath_props(2) [OF T] a] Cons.IH [OF r] show ?case
    by (auto simp: toAPIPath_props [OF T])
qed simp

lemma foldl_mset_keys: "mkeys (foldl (\<lambda>m x. mset_at (f x) True m) acc xs) = mkeys acc \<union> f ` set xs"
  by (induction xs arbitrary: acc) (auto simp: gomap_simps)

lemma retriveRoutes_Ok:
  assumes T: "gobgp_table G tbl plain" and v4: "v4_str ip" and pl: "plain w (net_ParseIP ip)"
    and run: "retriveRoutes G ip len hs w = (Ok (toAdd, toDelete), w')"
  shows "tbl w' = tbl w" "plain w' (net_ParseIP ip)" "set toAdd = set hs - snd ` routes G tbl w (net_ParseIP ip)"
    "set toDelete = snd ` routes G tbl w (net_ParseIP ip) - set hs"
proof -
  obtain ds r where l: "gListPath G (getFamily ip) ip w = ((ds, r), w')" and r: "r = Ok ()"
    using run by (auto simp: retriveRoutes_def Let_def res_simps split: prod.splits)
  have old: "snd ` routes G tbl w (net_ParseIP ip) = (\<lambda>p. IP_String (fromAPIPath G p)) ` set (tbl w (net_ParseIP ip))"
    by (auto simp: routes_def route_of_def image_image)
  note law = table_list [OF T v4 l] and keys = foldl_mset_keys [of "\<lambda>x. x" "[]" hs]
    foldl_mset_keys [of "\<lambda>p. IP_String (fromAPIPath G p)" "[]" "tbl w (net_ParseIP ip)"]
  from law pl show "tbl w' = tbl w" "plain w' (net_ParseIP ip)" by simp_all
  from law r pl consider "ds = [tbl w (net_ParseIP ip)]" | "ds = []" "tbl w (net_ParseIP ip) = []" by auto
  then have "set toAdd = set hs - snd ` routes G tbl w (net_ParseIP ip) \<and>
    set toDelete = snd ` routes G tbl w (net_ParseIP ip) - set hs"
    using run l r keys unfolding old
    by cases (auto simp: retriveRoutes_def visit_dest_def Let_def gomap_simps mget_None_iff)
  then show "set toAdd = set hs - snd ` routes G tbl w (net_ParseIP ip)"
    "set toDelete = snd ` routes G tbl w (net_ParseIP ip) - set hs" by blast+
qed

lemma path_metrics_table:
  assumes "metrics_apart P tbl"
  shows "path_metrics G P C m n peers w = (r, w') \<Longrightarrow> tbl w' = tbl w"
proof (induction peers arbitrary: w)
  case (Cons peer peers)
  from Cons.prems show ?case using assms
    by (auto simp: UpdateBGPPathMetrics_def metrics_apart_def split: option.splits dest!: Cons.IH)
qed simp

lemma getPeers_table: "gobgp_table G tbl plain \<Longrightarrow> getPeers G w = (r, w') \<Longrightarrow> tbl w' = tbl w"
  by (auto simp: getPeers_def split: prod.splits res.splits dest: table_peers)

lemma bgp_ready_table: "gobgp_table G tbl plain \<Longrightarrow> bgp_ready G w = (r, w') \<Longrightarrow> tbl w' = tbl w \<and> plain w' = plain w"
  by (auto simp: bgp_ready_def andThen_def split: prod.splits res.splits if_splits dest: table_get)

text \<open>The paths of an address are those the speaker makes for their next hops.\<close>

definition own_routes :: "(32 word \<times> string) set \<Rightarrow> bool" where
  "own_routes R \<longleftrightarrow> (\<forall>r\<in>R. fst r = getPathIdentifier (snd r))"

lemma own_routes_hops: "own_routes R \<Longrightarrow> R = hop_route ` snd ` R"
  by (force simp: own_routes_def image_image)

lemma merge_routes:
  assumes R: "R = hop_route ` old" and inj: "inj_on getPathIdentifier (new \<union> old)"
    and R1: "R1 = hop_route ` (new - old) \<union> {r \<in> R. fst r \<notin> getPathIdentifier ` (new - old)}"
    and R2: "R2 = {r \<in> R1. fst r \<notin> getPathIdentifier ` (old - new)}"
  shows "R2 = hop_route ` new"
proof -
  have d: "getPathIdentifier x = getPathIdentifier y \<longleftrightarrow> x = y" if "x \<in> new \<union> old" "y \<in> new \<union> old" for x y
    using that inj by (auto simp: inj_on_def)
  have "R1 = hop_route ` (new \<union> old)" unfolding R1 R by (auto simp: d image_iff)
  then show ?thesis unfolding R2 by (auto simp: d image_iff)
qed

lemma bgp_setBalancer_Ok:
  assumes T: "gobgp_table G tbl plain" and M: "metrics_apart P tbl"
    and v4: "v4_str ip" and pl: "plain w (net_ParseIP ip)"
    and own: "own_routes (routes G tbl w (net_ParseIP ip))"
    and can: "\<forall>h\<in>set hs. v4_str h \<and> IP_String (net_ParseIP h) = h"
    and inj: "inj_on getPathIdentifier (set hs \<union> snd ` routes G tbl w (net_ParseIP ip))"
    and run: "bgp_setBalancer G P C ip hs w = (Ok (), w')"
  shows "routes G tbl w' (net_ParseIP ip) = hop_route ` set hs \<and>
    (\<forall>a. a \<noteq> net_ParseIP ip \<longrightarrow> tbl w' a = tbl w a)"
proof -
  let ?R = "routes G tbl w (net_ParseIP ip)"
  from run host_len_v4 [OF v4] obtain toAdd toDelete w1 w2 w3 peers w4 where
    r: "retriveRoutes G ip 32 hs w = (Ok (toAdd, toDelete), w1)"
    and a: "addMultiRoutes G ip 32 toAdd w1 = (Ok (), w2)"
    and d: "deleteMultiRoutes G ip 32 toDelete w2 = (Ok (), w3)"
    and g: "getPeers G w3 = (Ok peers, w4)"
    and m: "(case peers of None \<Rightarrow> (Ok (), w4)
        | Some peers \<Rightarrow> if toAdd = [] then (Ok (), w4) else path_metrics G P C 1 0 peers w4) = (Ok (), w')"
    by (auto simp: bgp_setBalancer_def Let_def res_simps split: prod.splits)
  note R = retriveRoutes_Ok [OF T v4 pl r]
  have same: "tbl w' = tbl w3" using m getPeers_table [OF T g]
    by (auto split: option.splits if_splits dest: path_metrics_table [OF M])
  have sub: "set toAdd \<subseteq> set hs" using R(3) by blast
  have inj': "inj_on getPathIdentifier (set toAdd)" using inj sub by (auto intro: inj_on_subset)
  have can': "\<forall>h\<in>set toAdd. v4_str h \<and> IP_String (net_ParseIP h) = h" using can sub by blast
  note A = addMultiRoutes_routes [OF T v4 a inj' R(2) can'] and D = deleteMultiRoutes_routes [OF T v4 d]
  have "routes G tbl w3 (net_ParseIP ip) = hop_route ` set hs"
  proof (rule merge_routes [OF own_routes_hops [OF own] inj])
    show "routes G tbl w2 (net_ParseIP ip) = hop_route ` (set hs - snd ` ?R) \<union>
        {r \<in> ?R. fst r \<notin> getPathIdentifier ` (set hs - snd ` ?R)}"
      using A R(1) unfolding R(3) routes_def by simp
    show "routes G tbl w3 (net_ParseIP ip) =
        {r \<in> routes G tbl w2 (net_ParseIP ip). fst r \<notin> getPathIdentifier ` (snd ` ?R - set hs)}"
      using D unfolding R(4) by simp
  qed
  moreover have "\<forall>a. a \<noteq> net_ParseIP ip \<longrightarrow> tbl w3 a = tbl w a" using A D R(1) by simp
  ultimately show ?thesis by (simp add: same routes_def)
qed

lemma del_paths_routes:
  assumes T: "gobgp_table G tbl plain" and v4: "To4 a \<noteq> []"
  shows "del_paths G (Ok ()) ps w = (Ok (), w') \<Longrightarrow>
    (\<forall>p\<in>set ps. \<exists>ip. gUnmarshalAny G (p_Nlri p) = Some (IPAddressPrefix ip 32) \<and> net_ParseIP ip = a) \<Longrightarrow>
    routes G tbl w' a = {r \<in> routes G tbl w a. fst r \<notin> p_Identifier ` set ps} \<and> (\<forall>b. b \<noteq> a \<longrightarrow> tbl w' b = tbl w b)"
proof (induction ps arbitrary: w)
  case (Cons p ps)
  from Cons.prems(1) obtain w1 where d: "gDeletePath G p w = (Ok (), w1)"
    and r: "del_paths G (Ok ()) ps w1 = (Ok (), w')" by (auto simp: res_simps)
  from Cons.prems(2) obtain ip where n: "gUnmarshalAny G (p_Nlri p) = Some (IPAddressPrefix ip 32)"
    and a: "net_ParseIP ip = a" by auto
  have "v4_str ip" using v4 a by (simp add: v4_str_def)
  note D = table_delete [OF T this n d]
  from Cons.prems(2) have "\<forall>p\<in>set ps. \<exists>ip. gUnmarshalAny G (p_Nlri p) = Some (IPAddressPrefix ip 32) \<and> net_ParseIP ip = a"
    by simp
  from Cons.IH [OF r this] D show ?case unfolding a by auto
qed simp

lemma bgp_DelBalancer_Ok:
  assumes T: "gobgp_table G tbl plain" and M: "metrics_apart P tbl" and v4: "v4_str ip" and plain: "plain w (net_ParseIP ip)"
    and rdy: "bgp_ready G w = (Ok (), w1)"
    and run: "bgp_DelBalancer G P C ip w = (Ok (), w')"
  shows "tbl w' (net_ParseIP ip) = [] \<and> (\<forall>a. a \<noteq> net_ParseIP ip \<longrightarrow> tbl w' a = tbl w a)"
proof -
  from run rdy obtain ds w2 ex w3 pl w4 where
    l: "gListPath G (getFamily ip) ip w1 = ((ds, Ok ()), w2)"
    and d: "del_dests G (Ok ()) True ds w2 = (Ok (Ok (), ex), w3)"
    and g: "getPeers G w3 = (Ok pl, w4)"
    and m: "(case pl of None \<Rightarrow> (Ok (), w4)
        | Some peers \<Rightarrow> if ex then path_metrics G P C 0 1 peers w4 else (Ok (), w4)) = (Ok (), w')"
    by (auto simp: bgp_DelBalancer_def Let_def res_simps split: prod.splits)
  have same: "tbl w' = tbl w3" using m getPeers_table [OF T g]
    by (auto split: option.splits if_splits dest: path_metrics_table [OF M])
  let ?a = "net_ParseIP ip"
  from table_list [OF T v4 l] bgp_ready_table [OF T rdy] plain have t2: "tbl w2 = tbl w"
    and ds: "ds = [tbl w2 ?a] \<or> ds = [] \<and> tbl w2 ?a = []" by auto
  have v4a: "To4 ?a \<noteq> []" using v4 by (simp add: v4_str_def)
  have at: "\<forall>p\<in>set (tbl w2 ?a). \<exists>ip. gUnmarshalAny G (p_Nlri p) = Some (IPAddressPrefix ip 32) \<and> net_ParseIP ip = ?a"
    using table_nlri [OF T v4a] by blast
  have "del_paths G (Ok ()) (tbl w2 ?a) w2 = (Ok (), w3)"
    using ds d by (auto simp: Let_def split: prod.splits res.splits if_splits)
  from del_paths_routes [OF T v4a this at] have "routes G tbl w3 ?a = {}" and oth: "\<forall>b. b \<noteq> ?a \<longrightarrow> tbl w3 b = tbl w2 b"
    by (auto simp: routes_def route_of_def)
  then have "tbl w3 ?a = []" by (simp add: routes_def)
  with oth show ?thesis unfolding same t2 by simp
qed

section \<open>A server in memory\<close>

text \<open>
  For the examples: the messages are kept as they are and the world is the table, which may hold
  paths of other addresses that the listing leaves out.
\<close>

datatype ex_msg = XMsg message | XPeer string string

abbreviation ex_unmarshal :: "ex_msg \<Rightarrow> message option" where
  "ex_unmarshal x \<equiv> (case x of XMsg m \<Rightarrow> Some m | _ \<Rightarrow> None)"

definition ex_at :: "ex_msg Path \<Rightarrow> IP option" where
  "ex_at p = (case p_Nlri p of XMsg (IPAddressPrefix ip len) \<Rightarrow> if len = 32 then Some (net_ParseIP ip) else None | _ \<Rightarrow> None)"

type_synonym ex_table = "IP \<Rightarrow> ex_msg Path list"

definition ex_tbl :: "ex_table \<Rightarrow> IP \<Rightarrow> ex_msg Path list" where
  "ex_tbl w a = filter (\<lambda>p. ex_at p = Some a) (w a)"

definition ex_change :: "(ex_msg Path list \<Rightarrow> ex_msg Path list) \<Rightarrow> ex_msg Path \<Rightarrow> ex_table \<Rightarrow> unit res \<times> ex_table" where
  "ex_change f p w =
     (case ex_at p of
        None \<Rightarrow> (Err (Errorf ''prefix''), w)
      | Some a \<Rightarrow> (Ok (), w(a := f (filter (\<lambda>q. p_Identifier q \<noteq> p_Identifier p) (w a)))))"

definition ex_gobgp :: "(ex_msg, ex_table) gobgp" where
  "ex_gobgp =
     \<lparr>gMarshalAny = XMsg, gUnmarshalAny = (\<lambda>x. ex_unmarshal x),
      gPeerOfSpec = (\<lambda>s. Ok (XPeer [] [])), gGlobalOfSpec = (\<lambda>s. Ok (XMsg (OtherMessage []))),
      gPeerConf = (\<lambda>x. case x of XPeer a i \<Rightarrow> Some (a, i) | _ \<Rightarrow> None),
      gPeerState = (\<lambda>x. Err (Errorf [])), gTimersState = (\<lambda>x. Err (Errorf [])),
      gGetBgp = (\<lambda>w. (Ok (65000, ''10.0.0.9''), w)),
      gStartBgp = (\<lambda>x w. (Ok (), w)), gStopBgp = (\<lambda>w. (Ok (), w)),
      gListPath = (\<lambda>f ip w. (([ex_tbl w (net_ParseIP ip)], Ok ()), w)),
      gAddPath = (\<lambda>p. ex_change (Cons p) p), gDeletePath = ex_change (\<lambda>ps. ps),
      gListPeer = (\<lambda>w. (([XPeer ''10.0.0.254'' []], Ok ()), w)),
      gUpdatePeer = (\<lambda>x w. (Ok (), w)), gAddPeer = (\<lambda>x w. (Ok (), w)), gDeletePeer = (\<lambda>a i w. (Ok (), w)),
      gMonitorPeer = (\<lambda>a w. w)\<rparr>"

definition ex_prometheus :: "'w prometheus" where
  "ex_prometheus = \<lparr>pSet = (\<lambda>v ls n w. w), pAdd = (\<lambda>v ls n w. w), pInc = (\<lambda>v ls w. w), pDelete = (\<lambda>v ls w. w)\<rparr>"

lemma ex_metrics_apart: "metrics_apart ex_prometheus f"
  by (simp add: metrics_apart_def ex_prometheus_def)

lemma ex_change_Ok:
  assumes "ex_change f p w = (Ok (), w')" "ex_unmarshal (p_Nlri p) = Some (IPAddressPrefix ip 32)"
  shows "w' = w(net_ParseIP ip := f (filter (\<lambda>q. p_Identifier q \<noteq> p_Identifier p) (w (net_ParseIP ip))))"
    and "ex_at p = Some (net_ParseIP ip)"
  using assms by (auto simp: ex_change_def ex_at_def split: ex_msg.splits message.splits)

lemma routes_filter:
  "route_of G ` {q \<in> A. p_Identifier q \<noteq> i} = {r \<in> route_of G ` A. fst r \<noteq> i}"
proof -
  have "fst (route_of G q) = p_Identifier q" for q by (simp add: route_of_def)
  then show ?thesis by (auto simp del: split_paired_Ex)
qed

lemma ex_gobgp_table: "gobgp_table ex_gobgp ex_tbl (\<lambda>_ _. True)"
  unfolding gobgp_table_def
proof (intro conjI allI impI ballI)
  fix w :: ex_table and a p assume "p \<in> set (ex_tbl w a)"
  then show "\<exists>ip. gUnmarshalAny ex_gobgp (p_Nlri p) = Some (IPAddressPrefix ip 32) \<and> net_ParseIP ip = a"
    by (auto simp: ex_tbl_def ex_at_def ex_gobgp_def split: ex_msg.splits message.splits if_splits)
next
  fix ip h and w w' :: ex_table
  let ?p = "toAPIPath ex_gobgp ip 32 h"
  assume "gAddPath ex_gobgp ?p w = (Ok (), w')"
  then have c: "ex_change (Cons ?p) ?p w = (Ok (), w')" "ex_unmarshal (p_Nlri ?p) = Some (IPAddressPrefix ip 32)"
    by (simp_all add: ex_gobgp_def toAPIPath_def)
  note E = ex_change_Ok [OF c]
  have rt: "route_of ex_gobgp ?p = (getPathIdentifier h, IP_String (net_ParseIP h))" "p_Identifier ?p = getPathIdentifier h"
    by (simp_all add: route_of_def fromAPIPath_def toAPIPath_def ex_gobgp_def)
  show "ex_tbl w' a = ex_tbl w a" if "a \<noteq> net_ParseIP ip" for a using that by (simp add: E(1) ex_tbl_def)
  have "set (ex_tbl w' (net_ParseIP ip)) = insert ?p {q \<in> set (ex_tbl w (net_ParseIP ip)). p_Identifier q \<noteq> p_Identifier ?p}"
    using E(2) by (auto simp: E(1) ex_tbl_def)
  then show "routes ex_gobgp ex_tbl w' (net_ParseIP ip) = insert (getPathIdentifier h, IP_String (net_ParseIP h))
      {r \<in> routes ex_gobgp ex_tbl w (net_ParseIP ip). fst r \<noteq> getPathIdentifier h}"
    by (simp add: routes_def routes_filter rt)
next
  fix p ip and w w' :: ex_table
  assume "gDeletePath ex_gobgp p w = (Ok (), w')" "gUnmarshalAny ex_gobgp (p_Nlri p) = Some (IPAddressPrefix ip 32)"
  then have c: "ex_change (\<lambda>ps. ps) p w = (Ok (), w')" "ex_unmarshal (p_Nlri p) = Some (IPAddressPrefix ip 32)"
    by (simp_all add: ex_gobgp_def)
  note E = ex_change_Ok [OF c]
  show "ex_tbl w' a = ex_tbl w a" if "a \<noteq> net_ParseIP ip" for a using that by (simp add: E(1) ex_tbl_def)
  have "set (ex_tbl w' (net_ParseIP ip)) = {q \<in> set (ex_tbl w (net_ParseIP ip)). p_Identifier q \<noteq> p_Identifier p}"
    by (auto simp: E(1) ex_tbl_def)
  then show "routes ex_gobgp ex_tbl w' (net_ParseIP ip) =
      {r \<in> routes ex_gobgp ex_tbl w (net_ParseIP ip). fst r \<noteq> p_Identifier p}"
    by (simp add: routes_def routes_filter)
qed (auto simp: ex_gobgp_def)

section \<open>Properties\<close>

text \<open>
  (C7) Once \<open>SetBalancer\<close> of an IPv4 address has succeeded, the server's own routes of the address are exactly one per
  internal address of the given nodes in the rack of the speaker, whatever paths of the speaker were there before, and
  the own routes of no other address are touched. The server knows no other route for the address (\<open>plain\<close>), its
  own paths were made by the speaker, the next hops are IPv4 addresses in canonical form, and the old and new next hops have different
  identifiers, since the server keeps one path per identifier.
\<close>

theorem bgp_SetBalancer_routes:
  assumes "gobgp_table G tbl plain" "metrics_apart P tbl" "v4_str ip" "plain w (net_ParseIP ip)"
    and "own_routes (routes G tbl w (net_ParseIP ip))"
    and "bgp_hops (b_rack b) nodes = Ok hs" "\<forall>h\<in>set hs. v4_str h \<and> IP_String (net_ParseIP h) = h"
    and "inj_on getPathIdentifier (set hs \<union> snd ` routes G tbl w (net_ParseIP ip))"
    and "bgp_SetBalancer G P C b ip nodes w = (Ok (), w')"
  shows "routes G tbl w' (net_ParseIP ip) = hop_route ` set hs \<and>
    (\<forall>a. a \<noteq> net_ParseIP ip \<longrightarrow> tbl w' a = tbl w a)"
proof -
  from assms(6,9) obtain w1 where r: "bgp_ready G w = (Ok (), w1)" and s: "bgp_setBalancer G P C ip hs w1 = (Ok (), w')"
    by (auto simp: bgp_SetBalancer_def res_simps)
  have t: "tbl w1 = tbl w" "plain w1 = plain w" using bgp_ready_table [OF assms(1) r] by simp_all
  have R: "routes G tbl w1 = routes G tbl w" by (simp add: fun_eq_iff routes_def t)
  from bgp_setBalancer_Ok [OF assms(1-3) _ _ assms(7) _ s, unfolded R t] assms(4,5,8) show ?thesis by blast
qed

definition ex_bgp_node :: "string \<Rightarrow> Node" where
  "ex_bgp_node ip = \<lparr>n_meta = zero_meta, n_addresses = [\<lparr>na_type = ''Hostname'', na_address = ''n''\<rparr>,
     \<lparr>na_type = ''InternalIP'', na_address = ip\<rparr>], n_conditions = []\<rparr>"

definition ex_routes :: ex_table where
  "ex_routes = (\<lambda>a. if a = net_ParseIP ''10.0.0.100'' then [toAPIPath ex_gobgp ''10.0.0.100'' 32 ''10.0.0.3''] else [])"

lemma ex_bgp_v4: "v4_str ''10.0.0.100''"
  by code_simp

lemma ex_bgp_facts:
  "own_routes (routes ex_gobgp ex_tbl ex_routes (net_ParseIP ''10.0.0.100''))"
  "snd ` routes ex_gobgp ex_tbl ex_routes (net_ParseIP ''10.0.0.100'') = {''10.0.0.3''}"
  by (simp_all add: own_routes_def routes_def) code_simp+

lemma ex_bgp_run:
  "fst (bgp_SetBalancer ex_gobgp ex_prometheus mem_client \<lparr>b_rack = []\<rparr> ''10.0.0.100''
     [ex_bgp_node ''10.0.0.1'', ex_bgp_node ''10.0.0.2''] ex_routes) = Ok ()"
  by code_simp

lemma ex_bgp_hops:
  "bgp_hops [] [ex_bgp_node ''10.0.0.1'', ex_bgp_node ''10.0.0.2''] = Ok [''10.0.0.1'', ''10.0.0.2'']"
  "\<forall>h\<in>set [''10.0.0.1'', ''10.0.0.2'']. v4_str h \<and> IP_String (net_ParseIP h) = h"
  "inj_on getPathIdentifier {''10.0.0.1'', ''10.0.0.2'', ''10.0.0.3''}"
  by code_simp+

lemma bgp_SetBalancer_routes_witness:
  "\<exists>w'. bgp_SetBalancer ex_gobgp ex_prometheus mem_client \<lparr>b_rack = []\<rparr> ''10.0.0.100''
       [ex_bgp_node ''10.0.0.1'', ex_bgp_node ''10.0.0.2''] ex_routes = (Ok (), w') \<and>
     routes ex_gobgp ex_tbl w' (net_ParseIP ''10.0.0.100'') = {hop_route ''10.0.0.1'', hop_route ''10.0.0.2''}"
proof -
  obtain w' where run: "bgp_SetBalancer ex_gobgp ex_prometheus mem_client \<lparr>b_rack = []\<rparr> ''10.0.0.100''
      [ex_bgp_node ''10.0.0.1'', ex_bgp_node ''10.0.0.2''] ex_routes = (Ok (), w')"
    using ex_bgp_run by (metis prod.collapse)
  have hops: "bgp_hops (b_rack \<lparr>b_rack = []\<rparr>) [ex_bgp_node ''10.0.0.1'', ex_bgp_node ''10.0.0.2''] =
      Ok [''10.0.0.1'', ''10.0.0.2'']" unfolding Bgp.simps by (rule ex_bgp_hops(1))
  have inj: "inj_on getPathIdentifier (set [''10.0.0.1'', ''10.0.0.2''] \<union>
      snd ` routes ex_gobgp ex_tbl ex_routes (net_ParseIP ''10.0.0.100''))"
    unfolding ex_bgp_facts(2) by (rule inj_on_subset [OF ex_bgp_hops(3)]) (simp only: list.set, blast)
  note t = bgp_SetBalancer_routes [OF ex_gobgp_table ex_metrics_apart ex_bgp_v4 TrueI ex_bgp_facts(1) hops ex_bgp_hops(2) inj run]
  have "hop_route ` set [''10.0.0.1'', ''10.0.0.2''] = {hop_route ''10.0.0.1'', hop_route ''10.0.0.2''}"
    by (simp only: list.set image_insert image_empty)
  with t [THEN conjunct1] have "routes ex_gobgp ex_tbl w' (net_ParseIP ''10.0.0.100'') =
      {hop_route ''10.0.0.1'', hop_route ''10.0.0.2''}" by (rule trans)
  with run show ?thesis by (intro exI [of _ w'] conjI)
qed

text \<open>
  (C35) \<open>DelBalancer\<close> of an IPv4 address for which the server knows no other route (\<open>plain\<close>) reports success in two cases:
  the server was running and none of its own paths of the address is
  left, or the server was not ready and nothing was done. Either way the own paths of the other addresses are untouched.
\<close>

theorem bgp_DelBalancer_withdraws:
  assumes "gobgp_table G tbl plain" "metrics_apart P tbl" "v4_str ip" "plain w (net_ParseIP ip)"
    and "bgp_DelBalancer G P C ip w = (Ok (), w')"
  shows "(is_Ok (fst (bgp_ready G w)) \<longrightarrow> tbl w' (net_ParseIP ip) = []) \<and>
    (\<not> is_Ok (fst (bgp_ready G w)) \<longrightarrow> tbl w' (net_ParseIP ip) = tbl w (net_ParseIP ip)) \<and>
    (\<forall>a. a \<noteq> net_ParseIP ip \<longrightarrow> tbl w' a = tbl w a)"
proof -
  obtain r w1 where rdy: "bgp_ready G w = (r, w1)" by force
  show ?thesis
  proof (cases r)
    case (Ok u)
    then show ?thesis using bgp_DelBalancer_Ok [OF assms(1-4) _ assms(5)] rdy by simp
  next
    case (Err e)
    then have "w' = w1" using assms(5) rdy by (simp add: bgp_DelBalancer_def)
    with Err show ?thesis using rdy bgp_ready_table [OF assms(1) rdy] by simp
  next
    case (Panic p)
    then show ?thesis using assms(5) rdy by (simp add: bgp_DelBalancer_def)
  qed
qed

lemma ex_bgp_del:
  "fst (bgp_DelBalancer ex_gobgp ex_prometheus mem_client ''10.0.0.100'' ex_routes) = Ok ()"
  "is_Ok (fst (bgp_ready ex_gobgp ex_routes))" "ex_tbl ex_routes (net_ParseIP ''10.0.0.100'') \<noteq> []"
  by code_simp+

lemma bgp_DelBalancer_withdraws_witness:
  "ex_tbl ex_routes (net_ParseIP ''10.0.0.100'') \<noteq> [] \<and>
   (\<exists>w'. bgp_DelBalancer ex_gobgp ex_prometheus mem_client ''10.0.0.100'' ex_routes = (Ok (), w') \<and>
     ex_tbl w' (net_ParseIP ''10.0.0.100'') = [])"
proof -
  obtain w' where run: "bgp_DelBalancer ex_gobgp ex_prometheus mem_client ''10.0.0.100'' ex_routes = (Ok (), w')"
    using ex_bgp_del(1) by (metis prod.collapse)
  note t = bgp_DelBalancer_withdraws [OF ex_gobgp_table ex_metrics_apart ex_bgp_v4 TrueI run]
  from t [THEN conjunct1] ex_bgp_del(2) have "ex_tbl w' (net_ParseIP ''10.0.0.100'') = []" by (rule mp)
  with run ex_bgp_del(3) show ?thesis by blast
qed

end
