(* ===== verification/BgpPolicy.thy ===== *)
theory BgpPolicy
  imports BgpConfig BgpSpeaker
begin

text \<open>
  The global configuration and the policies of the BGP speaker: \<open>config/util.go\<close>, \<open>config/serve.go\<close>,
  \<open>table/table.go\<close>, \<open>policy.go\<close> and \<open>conf.go\<close> of \<open>pkg/speaker/bgp/bgp\<close>. A policy file is decoded into the
  structures of \<open>BgpConfig\<close>, converted to the messages of the GoBGP API and given to the server.

  The enumerations of the API are integers where the source converts one, and data types where it
  names them. The properties show that the ranges of the prefixes are well-formed after the
  conversion, and which conditions of a statement it drops.
\<close>

section \<open>Strings\<close>

text \<open>
  \<open>strconv.ParseUint\<close> in base 10 returns a value with every error: 0 for a wrong character, the
  greatest number of the size when the value is too large.
\<close>

fun ParseUint_loop :: "nat \<Rightarrow> nat \<Rightarrow> string \<Rightarrow> nat \<times> error option" where
  "ParseUint_loop maxVal n [] = (n, None)"
| "ParseUint_loop maxVal n (c # cs) =
     (if \<not> is_digit c then (0, Some (Errorf ''invalid syntax''))
      else if maxVal < n * 10 + digit_val c then (maxVal, Some (Errorf ''value out of range''))
      else ParseUint_loop maxVal (n * 10 + digit_val c) cs)"

definition ParseUint :: "string \<Rightarrow> nat \<Rightarrow> nat \<times> error option" where
  "ParseUint s bitSize =
     (if s = [] then (0, Some (Errorf ''invalid syntax'')) else ParseUint_loop (2 ^ bitSize - 1) 0 s)"

text \<open>\<open>strconv.ParseInt\<close> of a sign and digits, in base 10 and 64 bits.\<close>

definition ParseInt :: "string \<Rightarrow> int res" where
  "ParseInt s =
     (let (neg, ds) = (case s of c # cs \<Rightarrow> if c = CHR ''-'' then (True, cs) else if c = CHR ''+'' then (False, cs) else (False, s)
          | [] \<Rightarrow> (False, []));
          (un, err) = ParseUint ds 64 in
      case err of
        Some e \<Rightarrow> Err e
      | None \<Rightarrow>
          if \<not> neg \<and> 2 ^ 63 \<le> un then Err (Errorf ''value out of range'')
          else if neg \<and> 2 ^ 63 < un then Err (Errorf ''value out of range'')
          else Ok (if neg then - int un else int un))"

text \<open>The leftmost match of \<open>(\d+)\.\.(\d+)\<close> and of \<open>([+-]?)(\d+)\<close>, with its groups.\<close>

fun match_range :: "string \<Rightarrow> (string \<times> string) option" where
  "match_range [] = None"
| "match_range (c # cs) =
     (let lo = takeWhile is_digit (c # cs); r = dropWhile is_digit (c # cs); hi = takeWhile is_digit (drop 2 r) in
      if lo \<noteq> [] \<and> take 2 r = ''..'' \<and> hi \<noteq> [] then Some (lo, hi) else match_range cs)"

fun match_med :: "string \<Rightarrow> (string \<times> string) option" where
  "match_med [] = None"
| "match_med (c # cs) =
     (if c \<in> {CHR ''+'', CHR ''-''} \<and> takeWhile is_digit cs \<noteq> [] then Some ([c], takeWhile is_digit cs)
      else if is_digit c then Some ([], takeWhile is_digit (c # cs))
      else match_med cs)"

text \<open>The white space of ASCII; wider characters do not matter to the pattern that is searched next.\<close>

definition is_space :: "char \<Rightarrow> bool" where
  "is_space c \<longleftrightarrow> of_char c \<in> {9, 10, 11, 12, 13, 32 :: nat}"

definition TrimSpace :: "string \<Rightarrow> string" where
  "TrimSpace s = rev (dropWhile is_space (rev (dropWhile is_space s)))"

section \<open>Defined sets\<close>

datatype DefinedType = PREFIX | NEIGHBOR | COMMUNITY | EXT_COMMUNITY | LARGE_COMMUNITY | AS_PATH

record api_Prefix =
  apx_IpPrefix :: string
  apx_MaskLengthMin :: nat
  apx_MaskLengthMax :: nat

record api_DefinedSet =
  ads_DefinedType :: DefinedType
  ads_Name :: string
  ads_List :: "string list"
  ads_Prefixes :: "api_Prefix list"

definition parseMaskLength :: "string \<Rightarrow> string \<Rightarrow> (nat \<times> nat) res" where
  "parseMaskLength prefix msk =
     (case net_ParseCIDR prefix of
        None \<Rightarrow> Err (Errorf (''invalid prefix: '' @ prefix))
      | Some (_, ipNet) \<Rightarrow>
          if msk = [] then (let (l, _) = Mask_Size (net_Mask ipNet) in Ok (l, l))
          else
            (case match_range msk of
               None \<Rightarrow> Err (Errorf (''invalid mask length range: '' @ msk))
             | Some (elem1, elem2) \<Rightarrow>
                 (let (lo, _) = ParseUint elem1 8; (hi, _) = ParseUint elem2 8 in
                  if hi < lo then Err (Errorf (''invalid mask length range: '' @ msk))
                  else if To4 (net_IP ipNet) \<noteq> [] then
                    (if \<not> lo \<le> 32 \<or> \<not> hi \<le> 32
                     then Err (Errorf (''ipv4 mask length range outside scope :'' @ msk)) else Ok (lo, hi))
                  else
                    (if \<not> lo \<le> 128 \<or> \<not> hi \<le> 128
                     then Err (Errorf (''ipv6 mask length range outside scope :'' @ msk)) else Ok (lo, hi)))))"

definition newAPIPrefixFromConfigStruct :: "Prefix \<Rightarrow> api_Prefix res" where
  "newAPIPrefixFromConfigStruct c =
     bind_res (parseMaskLength (pf_IpPrefix c) (pf_MasklengthRange c)) (\<lambda>(lo, hi).
       Ok \<lparr>apx_IpPrefix = pf_IpPrefix c, apx_MaskLengthMin = lo, apx_MaskLengthMax = hi\<rparr>)"

fun prefix_list :: "Prefix list \<Rightarrow> api_Prefix list res" where
  "prefix_list [] = Ok []"
| "prefix_list (p # ps) =
     bind_res (newAPIPrefixFromConfigStruct p) (\<lambda>ap. bind_res (prefix_list ps) (\<lambda>aps. Ok (ap # aps)))"

fun prefix_sets :: "PrefixSet list \<Rightarrow> api_DefinedSet list res" where
  "prefix_sets [] = Ok []"
| "prefix_sets (ps # pss) =
     bind_res (prefix_list (PrefixList ps)) (\<lambda>prefixes.
     bind_res (prefix_sets pss) (\<lambda>sets.
       Ok (\<lparr>ads_DefinedType = PREFIX, ads_Name = PrefixSetName ps, ads_List = [], ads_Prefixes = prefixes\<rparr> # sets)))"

definition list_set :: "DefinedType \<Rightarrow> string \<Rightarrow> string list \<Rightarrow> api_DefinedSet" where
  "list_set t name xs = \<lparr>ads_DefinedType = t, ads_Name = name, ads_List = xs, ads_Prefixes = []\<rparr>"

definition NewAPIDefinedSetsFromConfigStruct :: "DefinedSets \<Rightarrow> api_DefinedSet list res" where
  "NewAPIDefinedSetsFromConfigStruct t =
     bind_res (prefix_sets (PrefixSets t)) (\<lambda>sets.
       let bs = ds_BgpDefinedSets t in
       Ok (sets @
         map (\<lambda>ns. list_set NEIGHBOR (NeighborSetName ns) (NeighborInfoList ns)) (NeighborSets t) @
         map (\<lambda>cs. list_set COMMUNITY (CommunitySetName cs) (CommunityList cs)) (CommunitySets bs) @
         map (\<lambda>es. list_set EXT_COMMUNITY (ExtCommunitySetName es) (ExtCommunityList es)) (ExtCommunitySets bs) @
         map (\<lambda>ls. list_set LARGE_COMMUNITY (LargeCommunitySetName ls) (LargeCommunityList ls)) (LargeCommunitySets bs) @
         map (\<lambda>as. list_set AS_PATH (AsPathSetName as) (AsPathList as)) (AsPathSets bs)))"

section \<open>Policies\<close>

definition GLOBAL_RIB_NAME :: string where
  "GLOBAL_RIB_NAME = ''global''"

datatype table_RouteType = ROUTE_TYPE_NONE | ROUTE_TYPE_ACCEPT | ROUTE_TYPE_REJECT

datatype table_PolicyDirection = POLICY_DIRECTION_NONE | POLICY_DIRECTION_IMPORT | POLICY_DIRECTION_EXPORT

datatype MatchOption = MATCH_OPTION_ANY | MATCH_OPTION_ALL | MATCH_OPTION_INVERT

text \<open>The type switch: the argument is one of the two option types or something else.\<close>

datatype match_arg = MSO MatchSetOptionsType | MSOR MatchSetOptionsRestrictedType | MOther string

fun match_arg_text :: "match_arg \<Rightarrow> string" where
  "match_arg_text (MSO t) = t"
| "match_arg_text (MSOR t) = t"
| "match_arg_text (MOther t) = t"

definition newMatchOption :: "match_arg \<Rightarrow> MatchOption \<times> error option" where
  "newMatchOption c =
     (let fail = (MATCH_OPTION_ANY, Some (Errorf (''invalid argument to create match option: '' @ match_arg_text c))) in
      case c of
        MSO t \<Rightarrow>
          (let t = MatchSetOptionsType_DefaultAsNeeded t in
           if t = ''any'' then (MATCH_OPTION_ANY, None)
           else if t = ''all'' then (MATCH_OPTION_ALL, None)
           else if t = ''invert'' then (MATCH_OPTION_INVERT, None) else fail)
      | MSOR t \<Rightarrow>
          (let t = MatchSetOptionsRestrictedType_DefaultAsNeeded t in
           if t = ''any'' then (MATCH_OPTION_ANY, None)
           else if t = ''invert'' then (MATCH_OPTION_INVERT, None) else fail)
      | MOther t \<Rightarrow> fail)"

fun MatchOption_int :: "MatchOption \<Rightarrow> int" where
  "MatchOption_int MATCH_OPTION_ANY = 0"
| "MatchOption_int MATCH_OPTION_ALL = 1"
| "MatchOption_int MATCH_OPTION_INVERT = 2"

record table_Policy =
  tp_Name :: string

definition toConfig :: "table_Policy \<Rightarrow> PolicyDefinition" where
  "toConfig p = \<lparr>pd_Name = tp_Name p, pd_Statements = []\<rparr>"

record table_PolicyAssignment =
  tpa_Name :: string
  tpa_Type :: table_PolicyDirection
  tpa_Policies :: "table_Policy list"
  tpa_Default :: table_RouteType

section \<open>Messages of the API\<close>

record api_MatchSet =
  ams_MatchType :: int
  ams_Name :: string

record api_AsPathLength =
  aal_Length :: "32 word"
  aal_LengthType :: int

text \<open>An address family of a condition is the pair of its numbers.\<close>

record api_Conditions =
  ac_PrefixSet :: "api_MatchSet option"
  ac_NeighborSet :: "api_MatchSet option"
  ac_AsPathLength :: "api_AsPathLength option"
  ac_AsPathSet :: "api_MatchSet option"
  ac_CommunitySet :: "api_MatchSet option"
  ac_ExtCommunitySet :: "api_MatchSet option"
  ac_LargeCommunitySet :: "api_MatchSet option"
  ac_RouteType :: int
  ac_NextHopInList :: "string list"
  ac_AfiSafiIn :: "(int \<times> int) list"

datatype RouteAction = RouteAction_NONE | RouteAction_ACCEPT | RouteAction_REJECT

datatype MedActionType = MED_MOD | MED_REPLACE

record api_CommunityAction =
  aca_ActionType :: int
  aca_Communities :: "string list"

record api_MedAction =
  ama_Value :: int
  ama_ActionType :: MedActionType

record api_AsPrependAction =
  aap_Asn :: "32 word"
  aap_Repeat :: "32 word"
  aap_UseLeftMost :: bool

record api_NexthopAction =
  ana_Address :: string
  ana_Self :: bool

record api_Actions =
  aa_RouteAction :: RouteAction
  aa_Community :: "api_CommunityAction option"
  aa_Med :: "api_MedAction option"
  aa_AsPrepend :: "api_AsPrependAction option"
  aa_ExtCommunity :: "api_CommunityAction option"
  aa_LargeCommunity :: "api_CommunityAction option"
  aa_Nexthop :: "api_NexthopAction option"
  aa_LocalPref :: "(32 word) option"

record api_Statement =
  ast_Name :: string
  ast_Conditions :: api_Conditions
  ast_Actions :: api_Actions

record api_Policy =
  apo_Name :: string
  apo_Statements :: "api_Statement list"

datatype api_PolicyDirection = Direction_UNKNOWN | Direction_IMPORT | Direction_EXPORT

record api_PolicyAssignment =
  apa_Name :: string
  apa_Direction :: api_PolicyDirection
  apa_Policies :: "api_Policy list"
  apa_DefaultAction :: RouteAction

record api_RoutingPolicy =
  arp_DefinedSets :: "api_DefinedSet list"
  arp_Policies :: "api_Policy list"

section \<open>Conversion\<close>

definition match_set :: "string \<Rightarrow> int \<Rightarrow> api_MatchSet option" where
  "match_set name t = (if name \<noteq> [] then Some \<lparr>ams_MatchType = t, ams_Name = name\<rparr> else None)"

text \<open>
  \<open>fam\<close> stands for \<open>bgp.AddressFamilyValueMap\<close> followed by \<open>bgp.RouteFamilyToAfiSafi\<close> of the GoBGP
  packages. The error of \<open>newMatchOption\<close> is dropped.
\<close>

definition toConditionsApi :: "(string \<Rightarrow> (int \<times> int) option) \<Rightarrow> Conditions \<Rightarrow> api_Conditions" where
  "toConditionsApi fam c =
     (let b = cd_BgpConditions c in
      \<lparr>ac_PrefixSet = match_set (mps_PrefixSet (cd_MatchPrefixSet c))
         (MatchOption_int (fst (newMatchOption (MSOR (mps_MatchSetOptions (cd_MatchPrefixSet c)))))),
       ac_NeighborSet = match_set (mns_NeighborSet (cd_MatchNeighborSet c))
         (MatchOption_int (fst (newMatchOption (MSOR (mns_MatchSetOptions (cd_MatchNeighborSet c)))))),
       ac_AsPathLength =
         (if apl_Operator (bcd_AsPathLength b) \<noteq> [] then
            Some \<lparr>aal_Length = apl_Value (bcd_AsPathLength b),
              aal_LengthType = AttributeComparison_ToInt (apl_Operator (bcd_AsPathLength b))\<rparr>
          else None),
       ac_AsPathSet = match_set (mas_AsPathSet (bcd_MatchAsPathSet b))
         (MatchSetOptionsType_ToInt (mas_MatchSetOptions (bcd_MatchAsPathSet b))),
       ac_CommunitySet = match_set (mcs_CommunitySet (bcd_MatchCommunitySet b))
         (MatchSetOptionsType_ToInt (mcs_MatchSetOptions (bcd_MatchCommunitySet b))),
       ac_ExtCommunitySet = match_set (mes_ExtCommunitySet (bcd_MatchExtCommunitySet b))
         (MatchSetOptionsType_ToInt (mes_MatchSetOptions (bcd_MatchExtCommunitySet b))),
       ac_LargeCommunitySet = match_set (mls_LargeCommunitySet (bcd_MatchLargeCommunitySet b))
         (MatchSetOptionsType_ToInt (mls_MatchSetOptions (bcd_MatchLargeCommunitySet b))),
       ac_RouteType = (if bcd_RouteType b \<noteq> [] then RouteType_ToInt (bcd_RouteType b) else 0),
       ac_NextHopInList = bcd_NextHopInList b,
       ac_AfiSafiIn =
         (case bcd_AfiSafiInList b of
            None \<Rightarrow> []
          | Some xs \<Rightarrow> concat (map (\<lambda>t. case fam t of None \<Rightarrow> [] | Some f \<Rightarrow> [f]) xs))\<rparr>)"

definition community_action :: "string list \<Rightarrow> string \<Rightarrow> api_CommunityAction option" where
  "community_action communities options =
     (if communities = [] then None
      else Some \<lparr>aca_ActionType = (case mget BgpSetCommunityOptionTypeToIntMap options of None \<Rightarrow> 0 | Some i \<Rightarrow> i),
        aca_Communities = communities\<rparr>)"

definition med_action :: "string \<Rightarrow> api_MedAction option" where
  "med_action setMed =
     (let medStr = TrimSpace setMed in
      if medStr = [] then None
      else
        (case match_med medStr of
           None \<Rightarrow> None
         | Some (m1, m2) \<Rightarrow>
             (let action = (if m1 = ''+'' \<or> m1 = ''-'' then MED_MOD else MED_REPLACE) in
              case ParseInt (m1 @ m2) of
                Ok val \<Rightarrow> Some \<lparr>ama_Value = val, ama_ActionType = action\<rparr>
              | _ \<Rightarrow> None)))"

definition as_prepend :: "SetAsPathPrepend \<Rightarrow> api_AsPrependAction option" where
  "as_prepend s =
     (if sap_As s = [] then None
      else
        (let (asn, useleft) =
           (if sap_As s \<noteq> ''last-as'' then (fst (ParseUint (sap_As s) 32), False) else (0, True)) in
         Some \<lparr>aap_Asn = of_nat asn, aap_Repeat = ucast (RepeatN s), aap_UseLeftMost = useleft\<rparr>))"

definition toActionsApi :: "Actions \<Rightarrow> api_Actions" where
  "toActionsApi a =
     (let b = a_BgpActions a in
      \<lparr>aa_RouteAction =
         (if a_RouteDisposition a = ''accept-route'' then RouteAction_ACCEPT
          else if a_RouteDisposition a = ''reject-route'' then RouteAction_REJECT else RouteAction_NONE),
       aa_Community = community_action (scm_CommunitiesList (sc_Method (ba_SetCommunity b))) (sc_Options (ba_SetCommunity b)),
       aa_Med = med_action (ba_SetMed b),
       aa_AsPrepend = as_prepend (ba_SetAsPathPrepend b),
       aa_ExtCommunity = community_action (sem_CommunitiesList (se_Method (ba_SetExtCommunity b))) (se_Options (ba_SetExtCommunity b)),
       aa_LargeCommunity = community_action (slm_CommunitiesList (sl_Method (ba_SetLargeCommunity b))) (sl_Options (ba_SetLargeCommunity b)),
       aa_Nexthop =
         (if ba_SetNextHop b = [] then None
          else if ba_SetNextHop b = ''self'' then Some \<lparr>ana_Address = [], ana_Self = True\<rparr>
          else Some \<lparr>ana_Address = ba_SetNextHop b, ana_Self = False\<rparr>),
       aa_LocalPref = (if ba_SetLocalPref b = 0 then None else Some (ba_SetLocalPref b))\<rparr>)"

definition toStatementApi :: "(string \<Rightarrow> (int \<times> int) option) \<Rightarrow> Statement \<Rightarrow> api_Statement" where
  "toStatementApi fam s =
     \<lparr>ast_Name = st_Name s, ast_Conditions = toConditionsApi fam (st_Conditions s),
      ast_Actions = toActionsApi (st_Actions s)\<rparr>"

definition toPolicyApi :: "(string \<Rightarrow> (int \<times> int) option) \<Rightarrow> PolicyDefinition \<Rightarrow> api_Policy" where
  "toPolicyApi fam p = \<lparr>apo_Name = pd_Name p, apo_Statements = map (toStatementApi fam) (pd_Statements p)\<rparr>"

definition newAPIPolicyFromTableStruct :: "(string \<Rightarrow> (int \<times> int) option) \<Rightarrow> table_Policy \<Rightarrow> api_Policy" where
  "newAPIPolicyFromTableStruct fam p = toPolicyApi fam (toConfig p)"

definition NewAPIPolicyAssignmentFromTableStruct ::
    "(string \<Rightarrow> (int \<times> int) option) \<Rightarrow> table_PolicyAssignment \<Rightarrow> api_PolicyAssignment" where
  "NewAPIPolicyAssignmentFromTableStruct fam t =
     \<lparr>apa_Name = tpa_Name t,
      apa_Direction =
        (case tpa_Type t of
           POLICY_DIRECTION_IMPORT \<Rightarrow> Direction_IMPORT
         | POLICY_DIRECTION_EXPORT \<Rightarrow> Direction_EXPORT
         | POLICY_DIRECTION_NONE \<Rightarrow> Direction_UNKNOWN),
      apa_Policies = map (newAPIPolicyFromTableStruct fam) (tpa_Policies t),
      apa_DefaultAction =
        (case tpa_Default t of
           ROUTE_TYPE_ACCEPT \<Rightarrow> RouteAction_ACCEPT
         | ROUTE_TYPE_REJECT \<Rightarrow> RouteAction_REJECT
         | ROUTE_TYPE_NONE \<Rightarrow> RouteAction_NONE)\<rparr>"

definition NewAPIRoutingPolicyFromConfigStruct ::
    "(string \<Rightarrow> (int \<times> int) option) \<Rightarrow> RoutingPolicy \<Rightarrow> api_RoutingPolicy res" where
  "NewAPIRoutingPolicyFromConfigStruct fam c =
     bind_res (NewAPIDefinedSetsFromConfigStruct (rp_DefinedSets c)) (\<lambda>definedSets.
       Ok \<lparr>arp_DefinedSets = definedSets, arp_Policies = map (toPolicyApi fam) (rp_PolicyDefinitions c)\<rparr>)"

section \<open>Policy files\<close>

record BgpConfigSet =
  cs_Global :: Global
  cs_DefinedSets :: DefinedSets
  cs_PolicyDefinitions :: "PolicyDefinition list"

text \<open>
  What is called to read a policy and to give it to the server: the operating system, the
  configuration library, which reads a file and decodes it strictly in the given format, the address families of
  GoBGP and the two calls that set policies.
\<close>

record 'w policy_env =
  oCreateTemp :: "'w \<Rightarrow> string res \<times> 'w"
  oWriteFile :: "string \<Rightarrow> string \<Rightarrow> 'w \<Rightarrow> unit res \<times> 'w"
  oAbs :: "string \<Rightarrow> 'w \<Rightarrow> string res \<times> 'w"
  oRemoveAll :: "string \<Rightarrow> 'w \<Rightarrow> 'w"
  vReadInConfig :: "string \<Rightarrow> string \<Rightarrow> 'w \<Rightarrow> string res \<times> 'w"
  vUnmarshalExact :: "string \<Rightarrow> string \<Rightarrow> BgpConfigSet res"
  bFamily :: "string \<Rightarrow> (int \<times> int) option"
  sSetPolicies :: "api_DefinedSet list \<Rightarrow> api_Policy list \<Rightarrow> 'w \<Rightarrow> unit res \<times> 'w"
  sSetPolicyAssignment :: "api_PolicyAssignment \<Rightarrow> 'w \<Rightarrow> unit res \<times> 'w"

definition ReadConfigfile :: "'w policy_env \<Rightarrow> string \<Rightarrow> string \<Rightarrow> 'w \<Rightarrow> BgpConfigSet res \<times> 'w" where
  "ReadConfigfile E path format w =
     andThen (vReadInConfig E path format w) (\<lambda>content w. (vUnmarshalExact E format content, w))"

definition ConfigSetToRoutingPolicy :: "BgpConfigSet \<Rightarrow> RoutingPolicy" where
  "ConfigSetToRoutingPolicy c =
     \<lparr>rp_DefinedSets = cs_DefinedSets c, rp_PolicyDefinitions = cs_PolicyDefinitions c\<rparr>"

definition toDefaultTable :: "DefaultPolicyType \<Rightarrow> table_RouteType" where
  "toDefaultTable r =
     (if r = ''accept-route'' then ROUTE_TYPE_ACCEPT
      else if r = ''reject-route'' then ROUTE_TYPE_REJECT else ROUTE_TYPE_NONE)"

definition toPolicies :: "string list \<Rightarrow> table_Policy list" where
  "toPolicies r = map (\<lambda>n. \<lparr>tp_Name = n\<rparr>) r"

definition assignGlobalpolicy :: "'w policy_env \<Rightarrow> ApplyPolicyConfig \<Rightarrow> 'w \<Rightarrow> unit res \<times> 'w" where
  "assignGlobalpolicy E a w =
     andThen (sSetPolicyAssignment E (NewAPIPolicyAssignmentFromTableStruct (bFamily E)
         \<lparr>tpa_Name = GLOBAL_RIB_NAME, tpa_Type = POLICY_DIRECTION_IMPORT,
          tpa_Policies = toPolicies (ImportPolicyList a), tpa_Default = toDefaultTable (DefaultImportPolicy a)\<rparr>) w) (\<lambda>_ w.
       sSetPolicyAssignment E (NewAPIPolicyAssignmentFromTableStruct (bFamily E)
         \<lparr>tpa_Name = GLOBAL_RIB_NAME, tpa_Type = POLICY_DIRECTION_EXPORT,
          tpa_Policies = toPolicies (ExportPolicyList a), tpa_Default = toDefaultTable (DefaultExportPolicy a)\<rparr>) w)"

text \<open>The path is empty when the file cannot be created or written.\<close>

definition writeToTempFile :: "'w policy_env \<Rightarrow> string \<Rightarrow> 'w \<Rightarrow> (string \<times> unit res) \<times> 'w" where
  "writeToTempFile E val w =
     (case oCreateTemp E w of
        (Ok name, w) \<Rightarrow>
          (case oWriteFile E name val w of
             (Ok _, w) \<Rightarrow>
               (case oAbs E name w of
                  (Ok path, w) \<Rightarrow> ((path, Ok ()), w)
                | (Err e, w) \<Rightarrow> (([], Err e), w)
                | (Panic s, w) \<Rightarrow> (([], Panic s), w))
           | (r, w) \<Rightarrow> (([], r), w))
      | (Err e, w) \<Rightarrow> (([], Err e), w)
      | (Panic s, w) \<Rightarrow> (([], Panic s), w))"

record ConfigMap =
  cm_meta :: ObjectMeta
  cm_Data :: "(string, string) gomap"

definition OpenELBBgpName :: string where
  "OpenELBBgpName = ''gobgp.conf''"

definition updatePolicy :: "'w policy_env \<Rightarrow> ConfigMap option \<Rightarrow> 'w \<Rightarrow> unit res \<times> 'w" where
  "updatePolicy E cm w =
     (case cm of
        None \<Rightarrow> (Ok (), w)
      | Some cm \<Rightarrow>
          (case mget (cm_Data cm) OpenELBBgpName of
             None \<Rightarrow> (Ok (), w)
           | Some policyConf \<Rightarrow>
               (let ((path, err), w) = writeToTempFile E policyConf w;
                    (r, w) =
                      andThen (err, w) (\<lambda>_ w.
                      andThen (ReadConfigfile E path ''toml'' w) (\<lambda>newConfig w.
                      andThen (NewAPIRoutingPolicyFromConfigStruct (bFamily E) (ConfigSetToRoutingPolicy newConfig), w) (\<lambda>rp w.
                      andThen (sSetPolicies E (arp_DefinedSets rp) (arp_Policies rp) w) (\<lambda>_ w.
                        assignGlobalpolicy E (apol_Config (g_ApplyPolicy (cs_Global newConfig))) w)))) in
                (r, oRemoveAll E path w))))"

section \<open>The global configuration\<close>

definition HandleBgpGlobalConfig ::
    "('x, 'w) gobgp \<Rightarrow> 'w policy_env \<Rightarrow> BgpConf \<Rightarrow> string \<Rightarrow> bool \<Rightarrow> ConfigMap option \<Rightarrow>
      Bgp \<Rightarrow> 'w \<Rightarrow> Bgp \<times> unit res \<times> 'w" where
  "HandleBgpGlobalConfig G E global rack delete cm b w =
     (b\<lparr>b_rack := rack\<rparr>,
      if delete then gStopBgp G w
      else
        andThen (ToGoBgpGlobalConf G (bc_spec global), w) (\<lambda>request w.
        ignoring (gStopBgp G w) (\<lambda>w.
        andThen (gStartBgp G request w) (\<lambda>_ w. updatePolicy E cm w))))"

section \<open>Ranges of prefix lengths\<close>

lemma net_ParseCIDR_mask:
  assumes "net_ParseCIDR s = Some (ip, n)"
  obtains b :: IP and k where "length b = 4 \<or> length b = 16" "k \<le> 8 * length b" "net_Mask n = CIDRMask_bytes k (length b)"
    "To4 (net_IP n) = [] \<Longrightarrow> length b = 16"
proof -
  obtain b k where b: "length b = 4 \<or> length b = 16" "k \<le> 8 * length b"
    and n: "n = \<lparr>net_IP = IP_Mask (To16 b) (CIDRMask k (8 * length b)), net_Mask = CIDRMask k (8 * length b)\<rparr>"
    using assms
    by (auto simp: net_ParseCIDR_def Let_def not_less dest: length_ParseAddr
        split: list.splits option.splits if_splits)
  have "length (net_IP n) = 4" if four: "length b = 4"
    using four by (simp add: n IP_Mask_def To16_def CIDRMask_def)
  then have six: "length b = 16" if no4: "To4 (net_IP n) = []" using b(1) no4 by (auto simp: To4_len4)
  have "net_Mask n = CIDRMask_bytes k (length b)" by (simp add: n CIDRMask_def)
  from that [OF b this six] show ?thesis .
qed

text \<open>The number of bits of the addresses of a network.\<close>

definition net_width :: "IPNet \<Rightarrow> nat" where
  "net_width n = 8 * length (net_Mask n)"

lemma parseMaskLength_bounds:
  assumes "parseMaskLength prefix msk = Ok (lo, hi)"
  shows "\<exists>ip n. net_ParseCIDR prefix = Some (ip, n) \<and> lo \<le> hi \<and> hi \<le> net_width n \<and> net_width n \<in> {32, 128}"
proof -
  obtain ip n where n: "net_ParseCIDR prefix = Some (ip, n)"
    using assms by (auto simp: parseMaskLength_def split: option.splits)
  obtain b :: IP and k where b: "length b = 4 \<or> length b = 16" "k \<le> 8 * length b" "net_Mask n = CIDRMask_bytes k (length b)"
    "To4 (net_IP n) = [] \<Longrightarrow> length b = 16" by (rule net_ParseCIDR_mask [OF n]) blast
  have w: "net_width n = 8 * length b" by (simp add: net_width_def b(3))
  have "lo \<le> hi \<and> hi \<le> net_width n"
  proof (cases "msk = []")
    case True
    with assms n b(2) show ?thesis by (auto simp: parseMaskLength_def Mask_Size_def b(3) simpleMaskLength_CIDRMask [OF b(2)] w)
  next
    case False
    with assms n have "lo \<le> hi \<and> (if To4 (net_IP n) \<noteq> [] then hi \<le> 32 else hi \<le> 128)"
      by (auto simp: parseMaskLength_def Let_def split: option.splits prod.splits if_splits)
    then show ?thesis using b(1,4) unfolding w by (auto split: if_splits)
  qed
  with n b(1) w show ?thesis by auto
qed

lemma ParseUint_loop_digits:
  "list_all is_digit s \<Longrightarrow> foldl (\<lambda>a c. a * 10 + digit_val c) n s \<le> m \<Longrightarrow>
     ParseUint_loop m n s = (foldl (\<lambda>a c. a * 10 + digit_val c) n s, None)"
proof (induction s arbitrary: n)
  case (Cons c s)
  have "k \<le> foldl (\<lambda>a c. a * 10 + digit_val c) k s" for k
  proof (induction s arbitrary: k)
    case (Cons c s)
    from Cons.IH [of "k * 10 + digit_val c"] show ?case by simp
  qed simp
  then have "n * 10 + digit_val c \<le> m" using Cons.prems(2) by (auto intro: order_trans)
  with Cons show ?case by simp
qed simp

lemma ParseUint_nat_dec: "k \<le> 255 \<Longrightarrow> ParseUint (nat_dec k) 8 = (k, None)"
  using dtoi_nat_dec [of k] ParseUint_loop_digits [of "nat_dec k" 0 255]
  by (auto simp: dtoi_def ParseUint_def split: if_splits)

lemma ParseUint_large: "255 < k \<Longrightarrow> fst (ParseUint (nat_dec k) 8) = 255"
proof -
  have "list_all is_digit s \<Longrightarrow> n \<le> 255 \<Longrightarrow> 255 < foldl (\<lambda>a c. a * 10 + digit_val c) n s \<Longrightarrow>
      fst (ParseUint_loop 255 n s) = 255" for s and n :: nat
    by (induction s arbitrary: n) auto
  then show "255 < k \<Longrightarrow> fst (ParseUint (nat_dec k) 8) = 255"
    using dtoi_nat_dec [of k] by (auto simp: dtoi_def ParseUint_def split: if_splits)
qed

lemma match_range_hit:
  assumes "takeWhile is_digit s = lo" "dropWhile is_digit s = ''..'' @ r" "takeWhile is_digit r = hi" "lo \<noteq> []" "hi \<noteq> []"
  shows "match_range s = Some (lo, hi)"
proof (cases s)
  case (Cons c cs)
  show ?thesis using assms unfolding Cons match_range.simps Let_def by (simp del: takeWhile.simps dropWhile.simps)
qed (use assms in simp)

lemma match_range_decimal: "match_range (nat_dec a @ ''..'' @ nat_dec b) = Some (nat_dec a, nat_dec b)"
proof (rule match_range_hit)
  have d: "\<forall>c\<in>set (nat_dec k). is_digit c" for k using set_nat_dec by blast
  show "takeWhile is_digit (nat_dec a @ ''..'' @ nat_dec b) = nat_dec a"
    "dropWhile is_digit (nat_dec a @ ''..'' @ nat_dec b) = ''..'' @ nat_dec b"
    using d [of a] by (simp_all add: takeWhile_append2 dropWhile_append2 not_is_digit_dot)
  show "takeWhile is_digit (nat_dec b) = nat_dec b" using d [of b] by (simp add: takeWhile_eq_all_conv)
  show "nat_dec a \<noteq> []" "nat_dec b \<noteq> []" using length_nat_dec_pos by fastforce+
qed

text \<open>A written range is accepted exactly when it is one of the lengths of the family, and read as written.\<close>

lemma parseMaskLength_range:
  assumes "net_ParseCIDR prefix = Some (ip, n)"
  shows "parseMaskLength prefix (nat_dec a @ ''..'' @ nat_dec b) = Ok (lo, hi) \<longleftrightarrow>
    lo = a \<and> hi = b \<and> a \<le> b \<and> b \<le> (if To4 (net_IP n) \<noteq> [] then 32 else 128)"
proof -
  have u: "fst (ParseUint (nat_dec k) 8) = (if k \<le> 255 then k else 255)" for k
    using ParseUint_nat_dec [of k] ParseUint_large [of k] by simp
  have e: "nat_dec a @ ''..'' @ nat_dec b \<noteq> []" by simp
  show ?thesis unfolding parseMaskLength_def assms match_range_decimal
    using u [of a] u [of b] e by (auto simp: split_beta Let_def)
qed

definition api_prefix_ok :: "api_Prefix \<Rightarrow> bool" where
  "api_prefix_ok p \<longleftrightarrow>
     (\<exists>ip n. net_ParseCIDR (apx_IpPrefix p) = Some (ip, n) \<and>
        apx_MaskLengthMin p \<le> apx_MaskLengthMax p \<and> apx_MaskLengthMax p \<le> net_width n \<and> net_width n \<in> {32, 128})"

lemma prefix_list_Ok:
  "prefix_list ps = Ok aps \<Longrightarrow> list_all api_prefix_ok aps \<and> map apx_IpPrefix aps = map pf_IpPrefix ps"
proof (induction ps arbitrary: aps)
  case (Cons p ps)
  from Cons.prems show ?case
    by (auto simp: res_simps newAPIPrefixFromConfigStruct_def api_prefix_ok_def dest: Cons.IH dest!: parseMaskLength_bounds)
qed simp

lemma prefix_sets_Ok:
  "prefix_sets pss = Ok sets \<Longrightarrow>
     list_all (\<lambda>s. ads_DefinedType s = PREFIX \<and> list_all api_prefix_ok (ads_Prefixes s)) sets \<and>
     map (\<lambda>s. (ads_Name s, map apx_IpPrefix (ads_Prefixes s))) sets =
       map (\<lambda>s. (PrefixSetName s, map pf_IpPrefix (PrefixList s))) pss"
proof (induction pss arbitrary: sets)
  case (Cons ps pss)
  from Cons.prems show ?case by (auto simp: res_simps dest: Cons.IH prefix_list_Ok)
qed simp

lemma filter_list_sets:
  "t \<noteq> PREFIX \<Longrightarrow> filter (\<lambda>s. ads_DefinedType s = PREFIX) (map (\<lambda>x. list_set t (f x) (g x)) xs) = []"
  by (induction xs) (simp_all add: list_set_def)

lemma list_sets_prefixes: "list_all (\<lambda>s. list_all P (ads_Prefixes s)) (map (\<lambda>x. list_set t (f x) (g x)) xs)"
  by (simp add: list_all_iff list_set_def)

lemma NewAPIDefinedSets_Ok:
  assumes "NewAPIDefinedSetsFromConfigStruct t = Ok sets"
  shows "list_all (\<lambda>s. list_all api_prefix_ok (ads_Prefixes s)) sets"
    and "map (\<lambda>s. (ads_Name s, map apx_IpPrefix (ads_Prefixes s))) (filter (\<lambda>s. ads_DefinedType s = PREFIX) sets) =
      map (\<lambda>s. (PrefixSetName s, map pf_IpPrefix (PrefixList s))) (PrefixSets t)"
proof -
  obtain ps where p: "prefix_sets (PrefixSets t) = Ok ps"
    using assms by (auto simp: NewAPIDefinedSetsFromConfigStruct_def res_simps)
  note P = prefix_sets_Ok [OF p]
  then have "filter (\<lambda>s. ads_DefinedType s = PREFIX) ps = ps" by (auto simp: list_all_iff)
  with P assms p show "map (\<lambda>s. (ads_Name s, map apx_IpPrefix (ads_Prefixes s))) (filter (\<lambda>s. ads_DefinedType s = PREFIX) sets) =
      map (\<lambda>s. (PrefixSetName s, map pf_IpPrefix (PrefixList s))) (PrefixSets t)"
    by (auto simp: NewAPIDefinedSetsFromConfigStruct_def Let_def filter_list_sets)
  from P have "list_all (\<lambda>s. list_all api_prefix_ok (ads_Prefixes s)) ps" by (auto simp: list_all_iff)
  with assms p show "list_all (\<lambda>s. list_all api_prefix_ok (ads_Prefixes s)) sets"
    by (auto simp: NewAPIDefinedSetsFromConfigStruct_def Let_def list_sets_prefixes)
qed

section \<open>Properties\<close>

text \<open>
  (C36) A policy that is given to the server is well-formed: every prefix is a CIDR whose lengths
  are ordered and fit its family, the prefix sets keep their names and prefixes in order, and so
  do the policies with the names of their statements.
\<close>

theorem policy_conversion_wellformed:
  assumes "NewAPIRoutingPolicyFromConfigStruct fam c = Ok rp"
  shows "list_all (\<lambda>s. list_all api_prefix_ok (ads_Prefixes s)) (arp_DefinedSets rp) \<and>
    map (\<lambda>s. (ads_Name s, map apx_IpPrefix (ads_Prefixes s)))
        (filter (\<lambda>s. ads_DefinedType s = PREFIX) (arp_DefinedSets rp)) =
      map (\<lambda>s. (PrefixSetName s, map pf_IpPrefix (PrefixList s))) (PrefixSets (rp_DefinedSets c)) \<and>
    map (\<lambda>p. (apo_Name p, map ast_Name (apo_Statements p))) (arp_Policies rp) =
      map (\<lambda>p. (pd_Name p, map st_Name (pd_Statements p))) (rp_PolicyDefinitions c)"
proof -
  obtain sets where s: "NewAPIDefinedSetsFromConfigStruct (rp_DefinedSets c) = Ok sets"
    and rp: "rp = \<lparr>arp_DefinedSets = sets, arp_Policies = map (toPolicyApi fam) (rp_PolicyDefinitions c)\<rparr>"
    using assms by (auto simp: NewAPIRoutingPolicyFromConfigStruct_def res_simps)
  show ?thesis using NewAPIDefinedSets_Ok [OF s] unfolding rp
    by (simp add: toPolicyApi_def toStatementApi_def comp_def)
qed

definition ex_policy :: RoutingPolicy where
  "ex_policy =
     \<lparr>rp_DefinedSets = \<lparr>PrefixSets = [\<lparr>PrefixSetName = ''ps'', PrefixList =
          [\<lparr>pf_IpPrefix = ''10.0.0.0/8'', pf_MasklengthRange = ''16..24''\<rparr>,
           \<lparr>pf_IpPrefix = ''10.1.0.0/16'', pf_MasklengthRange = []\<rparr>]\<rparr>],
        NeighborSets = [\<lparr>NeighborSetName = ''ns'', NeighborInfoList = [''10.0.0.9'']\<rparr>], TagSets = [],
        ds_BgpDefinedSets = \<lparr>CommunitySets = [], ExtCommunitySets = [], AsPathSets = [], LargeCommunitySets = []\<rparr>\<rparr>,
      rp_PolicyDefinitions = []\<rparr>"

lemma ex_parse_range: "parseMaskLength ''10.0.0.0/8'' ''16..24'' = Ok (16, 24)"
  by code_simp

lemma ex_parse_plain: "parseMaskLength ''10.1.0.0/16'' [] = Ok (16, 16)"
  by code_simp

lemma ex_policy_converted:
  "NewAPIRoutingPolicyFromConfigStruct (\<lambda>_. None) ex_policy =
     Ok \<lparr>arp_DefinedSets = [
        \<lparr>ads_DefinedType = PREFIX, ads_Name = ''ps'', ads_List = [], ads_Prefixes =
          [\<lparr>apx_IpPrefix = ''10.0.0.0/8'', apx_MaskLengthMin = 16, apx_MaskLengthMax = 24\<rparr>,
           \<lparr>apx_IpPrefix = ''10.1.0.0/16'', apx_MaskLengthMin = 16, apx_MaskLengthMax = 16\<rparr>]\<rparr>,
        \<lparr>ads_DefinedType = NEIGHBOR, ads_Name = ''ns'', ads_List = [''10.0.0.9''], ads_Prefixes = []\<rparr>],
      arp_Policies = []\<rparr>"
  by (simp add: NewAPIRoutingPolicyFromConfigStruct_def NewAPIDefinedSetsFromConfigStruct_def ex_policy_def
      newAPIPrefixFromConfigStruct_def ex_parse_range ex_parse_plain list_set_def)

lemma policy_conversion_wellformed_witness:
  "api_prefix_ok \<lparr>apx_IpPrefix = ''10.0.0.0/8'', apx_MaskLengthMin = 16, apx_MaskLengthMax = 24\<rparr> \<and>
   api_prefix_ok \<lparr>apx_IpPrefix = ''10.1.0.0/16'', apx_MaskLengthMin = 16, apx_MaskLengthMax = 16\<rparr>"
  using policy_conversion_wellformed [OF ex_policy_converted] by simp

text \<open>
  The fields of a statement that \<open>toStatementApi\<close> does not look at: the called policy, the tag set, the
  protocol, the comparisons with MED, origin, local preference and number of communities, and the
  actions that set the origin and the tag.
\<close>

definition set_unread :: "string \<Rightarrow> MatchTagSet \<Rightarrow> string \<Rightarrow> 32 word \<Rightarrow> string \<Rightarrow> 32 word \<Rightarrow> CommunityCount \<Rightarrow>
    string \<Rightarrow> IgpActions \<Rightarrow> Statement \<Rightarrow> Statement" where
  "set_unread call tags proto med origin pref ccount setOrigin igp s =
     s\<lparr>st_Conditions := (st_Conditions s)
         \<lparr>cd_CallPolicy := call, cd_MatchTagSet := tags, cd_InstallProtocolEq := proto,
          cd_BgpConditions := (cd_BgpConditions (st_Conditions s))
            \<lparr>bcd_MedEq := med, bcd_OriginEq := origin, bcd_LocalPrefEq := pref, bcd_CommunityCount := ccount\<rparr>\<rparr>,
       st_Actions := (st_Actions s)
         \<lparr>a_IgpActions := igp, a_BgpActions := (a_BgpActions (st_Actions s))\<lparr>ba_SetRouteOrigin := setOrigin\<rparr>\<rparr>\<rparr>"

text \<open>
  These fields never reach the server: whatever they hold, the statement is converted to the
  same message. A statement that is meant to apply to some routes only, say those of one
  origin, is applied to all routes that pass the other conditions.
\<close>

lemma toStatementApi_drops_conditions:
  "toStatementApi fam (set_unread call tags proto med origin pref ccount setOrigin igp s) = toStatementApi fam s"
  by (simp add: toStatementApi_def set_unread_def toConditionsApi_def toActionsApi_def Let_def)

end
