(* ===== verification/BgpPeers.thy ===== *)
theory BgpPeers
  imports BgpPolicy
begin

text \<open>
  The peers of the BGP speaker, \<open>pkg/speaker/bgp/bgp/peers.go\<close>: the defaults of a neighbor and its
  configuration in the GoBGP server, the status of the sessions and their metrics. A peer without
  \<open>Conf\<close> makes most of these functions dereference nil, which is the outcome \<open>Panic\<close>.

  \<open>gobgp_peers\<close> states what is relied on of the server, where \<open>nb\<close> reads its neighbors from the world.
\<close>

definition nlist :: "'a list option \<Rightarrow> 'a list" where
  "nlist xs = (case xs of None \<Rightarrow> [] | Some xs \<Rightarrow> xs)"

section \<open>Neighbors\<close>

definition defaultFamily :: "IP \<Rightarrow> bgp_Family" where
  "defaultFamily ip =
     (if To4 ip = [] then \<lparr>f_Afi = ''AFI_IP6'', f_Safi = ''SAFI_UNICAST''\<rparr>
      else \<lparr>f_Afi = ''AFI_IP'', f_Safi = ''SAFI_UNICAST''\<rparr>)"

definition default_config :: "IP \<Rightarrow> AfiSafiConfig" where
  "default_config ip = \<lparr>asc_Family = Some (defaultFamily ip), asc_Enabled = True\<rparr>"

definition neighbor_ip :: "BgpPeerSpec \<Rightarrow> IP res" where
  "neighbor_ip spec =
     (case ps_Conf spec of
        None \<Rightarrow> Panic nil_deref
      | Some conf \<Rightarrow>
          (let ip = net_ParseIP (pc_NeighborAddress conf) in
           if ip = [] then Err (Errorf ''field Spec.Conf.NeighborAddress invalid'') else Ok ip))"

text \<open>The loop over the address families; it changes the list in place up to the point where it fails.\<close>

fun fill_afiSafis :: "BgpPeerSpec \<Rightarrow> AfiSafi option list \<Rightarrow> AfiSafi option list \<times> unit res" where
  "fill_afiSafis spec [] = ([], Ok ())"
| "fill_afiSafis spec (None # as) = (None # as, Panic nil_deref)"
| "fill_afiSafis spec (Some a # as) =
     (case as_Config a of
        Some _ \<Rightarrow> (let (as', r) = fill_afiSafis spec as in (Some a # as', r))
      | None \<Rightarrow>
          (case neighbor_ip spec of
             Ok ip \<Rightarrow>
               (let (as', r) = fill_afiSafis spec as in (Some (a\<lparr>as_Config := Some (default_config ip)\<rparr>) # as', r))
           | Err e \<Rightarrow> (Some a # as, Err e)
           | Panic s \<Rightarrow> (Some a # as, Panic s)))"

definition default_afiSafis :: "BgpPeerSpec \<Rightarrow> BgpPeerSpec \<times> unit res" where
  "default_afiSafis spec =
     (if nlist (ps_AfiSafis spec) = [] then
        (case neighbor_ip spec of
           Ok ip \<Rightarrow>
             (spec\<lparr>ps_AfiSafis := Some [Some \<lparr>as_MpGracefulRestart = None, as_Config = Some (default_config ip),
                as_AddPaths = Some \<lparr>ap_Config = Some \<lparr>apc_Receive = False, apc_SendMax = 10\<rparr>\<rparr>\<rparr>]\<rparr>, Ok ())
         | Err e \<Rightarrow> (spec, Err e)
         | Panic s \<Rightarrow> (spec, Panic s))
      else
        (let (as, r) = fill_afiSafis spec (nlist (ps_AfiSafis spec)) in (spec\<lparr>ps_AfiSafis := Some as\<rparr>, r)))"

section \<open>Metrics\<close>

definition session_state :: "string \<Rightarrow> nat" where
  "session_state s =
     (if s = ''IDLE'' then 0 else if s = ''CONNECT'' then 1 else if s = ''ACTIVE'' then 2
      else if s = ''OPENSENT'' then 3 else if s = ''OPENCONFIRM'' then 4
      else if s = ''ESTABLISHED'' then 5 else 0)"

text \<open>\<open>F\<close> is the number \<open>strconv.ParseFloat\<close> reads from a counter, 0 when it fails.\<close>

fun peer_metrics_loop ::
    "'w prometheus \<Rightarrow> 'v client \<Rightarrow> (string \<Rightarrow> nat) \<Rightarrow> PeerConf option \<Rightarrow> bool \<Rightarrow>
      (string, NodePeerStatus) gomap \<Rightarrow> 'w \<Rightarrow> unit res \<times> 'w" where
  "peer_metrics_loop P C F conf delete [] w = (Ok (), w)"
| "peer_metrics_loop P C F conf delete ((node, peerStatus) # rest) w =
     (case conf of
        None \<Rightarrow> (Panic nil_deref, w)
      | Some c \<Rightarrow>
          (let peerIP = pc_NeighborAddress c in
           if node \<noteq> GetNodeName C then peer_metrics_loop P C F conf delete rest w
           else if delete then peer_metrics_loop P C F conf delete rest (DeleteBGPPeerMetrics P peerIP node w)
           else
             (case pst_Messages (nps_PeerState peerStatus) of
                None \<Rightarrow> (Panic nil_deref, w)
              | Some m \<Rightarrow>
                  (case Received m of
                     None \<Rightarrow> (Panic nil_deref, w)
                   | Some received \<Rightarrow>
                       peer_metrics_loop P C F conf delete rest
                         (UpdateBGPSessionMetrics P peerIP node
                           (session_state (pst_SessionState (nps_PeerState peerStatus)))
                           (F (msg_Update received)) w)))))"

definition UpdatePeerMetrics ::
    "'w prometheus \<Rightarrow> 'v client \<Rightarrow> (string \<Rightarrow> nat) \<Rightarrow> BgpPeer \<Rightarrow> bool \<Rightarrow> 'w \<Rightarrow> unit res \<times> 'w" where
  "UpdatePeerMetrics P C F peer delete w =
     peer_metrics_loop P C F (ps_Conf (bp_spec peer)) delete (nmap (NodesPeerStatus (bp_status peer))) w"

section \<open>Handlers\<close>

text \<open>The neighbor is changed in place, so it is part of the result.\<close>

definition HandleBgpPeer ::
    "('x, 'w) gobgp \<Rightarrow> 'w prometheus \<Rightarrow> 'v client \<Rightarrow> (string \<Rightarrow> nat) \<Rightarrow> BgpPeer \<Rightarrow> bool \<Rightarrow> 'w \<Rightarrow>
      BgpPeer \<times> unit res \<times> 'w" where
  "HandleBgpPeer G P C F neighbor delete w =
     (let (spec, r) = default_afiSafis (bp_spec neighbor); neighbor = neighbor\<lparr>bp_spec := spec\<rparr> in
      (neighbor,
       andThen (r, w) (\<lambda>_ w.
       andThen (ToGoBgpPeer G spec, w) (\<lambda>request w.
       andThen (UpdatePeerMetrics P C F neighbor delete w) (\<lambda>_ w.
         if delete then
           (case gPeerConf G request of
              None \<Rightarrow> (Panic nil_deref, w)
            | Some (address, interface) \<Rightarrow> ignoring (gDeletePeer G address interface w) (\<lambda>w. (Ok (), w)))
         else
           (case gUpdatePeer G request w of
              (Err e, w) \<Rightarrow> gAddPeer G request w
            | r \<Rightarrow> r))))))"

text \<open>The search for the resource of a session, and the function passed to the listing.\<close>

fun find_peer :: "string \<Rightarrow> BgpPeer list \<Rightarrow> BgpPeer option res" where
  "find_peer address [] = Ok None"
| "find_peer address (bgpPeer # bgpPeers) =
     (case ps_Conf (bp_spec bgpPeer) of
        None \<Rightarrow> Panic nil_deref
      | Some conf \<Rightarrow> if pc_NeighborAddress conf = address then Ok (Some bgpPeer) else find_peer address bgpPeers)"

fun visit_peers ::
    "('x, 'w) gobgp \<Rightarrow> 'v client \<Rightarrow> BgpPeer list \<Rightarrow> 'x list \<Rightarrow> (BgpPeer list \<times> 'x list) res" where
  "visit_peers G C bgpPeers [] = Ok ([], [])"
| "visit_peers G C bgpPeers (peer # peers) =
     (case GetStatusFromGoBgpPeer G peer of
        Panic s \<Rightarrow> Panic s
      | Err e \<Rightarrow> visit_peers G C bgpPeers peers
      | Ok tmp \<Rightarrow>
          bind_res (find_peer (pst_NeighborAddress (nps_PeerState tmp)) bgpPeers) (\<lambda>found.
          bind_res (visit_peers G C bgpPeers peers) (\<lambda>(result, dels).
            case found of
              None \<Rightarrow> Ok (result, peer # dels)
            | Some p \<Rightarrow>
                Ok (p\<lparr>bp_status := \<lparr>NodesPeerStatus =
                    Some (mset_at (GetNodeName C) tmp (nmap (NodesPeerStatus (bp_status p))))\<rparr>\<rparr> # result, dels))))"

fun delete_peers :: "('x, 'w) gobgp \<Rightarrow> 'x list \<Rightarrow> 'w \<Rightarrow> unit res \<times> 'w" where
  "delete_peers G [] w = (Ok (), w)"
| "delete_peers G (del # dels) w =
     (case gPeerConf G del of
        None \<Rightarrow> (Panic nil_deref, w)
      | Some (address, interface) \<Rightarrow> ignoring (gDeletePeer G address interface w) (delete_peers G dels))"

definition HandleBgpPeerStatus ::
    "('x, 'w) gobgp \<Rightarrow> 'v client \<Rightarrow> BgpPeer list \<Rightarrow> 'w \<Rightarrow> BgpPeer list res \<times> 'w" where
  "HandleBgpPeerStatus G C bgpPeers w =
     (let ((peers, err), w) = gListPeer G w in
      andThen (visit_peers G C bgpPeers peers, w) (\<lambda>(result, dels) w.
      ignoring (err, w) (\<lambda>w.
      andThen (delete_peers G dels w) (\<lambda>_ w. (Ok result, w)))))"

definition zero_BgpConf :: BgpConf where
  "zero_BgpConf =
     \<lparr>bc_meta = zero_meta,
      bc_spec = \<lparr>bcs_As = 0, AsPerRack = None, bcs_RouterId = [], ListenPort = 0, ListenAddresses = None,
        Families = None, UseMultiplePaths = False, bcs_GracefulRestart = None, bcs_Policy = []\<rparr>,
      bc_status = \<lparr>NodesConfStatus = None\<rparr>\<rparr>"

definition GetBgpConfStatus :: "('x, 'w) gobgp \<Rightarrow> 'v client \<Rightarrow> 'w \<Rightarrow> BgpConf res \<times> 'w" where
  "GetBgpConfStatus G C w =
     (let conf = (\<lambda>s. zero_BgpConf\<lparr>bc_status := \<lparr>NodesConfStatus = Some [(GetNodeName C, s)]\<rparr>\<rparr>) in
      case gGetBgp G w of
        (Ok (as, routerId), w) \<Rightarrow> (Ok (conf \<lparr>ncs_RouterId = routerId, ncs_As = as\<rparr>), w)
      | (Err e, w) \<Rightarrow> (Ok (conf \<lparr>ncs_RouterId = [], ncs_As = 0\<rparr>), w)
      | (Panic s, w) \<Rightarrow> (Panic s, w))"

section \<open>What is relied on of the server\<close>

text \<open>
  \<open>nb\<close> reads the neighbors of the server from the world, by address. The codec keeps the address and
  the interface of a neighbor. Adding and updating set a neighbor; an update fails for a
  neighbor that is not there and changes nothing; deleting removes it, or fails and changes nothing.
\<close>

definition gobgp_peers :: "('x, 'w) gobgp \<Rightarrow> ('w \<Rightarrow> string \<Rightarrow> 'x option) \<Rightarrow> bool" where
  "gobgp_peers G nb \<longleftrightarrow>
     (\<forall>spec x. gPeerOfSpec G spec = Ok x \<longrightarrow>
        gPeerConf G x = map_option (\<lambda>c. (pc_NeighborAddress c, pc_NeighborInterface c)) (ps_Conf spec)) \<and>
     (\<forall>x a i w w'. gPeerConf G x = Some (a, i) \<longrightarrow> gAddPeer G x w = (Ok (), w') \<longrightarrow> nb w' = (nb w)(a \<mapsto> x)) \<and>
     (\<forall>x a i w w'. gPeerConf G x = Some (a, i) \<longrightarrow> gUpdatePeer G x w = (Ok (), w') \<longrightarrow> nb w' = (nb w)(a \<mapsto> x)) \<and>
     (\<forall>x w e w'. gUpdatePeer G x w = (Err e, w') \<longrightarrow> nb w' = nb w) \<and>
     (\<forall>a i w w'. gDeletePeer G a i w = (Ok (), w') \<longrightarrow> nb w' = (nb w)(a := None)) \<and>
     (\<forall>a i w e w'. gDeletePeer G a i w = (Err e, w') \<longrightarrow> nb w' = nb w)"

definition metrics_frame :: "'w prometheus \<Rightarrow> ('w \<Rightarrow> 'b) \<Rightarrow> bool" where
  "metrics_frame P f \<longleftrightarrow>
     (\<forall>v ls n w. f (pSet P v ls n w) = f w) \<and> (\<forall>v ls n w. f (pAdd P v ls n w) = f w) \<and>
     (\<forall>v ls w. f (pDelete P v ls w) = f w)"

lemma gobgp_peersD:
  assumes "gobgp_peers G nb"
  shows peers_codec: "gPeerOfSpec G spec = Ok x \<Longrightarrow>
      gPeerConf G x = map_option (\<lambda>c. (pc_NeighborAddress c, pc_NeighborInterface c)) (ps_Conf spec)"
    and peers_add: "gPeerConf G x = Some (a, i) \<Longrightarrow> gAddPeer G x w = (Ok (), w') \<Longrightarrow> nb w' = (nb w)(a \<mapsto> x)"
    and peers_update: "gPeerConf G x = Some (a, i) \<Longrightarrow> gUpdatePeer G x w = (Ok (), w') \<Longrightarrow> nb w' = (nb w)(a \<mapsto> x)"
    and peers_no_update: "gUpdatePeer G x w = (Err e, w') \<Longrightarrow> nb w' = nb w"
    and peers_delete: "gDeletePeer G a i w = (Ok (), w') \<Longrightarrow> nb w' = (nb w)(a := None)"
    and peers_no_delete: "gDeletePeer G a i w = (Err e, w') \<Longrightarrow> nb w' = nb w"
  using assms by (auto simp: gobgp_peers_def)

lemma default_afiSafis_Conf: "ps_Conf (fst (default_afiSafis spec)) = ps_Conf spec"
  by (simp add: default_afiSafis_def split: res.splits prod.splits)

lemma peer_metrics_frame:
  assumes "metrics_frame P f"
  shows "peer_metrics_loop P C F conf delete ns w = (r, w') \<Longrightarrow> f w' = f w"
proof (induction ns arbitrary: conf delete w)
  case (Cons e ns)
  obtain node st where e: "e = (node, st)" by force
  from Cons.prems show ?case using assms unfolding e
    by (auto simp: Let_def DeleteBGPPeerMetrics_def UpdateBGPSessionMetrics_def metrics_frame_def
        split: option.splits if_splits dest!: Cons.IH)
qed simp

lemma ignoring_Ok_iff [res_simps]:
  "ignoring r k = (Ok b, w') \<longleftrightarrow> (\<exists>x w. r = (x, w) \<and> (\<forall>s. x \<noteq> Panic s) \<and> k w = (Ok b, w'))"
  by (auto simp: ignoring_def split: prod.splits res.splits)

text \<open>
  What a successful \<open>HandleBgpPeer\<close> does to the neighbors of the server. It drops the error of \<open>DeletePeer\<close>, so it
  succeeds too when the neighbor could not be deleted.
\<close>

definition delete_failed :: "('x, 'w) gobgp \<Rightarrow> string \<Rightarrow> 'w \<Rightarrow> bool" where
  "delete_failed G a w' \<longleftrightarrow> (\<exists>i w e. gDeletePeer G a i w = (Err e, w'))"

lemma HandleBgpPeer_Ok:
  assumes L: "gobgp_peers G nb" and M: "metrics_frame P nb" and c: "ps_Conf (bp_spec p) = Some c"
    and run: "snd (HandleBgpPeer G P C F p delete w) = (Ok (), w')"
  shows "if delete then nb w' = (nb w)(pc_NeighborAddress c := None) \<or> delete_failed G (pc_NeighborAddress c) w' \<and> nb w' = nb w
    else \<exists>x. ToGoBgpPeer G (fst (default_afiSafis (bp_spec p))) = Ok x \<and> nb w' = (nb w)(pc_NeighborAddress c \<mapsto> x)"
proof -
  obtain spec r where d: "default_afiSafis (bp_spec p) = (spec, r)" by force
  have sc: "ps_Conf spec = Some c" using default_afiSafis_Conf [of "bp_spec p"] c d by simp
  from run obtain x w1 where x: "ToGoBgpPeer G spec = Ok x"
    and u: "UpdatePeerMetrics P C F (p\<lparr>bp_spec := spec\<rparr>) delete w = (Ok (), w1)"
    and k: "(if delete then (case gPeerConf G x of None \<Rightarrow> (Panic nil_deref, w1)
          | Some (address, interface) \<Rightarrow> ignoring (gDeletePeer G address interface w1) (\<lambda>w. (Ok (), w)))
        else (case gUpdatePeer G x w1 of (Err e, w) \<Rightarrow> gAddPeer G x w | r \<Rightarrow> r)) = (Ok (), w')"
    by (auto simp: HandleBgpPeer_def d Let_def res_simps)
  have m: "nb w1 = nb w" using u unfolding UpdatePeerMetrics_def by (rule peer_metrics_frame [OF M])
  have pc: "gPeerConf G x = Some (pc_NeighborAddress c, pc_NeighborInterface c)"
    using peers_codec [OF L, of "spec\<lparr>ps_NodeSelector := None\<rparr>" x] x sc by (simp add: ToGoBgpPeer_def)
  show ?thesis
  proof (cases delete)
    case True
    with k pc obtain v where v: "gDeletePeer G (pc_NeighborAddress c) (pc_NeighborInterface c) w1 = (v, w')" "\<forall>s. v \<noteq> Panic s"
      by (auto simp: res_simps)
    show ?thesis
    proof (cases v)
      case (Ok u)
      with v True show ?thesis using peers_delete [OF L] by (simp add: m)
    next
      case (Err e)
      with v True show ?thesis using peers_no_delete [OF L] by (auto simp: m delete_failed_def)
    qed (use v in simp)
  next
    case False
    have "nb w' = (nb w)(pc_NeighborAddress c \<mapsto> x)"
    proof (cases "fst (gUpdatePeer G x w1)")
      case (Ok v)
      then show ?thesis using k False peers_update [OF L pc] m by (auto split: prod.splits)
    next
      case (Err e)
      then obtain w2 where u2: "gUpdatePeer G x w1 = (Err e, w2)" by (metis prod.collapse)
      with k False have "gAddPeer G x w2 = (Ok (), w')" by simp
      from peers_add [OF L pc this] peers_no_update [OF L u2] m show ?thesis by simp
    next
      case (Panic s)
      then show ?thesis using k False by (auto split: prod.splits)
    qed
    with x False d show ?thesis by simp
  qed
qed

end
