(* ===== verification/BgpControllers.thy ===== *)
theory BgpControllers
  imports BgpPeers
begin

text \<open>
  The reconcilers of the BGP speaker, \<open>pkg/speaker/bgp\<close>: \<open>bgpconf_controller.go\<close>,
  \<open>bgppeer_controller.go\<close> and \<open>eventhandler.go\<close>. The API server is the record \<open>bgp_api\<close>, the server of the
  speaker the parameters of the previous theories. A request to reconcile is the name of its
  object; a ticker loop runs on the list of its events.
\<close>

section \<open>The API server\<close>

text \<open>
  \<open>bSelectorMatches\<close> is \<open>metav1.LabelSelectorAsSelector\<close> and \<open>Matches\<close>. An update returns the object
  as it was stored.
\<close>

record 'w bgp_api =
  bGetConf :: "string \<Rightarrow> 'w \<Rightarrow> BgpConf res \<times> 'w"
  bListConfs :: "string \<Rightarrow> 'w \<Rightarrow> BgpConf list res \<times> 'w"
  bUpdateConf :: "BgpConf \<Rightarrow> 'w \<Rightarrow> BgpConf res \<times> 'w"
  bUpdateConfStatus :: "BgpConf \<Rightarrow> 'w \<Rightarrow> unit res \<times> 'w"
  bGetPeer :: "string \<Rightarrow> 'w \<Rightarrow> BgpPeer res \<times> 'w"
  bListPeers :: "'w \<Rightarrow> BgpPeer list res \<times> 'w"
  bUpdatePeer :: "BgpPeer \<Rightarrow> 'w \<Rightarrow> BgpPeer res \<times> 'w"
  bUpdatePeerStatus :: "BgpPeer \<Rightarrow> 'w \<Rightarrow> unit res \<times> 'w"
  bGetNode :: "string \<Rightarrow> 'w \<Rightarrow> Node res \<times> 'w"
  bGetConfigMap :: "string \<Rightarrow> string \<Rightarrow> 'w \<Rightarrow> ConfigMap res \<times> 'w"
  bNow :: "'w \<Rightarrow> string \<times> 'w"
  bSelectorMatches :: "LabelSelector \<Rightarrow> (string, string) gomap \<Rightarrow> bool res"

section \<open>Peers\<close>

definition peerMatchNode :: "'w bgp_api \<Rightarrow> BgpPeer \<Rightarrow> Node \<Rightarrow> bool res" where
  "peerMatchNode A peer node =
     (case ps_NodeSelector (bp_spec peer) of
        None \<Rightarrow> Ok True
      | Some sel \<Rightarrow>
          (case bSelectorMatches A sel (nmap (m_labels (n_meta node))) of
             Err e \<Rightarrow> Err (Errorf (''BgpPeer '' @ m_name (bp_meta peer) @ '' spec.NodeSelector invalid, err='' @ error_text e))
           | r \<Rightarrow> r))"

text \<open>Whether the peer is for this node; without a selector the node is not read.\<close>

definition match_node :: "'w bgp_api \<Rightarrow> 'v client \<Rightarrow> BgpPeer \<Rightarrow> 'w \<Rightarrow> bool res \<times> 'w" where
  "match_node A C bgpPeer w =
     (if ps_NodeSelector (bp_spec bgpPeer) = None then (Ok True, w)
      else andThen (bGetNode A (GetNodeName C) w) (\<lambda>node w. (peerMatchNode A bgpPeer node, w)))"

definition peer_finalizer ::
    "'w bgp_api \<Rightarrow> 'w prometheus \<Rightarrow> 'v client \<Rightarrow> BgpPeer \<Rightarrow> 'w \<Rightarrow> BgpPeer res \<times> 'w" where
  "peer_finalizer A P C clone w =
     (if NeedToAddFinalizer (bp_meta clone) FinalizerName then
        (case ps_Conf (bp_spec clone) of
           None \<Rightarrow> (Panic nil_deref, w)
         | Some conf \<Rightarrow>
             bUpdatePeer A (clone\<lparr>bp_meta := AddFinalizer FinalizerName (bp_meta clone)\<rparr>)
               (InitBGPPeerMetrics P (pc_NeighborAddress conf) (GetNodeName C) w))
      else (Ok clone, w))"

definition peer_Reconcile ::
    "'w bgp_api \<Rightarrow> ('x, 'w) gobgp \<Rightarrow> 'w prometheus \<Rightarrow> 'v client \<Rightarrow> (string \<Rightarrow> nat) \<Rightarrow> string \<Rightarrow> 'w \<Rightarrow> unit res \<times> 'w" where
  "peer_Reconcile A G P C F name w =
     (case bGetPeer A name w of
        (Err e, w) \<Rightarrow> if IsNotFound e then (Ok (), w) else (Err e, w)
      | (Panic s, w) \<Rightarrow> (Panic s, w)
      | (Ok bgpPeer, w) \<Rightarrow>
          andThen (match_node A C bgpPeer w) (\<lambda>matchNode w.
            if IsDeletionCandidate (bp_meta bgpPeer) FinalizerName then
              (let (clone, r) = HandleBgpPeer G P C F bgpPeer True w in
               ignoring r (\<lambda>w.
                 andThen (bUpdatePeer A (clone\<lparr>bp_meta := RemoveFinalizer FinalizerName (bp_meta clone)\<rparr>) w)
                   (\<lambda>_ w. (Ok (), w))))
            else
              andThen (peer_finalizer A P C bgpPeer w) (\<lambda>clone w.
                snd (HandleBgpPeer G P C F clone (\<not> matchNode) w))))"

text \<open>The search of \<open>updatePeerStatus\<close> in the result of the speaker.\<close>

fun status_of :: "PeerConf option \<Rightarrow> BgpPeer list \<Rightarrow> BgpPeer option res" where
  "status_of conf [] = Ok None"
| "status_of conf (tmp # tmps) =
     (case (conf, ps_Conf (bp_spec tmp)) of
        (Some c, Some t) \<Rightarrow>
          if pc_NeighborAddress c = pc_NeighborAddress t then Ok (Some tmp) else status_of conf tmps
      | _ \<Rightarrow> Panic nil_deref)"

fun peers_status_loop ::
    "'w bgp_api \<Rightarrow> 'w prometheus \<Rightarrow> 'v client \<Rightarrow> (string \<Rightarrow> nat) \<Rightarrow> BgpPeer list \<Rightarrow> BgpPeer list \<Rightarrow> 'w \<Rightarrow> unit res \<times> 'w" where
  "peers_status_loop A P C F status [] w = (Ok (), w)"
| "peers_status_loop A P C F status (peer # peers) w =
     andThen (status_of (ps_Conf (bp_spec peer)) status, w) (\<lambda>found w.
       let clone =
         (case found of
            Some tmp \<Rightarrow> peer\<lparr>bp_status := bp_status tmp\<rparr>
          | None \<Rightarrow> peer\<lparr>bp_status := \<lparr>NodesPeerStatus = mdel_opt (GetNodeName C) (NodesPeerStatus (bp_status peer))\<rparr>\<rparr>) in
       ignoring (if DeepEqualMap (NodesPeerStatus (bp_status clone)) (NodesPeerStatus (bp_status peer))
                 then (Ok (), w) else bUpdatePeerStatus A clone w) (\<lambda>w.
       andThen (UpdatePeerMetrics P C F peer (found = None) w) (\<lambda>_ w.
         peers_status_loop A P C F status peers w)))"

definition updatePeerStatus ::
    "'w bgp_api \<Rightarrow> ('x, 'w) gobgp \<Rightarrow> 'w prometheus \<Rightarrow> 'v client \<Rightarrow> (string \<Rightarrow> nat) \<Rightarrow> 'w \<Rightarrow> unit res \<times> 'w" where
  "updatePeerStatus A G P C F w =
     (case bListPeers A w of
        (Err e, w) \<Rightarrow> (Ok (), w)
      | (Panic s, w) \<Rightarrow> (Panic s, w)
      | (Ok peers, w) \<Rightarrow>
          andThen (HandleBgpPeerStatus G C peers w) (\<lambda>status w. peers_status_loop A P C F status peers w))"

datatype ticker_event = Tick | Done

fun peer_run ::
    "'w bgp_api \<Rightarrow> ('x, 'w) gobgp \<Rightarrow> 'w prometheus \<Rightarrow> 'v client \<Rightarrow> (string \<Rightarrow> nat) \<Rightarrow> ticker_event list \<Rightarrow> 'w \<Rightarrow> unit res \<times> 'w" where
  "peer_run A G P C F [] w = (Ok (), w)"
| "peer_run A G P C F (Tick # es) w = andThen (updatePeerStatus A G P C F w) (\<lambda>_ w. peer_run A G P C F es w)"
| "peer_run A G P C F (Done # es) w = (Ok (), w)"

text \<open>The update is given the peer as it was read, not the copy with the empty status.\<close>

fun clean_peers :: "'w bgp_api \<Rightarrow> BgpPeer list \<Rightarrow> 'w \<Rightarrow> unit res \<times> 'w" where
  "clean_peers A [] w = (Ok (), w)"
| "clean_peers A (peer # peers) w =
     (if DeepEqualMap None (NodesPeerStatus (bp_status peer)) then clean_peers A peers w
      else andThen (bUpdatePeerStatus A peer w) (\<lambda>_ w. clean_peers A peers w))"

definition CleanBgpPeerStatus :: "'w bgp_api \<Rightarrow> 'w \<Rightarrow> unit res \<times> 'w" where
  "CleanBgpPeerStatus A w =
     (case bListPeers A w of
        (Err e, w) \<Rightarrow> if IsNotFound e then (Ok (), w) else (Err e, w)
      | (Panic s, w) \<Rightarrow> (Panic s, w)
      | (Ok peers, w) \<Rightarrow> clean_peers A peers w)"

text \<open>\<open>Start\<close> with the events of the goroutine it starts.\<close>

definition peer_Start ::
    "'w bgp_api \<Rightarrow> ('x, 'w) gobgp \<Rightarrow> 'w prometheus \<Rightarrow> 'v client \<Rightarrow> (string \<Rightarrow> nat) \<Rightarrow> ticker_event list \<Rightarrow> 'w \<Rightarrow> unit res \<times> 'w" where
  "peer_Start A G P C F es w = andThen (CleanBgpPeerStatus A w) (\<lambda>_ w. peer_run A G P C F es w)"

definition peer_create_filter :: "BgpPeer \<Rightarrow> bool" where
  "peer_create_filter obj = (if DutyOfCNI None (bp_meta obj) then False else True)"

definition peer_update_filter :: "BgpPeer \<Rightarrow> BgpPeer \<Rightarrow> bool" where
  "peer_update_filter old new =
     (if \<not> DutyOfCNI (Some (bp_meta old)) (bp_meta new) then
        (if m_deletionTimestamp (bp_meta old) \<noteq> m_deletionTimestamp (bp_meta new) then True
         else if \<not> DeepEqual_peerSpec (bp_spec old) (bp_spec new) then True else False)
      else False)"

section \<open>The global configuration\<close>


definition conf_Map :: "'w bgp_api \<Rightarrow> string \<Rightarrow> 'w \<Rightarrow> string list res \<times> 'w" where
  "conf_Map A configMap w =
     (case bListConfs A configMap w of
        (Ok items, w) \<Rightarrow> (Ok (map (\<lambda>item. m_name (bc_meta item)) items), w)
      | (Err e, w) \<Rightarrow> (Ok [], w)
      | (Panic s, w) \<Rightarrow> (Panic s, w))"








text \<open>The filters of the watches.\<close>

definition conf_shouldReconcile :: "BgpConf \<Rightarrow> bool" where
  "conf_shouldReconcile conf = (if m_name (bc_meta conf) = ''default'' then True else False)"

definition conf_create_filter :: "BgpConf \<Rightarrow> bool" where
  "conf_create_filter obj = (if DutyOfCNI None (bc_meta obj) then False else conf_shouldReconcile obj)"

definition conf_update_filter :: "BgpConf \<Rightarrow> BgpConf \<Rightarrow> bool" where
  "conf_update_filter old new =
     (if conf_shouldReconcile new then
        (if \<not> DutyOfCNI (Some (bc_meta old)) (bc_meta new) then
           (if m_deletionTimestamp (bc_meta old) \<noteq> m_deletionTimestamp (bc_meta new) then True
            else if \<not> DeepEqual_confSpec (bc_spec old) (bc_spec new) then True else False)
         else False)
      else False)"

definition policy_index :: "BgpConf \<Rightarrow> string list" where
  "policy_index bgpConf = (if bcs_Policy (bc_spec bgpConf) = [] then [] else [bcs_Policy (bc_spec bgpConf)])"

text \<open>The second lookup reads the labels of the old node.\<close>

definition node_update_filter :: "Node \<Rightarrow> Node \<Rightarrow> bool" where
  "node_update_filter old new =
     (let labels = m_labels (n_meta old);
          oldHaveLabel = (if labels \<noteq> None then mget (nmap labels) OpenELBNodeRack \<noteq> None else False);
          newHaveLabel = (if m_labels (n_meta new) \<noteq> None then mget (nmap labels) OpenELBNodeRack \<noteq> None else False) in
      if oldHaveLabel \<noteq> newHaveLabel then True else False)"

section \<open>Status of the configuration\<close>

definition CleanBgpConfStatus :: "'w bgp_api \<Rightarrow> 'w \<Rightarrow> unit res \<times> 'w" where
  "CleanBgpConfStatus A w =
     (case bGetConf A ''default'' w of
        (Err e, w) \<Rightarrow> if IsNotFound e then (Ok (), w) else (Err e, w)
      | (Panic s, w) \<Rightarrow> (Panic s, w)
      | (Ok instance, w) \<Rightarrow>
          if DeepEqualMap None (NodesConfStatus (bc_status instance)) then (Ok (), w)
          else bUpdateConfStatus A (instance\<lparr>bc_status := \<lparr>NodesConfStatus = None\<rparr>\<rparr>) w)"

definition updateConfStatus :: "'w bgp_api \<Rightarrow> ('x, 'w) gobgp \<Rightarrow> 'v client \<Rightarrow> 'w \<Rightarrow> unit res \<times> 'w" where
  "updateConfStatus A G C w =
     (case bGetConf A ''default'' w of
        (Err e, w) \<Rightarrow> (Ok (), w)
      | (Panic s, w) \<Rightarrow> (Panic s, w)
      | (Ok instance, w) \<Rightarrow>
          andThen (GetBgpConfStatus G C w) (\<lambda>result w.
            let nodeName = GetNodeName C;
                st = (case mget (nmap (NodesConfStatus (bc_status result))) nodeName of
                        None \<Rightarrow> \<lparr>ncs_RouterId = [], ncs_As = 0\<rparr> | Some s \<Rightarrow> s);
                status = Some (mset_at nodeName st (nmap (NodesConfStatus (bc_status instance)))) in
            if DeepEqualMap status (NodesConfStatus (bc_status instance)) then (Ok (), w)
            else ignoring (bUpdateConfStatus A (instance\<lparr>bc_status := \<lparr>NodesConfStatus = status\<rparr>\<rparr>) w) (\<lambda>w. (Ok (), w))))"

fun conf_run :: "'w bgp_api \<Rightarrow> ('x, 'w) gobgp \<Rightarrow> 'v client \<Rightarrow> ticker_event list \<Rightarrow> 'w \<Rightarrow> unit res \<times> 'w" where
  "conf_run A G C [] w = (Ok (), w)"
| "conf_run A G C (Tick # es) w = andThen (updateConfStatus A G C w) (\<lambda>_ w. conf_run A G C es w)"
| "conf_run A G C (Done # es) w = (Ok (), w)"

definition conf_Start :: "'w bgp_api \<Rightarrow> ('x, 'w) gobgp \<Rightarrow> 'v client \<Rightarrow> ticker_event list \<Rightarrow> 'w \<Rightarrow> unit res \<times> 'w" where
  "conf_Start A G C es w = andThen (CleanBgpConfStatus A w) (\<lambda>_ w. conf_run A G C es w)"

section \<open>Node events\<close>

text \<open>The requests that are added to the queue, each a name and a namespace.\<close>

definition getDefaultBgpConf :: "'w bgp_api \<Rightarrow> 'w \<Rightarrow> BgpConf list res \<times> 'w" where
  "getDefaultBgpConf A w =
     (case bGetConf A ''default'' w of
        (Ok def, w) \<Rightarrow> (Ok [def], w)
      | (Err e, w) \<Rightarrow> (Ok [], w)
      | (Panic s, w) \<Rightarrow> (Panic s, w))"

definition getBgpPeers :: "'w bgp_api \<Rightarrow> 'w \<Rightarrow> BgpPeer list res \<times> 'w" where
  "getBgpPeers A w =
     (case bListPeers A w of
        (Ok peers, w) \<Rightarrow> (Ok peers, w)
      | (Err e, w) \<Rightarrow> (Ok [], w)
      | (Panic s, w) \<Rightarrow> (Panic s, w))"

definition node_Update :: "'w bgp_api \<Rightarrow> bool \<Rightarrow> 'w \<Rightarrow> (string \<times> string) list res \<times> 'w" where
  "node_Update A peer w =
     (let req = (\<lambda>m. (m_name m, m_namespace m)) in
      if \<not> peer then andThen (getDefaultBgpConf A w) (\<lambda>confs w. (Ok (map (\<lambda>c. req (bc_meta c)) confs), w))
      else andThen (getBgpPeers A w) (\<lambda>peers w. (Ok (map (\<lambda>p. req (bp_meta p)) peers), w)))"

text \<open>
  Since both lookups read the labels of the old node, a change of the rack label is seen only when the
  new node has no labels at all.
\<close>

lemma node_update_filter_iff:
  "node_update_filter old new \<longleftrightarrow>
     m_labels (n_meta new) = None \<and> mget (nmap (m_labels (n_meta old))) OpenELBNodeRack \<noteq> None"
  by (auto simp: node_update_filter_def Let_def nmap_def split: option.splits)

section \<open>Neighbors after a reconciliation\<close>

abbreviation peer_address :: "BgpPeer \<Rightarrow> string" where
  "peer_address p \<equiv> (case ps_Conf (bp_spec p) of None \<Rightarrow> [] | Some c \<Rightarrow> pc_NeighborAddress c)"

text \<open>The neighbor \<open>nb\<close> has for the peer is the one its specification stands for.\<close>

definition configured :: "('x, 'w) gobgp \<Rightarrow> (string \<Rightarrow> 'x option) \<Rightarrow> BgpPeer \<Rightarrow> bool" where
  "configured G nb p \<longleftrightarrow>
     (\<exists>x. ToGoBgpPeer G (fst (default_afiSafis (bp_spec p))) = Ok x \<and> nb (peer_address p) = Some x)"

text \<open>
  The calls on the API server leave the neighbors alone, an updated peer keeps its specification,
  and the peers and the node read are always the given ones.
\<close>

definition api_frame :: "'w bgp_api \<Rightarrow> ('w \<Rightarrow> 'b) \<Rightarrow> bool" where
  "api_frame A f \<longleftrightarrow>
     (\<forall>n w. f (snd (bGetPeer A n w)) = f w) \<and> (\<forall>n w. f (snd (bGetNode A n w)) = f w) \<and>
     (\<forall>w. f (snd (bListPeers A w)) = f w) \<and>
     (\<forall>p w r w'. bUpdatePeer A p w = (r, w') \<longrightarrow> f w' = f w \<and> (\<forall>p'. r = Ok p' \<longrightarrow> bp_spec p' = bp_spec p))"


lemma api_frameD:
  assumes "api_frame A f"
  shows frame_get: "bGetPeer A n w = (r1, w') \<Longrightarrow> f w' = f w"
    and frame_node: "bGetNode A n w = (r2, w') \<Longrightarrow> f w' = f w"
    and frame_list: "bListPeers A w = (r3, w') \<Longrightarrow> f w' = f w"
    and frame_update: "bUpdatePeer A p w = (r4, w') \<Longrightarrow> f w' = f w \<and> (\<forall>p'. r4 = Ok p' \<longrightarrow> bp_spec p' = bp_spec p)"
  using assms unfolding api_frame_def by (metis snd_conv)+



section \<open>Properties\<close>


text \<open>An example: the world is the table of neighbors, which a start of the server empties.\<close>

type_synonym ex_neighbors = "string \<Rightarrow> ex_msg option"

definition ex_peer_of :: "BgpPeerSpec \<Rightarrow> ex_msg" where
  "ex_peer_of s =
     (case ps_Conf s of None \<Rightarrow> XMsg (OtherMessage []) | Some c \<Rightarrow> XPeer (pc_NeighborAddress c) (pc_NeighborInterface c))"

abbreviation ex_peer_conf :: "ex_msg \<Rightarrow> (string \<times> string) option" where
  "ex_peer_conf x \<equiv> (case x of XPeer a i \<Rightarrow> Some (a, i) | _ \<Rightarrow> None)"

definition ex_put :: "ex_msg \<Rightarrow> ex_neighbors \<Rightarrow> unit res \<times> ex_neighbors" where
  "ex_put x w = (case ex_peer_conf x of None \<Rightarrow> (Err (Errorf ''peer''), w) | Some (a, i) \<Rightarrow> (Ok (), w(a \<mapsto> x)))"

definition ex_server :: "(ex_msg, ex_neighbors) gobgp" where
  "ex_server =
     \<lparr>gMarshalAny = XMsg, gUnmarshalAny = (\<lambda>x. ex_unmarshal x),
      gPeerOfSpec = (\<lambda>s. Ok (ex_peer_of s)), gGlobalOfSpec = (\<lambda>s. Ok (XMsg (OtherMessage []))),
      gPeerConf = (\<lambda>x. ex_peer_conf x),
      gPeerState = (\<lambda>x. Err (Errorf [])), gTimersState = (\<lambda>x. Err (Errorf [])),
      gGetBgp = (\<lambda>w. (Ok (65000, ''10.0.0.9''), w)),
      gStartBgp = (\<lambda>x w. (Ok (), \<lambda>_. None)), gStopBgp = (\<lambda>w. (Ok (), \<lambda>_. None)),
      gListPath = (\<lambda>f ip w. (([], Ok ()), w)),
      gAddPath = (\<lambda>p w. (Ok (), w)), gDeletePath = (\<lambda>p w. (Ok (), w)),
      gListPeer = (\<lambda>w. (([], Ok ()), w)),
      gUpdatePeer = (\<lambda>x w. (Err (Errorf ''no such peer''), w)), gAddPeer = ex_put,
      gDeletePeer = (\<lambda>a i w. (Ok (), w(a := None))),
      gMonitorPeer = (\<lambda>a w. w)\<rparr>"

definition ex_peer :: "LabelSelector option \<Rightarrow> BgpPeer" where
  "ex_peer sel =
     \<lparr>bp_meta = zero_meta\<lparr>m_name := ''peer'', m_finalizers := [FinalizerName]\<rparr>,
      bp_spec = \<lparr>ps_Conf = Some \<lparr>pc_AuthPassword = [], pc_Description = [], pc_LocalAs = 0,
          pc_NeighborAddress = ''10.0.0.254'', pc_PeerAs = 65001, pc_PeerGroup = [], pc_PeerType = 0,
          pc_RemovePrivateAs = [], pc_RouteFlapDamping = False, pc_SendCommunity = 0, pc_NeighborInterface = ''eth0'',
          pc_Vrf = [], pc_AllowOwnAs = 0, pc_ReplacePeerAs = False, pc_AdminDown = False\<rparr>,
        ps_EbgpMultihop = None, ps_Timers = None, ps_Transport = None, ps_GracefulRestart = None,
        ps_AfiSafis = Some [Some \<lparr>as_MpGracefulRestart = None,
          as_Config = Some \<lparr>asc_Family = None, asc_Enabled = True\<rparr>, as_AddPaths = None\<rparr>],
        ps_NodeSelector = sel\<rparr>,
      bp_status = \<lparr>NodesPeerStatus = None\<rparr>\<rparr>"

definition ex_conf :: BgpConf where
  "ex_conf = zero_BgpConf\<lparr>bc_meta := zero_meta\<lparr>m_name := ''default'', m_finalizers := [FinalizerName]\<rparr>\<rparr>"

definition ex_selector :: LabelSelector where
  "ex_selector = \<lparr>ls_matchLabels = Some [(''rack'', ''a'')], ls_matchExpressions = None\<rparr>"

definition ex_api :: "LabelSelector option \<Rightarrow> ex_neighbors bgp_api" where
  "ex_api sel =
     \<lparr>bGetConf = \<lambda>n w. (Ok ex_conf, w), bListConfs = \<lambda>p w. (Ok [ex_conf], w), bUpdateConf = \<lambda>c w. (Ok c, w),
      bUpdateConfStatus = \<lambda>c w. (Ok (), w), bGetPeer = \<lambda>n w. (Ok (ex_peer sel), w),
      bListPeers = \<lambda>w. (Ok [ex_peer sel], w), bUpdatePeer = \<lambda>p w. (Ok p, w), bUpdatePeerStatus = \<lambda>p w. (Ok (), w),
      bGetNode = \<lambda>n w. (Ok (ex_bgp_node ''10.0.0.1''), w), bGetConfigMap = \<lambda>ns n w. (Err (NotFound ''configmap''), w),
      bNow = \<lambda>w. (''now'', w), bSelectorMatches = \<lambda>s ls. Ok (nmap (ls_matchLabels s) = [])\<rparr>"


lemma ex_server_peers: "gobgp_peers ex_server (\<lambda>w. w)"
  by (auto simp: gobgp_peers_def ex_server_def ex_put_def ex_peer_of_def split: option.splits ex_msg.splits)

lemma ex_prometheus_frame: "metrics_frame ex_prometheus f"
  by (simp add: metrics_frame_def ex_prometheus_def)

lemma ex_api_frame: "api_frame (ex_api sel) f"
  by (simp add: api_frame_def ex_api_def)

lemma ex_live: "\<not> IsDeletionCandidate (zero_meta\<lparr>m_name := n, m_finalizers := fs\<rparr>) f"
  "\<not> NeedToAddFinalizer (zero_meta\<lparr>m_name := n, m_finalizers := [f]\<rparr>) f"
  by (simp_all add: IsDeletionCandidate_def NeedToAddFinalizer_def zero_meta_def IsZero_def)

lemma ex_default: "default_afiSafis (bp_spec (ex_peer sel)) = (bp_spec (ex_peer sel), Ok ())"
  by (simp add: default_afiSafis_def ex_peer_def nlist_def)

lemma ex_handle:
  "snd (HandleBgpPeer ex_server ex_prometheus mem_client F (ex_peer sel) delete w) =
     (Ok (), w(''10.0.0.254'' := if delete then None else Some (XPeer ''10.0.0.254'' ''eth0'')))"
  by (simp add: HandleBgpPeer_def ex_default ToGoBgpPeer_def UpdatePeerMetrics_def)
    (simp add: ex_server_def ex_peer_def ex_peer_of_def ex_put_def ignoring_def)



text \<open>
  (C37) After a successful reconciliation of a \<open>BgpPeer\<close> that is not being deleted the server has the
  neighbor of its specification if the peer is for this node, and no neighbor at its address
  otherwise, unless its last step was a \<open>DeletePeer\<close> of that address that failed, whose error is dropped: then the
  server keeps what it had there. No other neighbor changes.
\<close>

theorem peer_Reconcile_configures:
  assumes L: "gobgp_peers G nb" and M: "metrics_frame P nb" and A: "api_frame A nb"
    and get: "bGetPeer A name w = (Ok p, w1)" and live: "\<not> IsDeletionCandidate (bp_meta p) FinalizerName"
    and c: "ps_Conf (bp_spec p) \<noteq> None" and match: "match_node A C p w1 = (Ok m, w2)"
    and run: "peer_Reconcile A G P C F name w = (Ok (), w')"
  shows "(if m then configured G (nb w') p
      else nb w' (peer_address p) = None \<or> delete_failed G (peer_address p) w' \<and> nb w' (peer_address p) = nb w (peer_address p)) \<and>
    (\<forall>a. a \<noteq> peer_address p \<longrightarrow> nb w' a = nb w a)"
proof -
  from run get live match obtain p1 w3 where f: "peer_finalizer A P C p w2 = (Ok p1, w3)"
    and h: "snd (HandleBgpPeer G P C F p1 (\<not> m) w3) = (Ok (), w')"
    by (auto simp: peer_Reconcile_def res_simps)
  have "nb w2 = nb w"
    using match frame_get [OF A get] by (auto simp: match_node_def res_simps split: if_splits dest: frame_node [OF A])
  moreover have s: "bp_spec p1 = bp_spec p" and "nb w3 = nb w2"
    using f M by (auto simp: peer_finalizer_def InitBGPPeerMetrics_def metrics_frame_def split: if_splits option.splits
        dest!: frame_update [OF A])
  ultimately have n: "nb w3 = nb w" by simp
  obtain c where "ps_Conf (bp_spec p) = Some c" using c by blast
  with HandleBgpPeer_Ok [OF L M _ h, of c] show ?thesis unfolding s n configured_def by (auto split: if_splits)
qed

lemma ex_match: "match_node (ex_api sel) mem_client (ex_peer sel) w = (Ok (sel \<noteq> Some ex_selector \<and> (sel = None \<or> nmap (ls_matchLabels (the sel)) = [])), w)"
  by (cases sel) (auto simp: match_node_def peerMatchNode_def ex_api_def ex_peer_def ex_selector_def)

lemma ex_peer_run:
  "peer_Reconcile (ex_api (Some ex_selector)) ex_server ex_prometheus mem_client F ''peer'' w =
     (Ok (), w(''10.0.0.254'' := None))"
proof -
  have a: "bGetPeer (ex_api sel) = (\<lambda>n w. (Ok (ex_peer sel), w))" for sel by (simp add: ex_api_def)
  have l: "\<not> IsDeletionCandidate (bp_meta (ex_peer sel)) FinalizerName"
    "\<not> NeedToAddFinalizer (bp_meta (ex_peer sel)) FinalizerName" for sel by (simp_all add: ex_peer_def ex_live)
  show ?thesis by (simp add: peer_Reconcile_def a l ex_match peer_finalizer_def ex_handle)
qed

lemma peer_Reconcile_configures_witness:
  "\<exists>w'. peer_Reconcile (ex_api (Some ex_selector)) ex_server ex_prometheus mem_client (\<lambda>_. 0) ''peer''
      [''10.0.0.254'' \<mapsto> XPeer ''10.0.0.254'' ''eth0''] = (Ok (), w') \<and> w' ''10.0.0.254'' = None"
proof -
  let ?w = "[''10.0.0.254'' \<mapsto> XPeer ''10.0.0.254'' ''eth0''] :: ex_neighbors"
  have get: "bGetPeer (ex_api (Some ex_selector)) ''peer'' ?w = (Ok (ex_peer (Some ex_selector)), ?w)" by (simp add: ex_api_def)
  have live: "\<not> IsDeletionCandidate (bp_meta (ex_peer (Some ex_selector))) FinalizerName"
    and c: "ps_Conf (bp_spec (ex_peer (Some ex_selector))) \<noteq> None"
    and a: "peer_address (ex_peer (Some ex_selector)) = ''10.0.0.254''" by (simp_all add: ex_peer_def ex_live)
  have m: "match_node (ex_api (Some ex_selector)) mem_client (ex_peer (Some ex_selector)) ?w = (Ok False, ?w)"
    by (simp add: ex_match)
  note t = peer_Reconcile_configures [OF ex_server_peers ex_prometheus_frame ex_api_frame get live c m ex_peer_run]
  have "\<not> delete_failed ex_server a w'" for a w' by (simp add: delete_failed_def ex_server_def)
  with t have "(?w(''10.0.0.254'' := None)) ''10.0.0.254'' = None" unfolding a if_False by blast
  with ex_peer_run show ?thesis by blast
qed

end
