(* ===== verification/HttpServer.thy ===== *)
theory HttpServer
  imports BgpPeers
begin

text \<open>
  The REST server, \<open>pkg/server/internal\<close>: the handlers of the three resources (\<open>handler\<close>), the endpoints
  (\<open>router\<close>) and the serving of a request (\<open>lib/endpoints.go\<close>). The handlers of a resource have the
  same bodies up to its type; they are written once, for an arbitrary type of objects, and instantiated.
  The API server, the JSON codec and the classification of API errors are parameters. Of
  \<open>http.ResponseWriter\<close> the model keeps what decides the status: it is sent with the first byte of the
  body, and can be set only once.
\<close>

section \<open>Responses\<close>

record ResponseWriter =
  rw_status :: "nat option"
  rw_contentType :: string
  rw_body :: string

definition WriteHeader :: "nat \<Rightarrow> ResponseWriter \<Rightarrow> ResponseWriter" where
  "WriteHeader code w = (case rw_status w of None \<Rightarrow> w\<lparr>rw_status := Some code\<rparr> | Some _ \<Rightarrow> w)"

definition Write :: "string \<Rightarrow> ResponseWriter \<Rightarrow> ResponseWriter" where
  "Write s w = (let w = WriteHeader 200 w in w\<lparr>rw_body := rw_body w @ s\<rparr>)"

definition new_response :: ResponseWriter where
  "new_response = \<lparr>rw_status = None, rw_contentType = [], rw_body = []\<rparr>"

datatype 'o payload = PObject 'o | PList "'o list" | Create bool | Update bool | Delete bool | PError error

text \<open>
  \<open>encode\<close> is the JSON encoder, the others are the predicates and the constructor of
  \<open>k8s.io/apimachinery/pkg/api/errors\<close>.
\<close>

record 'o rest_env =
  encode :: "'o payload \<Rightarrow> string res"
  decode :: "string \<Rightarrow> 'o res"
  IsTimeout :: "error \<Rightarrow> bool"
  IsServerTimeout :: "error \<Rightarrow> bool"
  IsAlreadyExists :: "error \<Rightarrow> bool"
  IsConflict :: "error \<Rightarrow> bool"
  IsBadRequest :: "error \<Rightarrow> bool"
  IsTooManyRequests :: "error \<Rightarrow> bool"
  IsNotAcceptable :: "error \<Rightarrow> bool"
  NewBadRequest :: "string \<Rightarrow> error"

definition writeResponse ::
    "'o rest_env \<Rightarrow> nat \<Rightarrow> 'o payload option \<Rightarrow> ResponseWriter \<Rightarrow> unit res \<times> ResponseWriter" where
  "writeResponse R statusCode resp w =
     (let statusCode = (if statusCode = 0 then 200 else statusCode);
          w = w\<lparr>rw_contentType := ''application/json''\<rparr> in
      case resp of
        None \<Rightarrow> (Ok (), WriteHeader statusCode w)
      | Some x \<Rightarrow>
          (case encode R x of
             Ok s \<Rightarrow> (Ok (), WriteHeader statusCode (Write s w))
           | Err e \<Rightarrow> (Err e, WriteHeader 500 w)
           | Panic p \<Rightarrow> (Panic p, w)))"

text \<open>A request: its body, which may be nil or fail to be read, and the name in its path.\<close>

record http_request =
  rq_Body :: "string res option"
  rq_name :: string

definition readRequestBody :: "(string \<Rightarrow> 'b res) \<Rightarrow> 'b \<Rightarrow> http_request \<Rightarrow> 'b res" where
  "readRequestBody dec zero r = (case rq_Body r of None \<Rightarrow> Ok zero | Some body \<Rightarrow> bind_res body dec)"

definition error_status :: "'o rest_env \<Rightarrow> error \<Rightarrow> nat" where
  "error_status R err =
     (if IsTimeout R err \<or> IsServerTimeout R err then 504
      else if IsNotFound err then 404
      else if IsAlreadyExists R err \<or> IsConflict R err then 409
      else if IsBadRequest R err then 400
      else if IsTooManyRequests R err then 429
      else if IsNotAcceptable R err then 406
      else 500)"

text \<open>
  \<open>body\<close> is the outcome of reading the body when the request has one to read; the logic of the
  endpoint gets what was read.
\<close>

definition ServeRequest ::
    "'o rest_env \<Rightarrow> 'b res \<Rightarrow> ('b \<Rightarrow> 'w \<Rightarrow> 'o payload res \<times> 'w) \<Rightarrow> nat \<Rightarrow> 'w \<times> ResponseWriter \<Rightarrow> unit res \<times> 'w \<times> ResponseWriter" where
  "ServeRequest R body logic statusCode st =
     (let (w, rw) = st in
      case body of
        Panic p \<Rightarrow> (Panic p, w, rw)
      | Err e \<Rightarrow> (Ok (), w, snd (writeResponse R 400 (Some (PError e)) rw))
      | Ok b \<Rightarrow>
          (case logic b w of
             (Panic p, w) \<Rightarrow> (Panic p, w, rw)
           | (Err e, w) \<Rightarrow> (Ok (), w, snd (writeResponse R (error_status R e) (Some (PError e)) rw))
           | (Ok resp, w) \<Rightarrow> (Ok (), w, snd (writeResponse R statusCode (Some resp) rw))))"

section \<open>Handlers\<close>

record ('o, 'w) rest_client =
  rCreate :: "'o \<Rightarrow> 'w \<Rightarrow> unit res \<times> 'w"
  rGet :: "string \<Rightarrow> 'w \<Rightarrow> 'o res \<times> 'w"
  rList :: "'w \<Rightarrow> 'o list res \<times> 'w"
  rPatch :: "'o \<Rightarrow> string \<Rightarrow> 'w \<Rightarrow> unit res \<times> 'w"
  rUpdate :: "'o \<Rightarrow> 'w \<Rightarrow> unit res \<times> 'w"
  rDelete :: "'o \<Rightarrow> 'w \<Rightarrow> unit res \<times> 'w"

definition h_Create :: "('o, 'w) rest_client \<Rightarrow> 'o \<Rightarrow> 'w \<Rightarrow> 'o payload res \<times> 'w" where
  "h_Create K obj w = andThen (rCreate K obj w) (\<lambda>_ w. (Ok (Create True), w))"

definition h_Get :: "('o, 'w) rest_client \<Rightarrow> string \<Rightarrow> 'w \<Rightarrow> 'o payload res \<times> 'w" where
  "h_Get K name w = andThen (rGet K name w) (\<lambda>obj w. (Ok (PObject obj), w))"

definition h_List :: "('o, 'w) rest_client \<Rightarrow> 'w \<Rightarrow> 'o payload res \<times> 'w" where
  "h_List K w = andThen (rList K w) (\<lambda>objs w. (Ok (PList objs), w))"

definition h_Patch :: "('o, 'w) rest_client \<Rightarrow> string \<Rightarrow> string \<Rightarrow> 'w \<Rightarrow> 'o payload res \<times> 'w" where
  "h_Patch K name patch w =
     andThen (rGet K name w) (\<lambda>obj w. andThen (rPatch K obj patch w) (\<lambda>_ w. (Ok (Update True), w)))"

text \<open>The name selects the object whose version is taken, not the object that is updated.\<close>

definition h_Update ::
    "('o \<Rightarrow> nat) \<Rightarrow> (nat \<Rightarrow> 'o \<Rightarrow> 'o) \<Rightarrow> ('o, 'w) rest_client \<Rightarrow> string \<Rightarrow> 'o \<Rightarrow> 'w \<Rightarrow> 'o payload res \<times> 'w" where
  "h_Update version set_version K name newObj w =
     andThen (rGet K name w) (\<lambda>obj w.
       let newObj = (if version newObj = 0 then set_version (version obj) newObj else newObj) in
       andThen (rUpdate K newObj w) (\<lambda>_ w. (Ok (Update True), w)))"

definition h_Delete :: "('o, 'w) rest_client \<Rightarrow> string \<Rightarrow> 'w \<Rightarrow> 'o payload res \<times> 'w" where
  "h_Delete K name w =
     andThen (rGet K name w) (\<lambda>obj w. andThen (rDelete K obj w) (\<lambda>_ w. (Ok (Delete True), w)))"

definition eip_Update :: "(Eip, 'w) rest_client \<Rightarrow> string \<Rightarrow> Eip \<Rightarrow> 'w \<Rightarrow> Eip payload res \<times> 'w" where
  "eip_Update K = h_Update (\<lambda>e. m_resourceVersion (e_meta e)) (\<lambda>v e. e\<lparr>e_meta := (e_meta e)\<lparr>m_resourceVersion := v\<rparr>\<rparr>) K"

definition bgpPeer_Update :: "(BgpPeer, 'w) rest_client \<Rightarrow> string \<Rightarrow> BgpPeer \<Rightarrow> 'w \<Rightarrow> BgpPeer payload res \<times> 'w" where
  "bgpPeer_Update K =
     h_Update (\<lambda>p. m_resourceVersion (bp_meta p)) (\<lambda>v p. p\<lparr>bp_meta := (bp_meta p)\<lparr>m_resourceVersion := v\<rparr>\<rparr>) K"

text \<open>The interface of the handlers of a resource found by name, and its two implementations.\<close>

record ('o, 'w) resource_handler =
  hCreate :: "'o \<Rightarrow> 'w \<Rightarrow> 'o payload res \<times> 'w"
  hGet :: "string \<Rightarrow> 'w \<Rightarrow> 'o payload res \<times> 'w"
  hList :: "'w \<Rightarrow> 'o payload res \<times> 'w"
  hPatch :: "string \<Rightarrow> string \<Rightarrow> 'w \<Rightarrow> 'o payload res \<times> 'w"
  hUpdate :: "string \<Rightarrow> 'o \<Rightarrow> 'w \<Rightarrow> 'o payload res \<times> 'w"
  hDelete :: "string \<Rightarrow> 'w \<Rightarrow> 'o payload res \<times> 'w"

definition NewEipHandler :: "(Eip, 'w) rest_client \<Rightarrow> (Eip, 'w) resource_handler" where
  "NewEipHandler K =
     \<lparr>hCreate = h_Create K, hGet = h_Get K, hList = h_List K, hPatch = h_Patch K, hUpdate = eip_Update K, hDelete = h_Delete K\<rparr>"

definition NewBgpPeerHandler :: "(BgpPeer, 'w) rest_client \<Rightarrow> (BgpPeer, 'w) resource_handler" where
  "NewBgpPeerHandler K =
     \<lparr>hCreate = h_Create K, hGet = h_Get K, hList = h_List K, hPatch = h_Patch K, hUpdate = bgpPeer_Update K, hDelete = h_Delete K\<rparr>"

text \<open>There is one \<open>BgpConf\<close>, whose name is fixed; a new one must have it, and a port to listen on.\<close>

definition bgpConf_Create :: "BgpConf rest_env \<Rightarrow> (BgpConf, 'w) rest_client \<Rightarrow> BgpConf \<Rightarrow> 'w \<Rightarrow> BgpConf payload res \<times> 'w" where
  "bgpConf_Create R K bgpConf w =
     (if m_name (bc_meta bgpConf) \<noteq> ''default'' then (Err (NewBadRequest R ''BgpConf name must be default''), w)
      else if ListenPort (bc_spec bgpConf) = 0 then (Err (NewBadRequest R ''BgpConf listen port must be set''), w)
      else h_Create K bgpConf w)"

definition bgpConf_Get :: "(BgpConf, 'w) rest_client \<Rightarrow> 'w \<Rightarrow> BgpConf payload res \<times> 'w" where
  "bgpConf_Get K = h_Get K ''default''"

definition bgpConf_Patch :: "(BgpConf, 'w) rest_client \<Rightarrow> string \<Rightarrow> 'w \<Rightarrow> BgpConf payload res \<times> 'w" where
  "bgpConf_Patch K = h_Patch K ''default''"

definition bgpConf_Update :: "(BgpConf, 'w) rest_client \<Rightarrow> BgpConf \<Rightarrow> 'w \<Rightarrow> BgpConf payload res \<times> 'w" where
  "bgpConf_Update K =
     h_Update (\<lambda>c. m_resourceVersion (bc_meta c)) (\<lambda>v c. c\<lparr>bc_meta := (bc_meta c)\<lparr>m_resourceVersion := v\<rparr>\<rparr>) K ''default''"

definition bgpConf_Delete :: "(BgpConf, 'w) rest_client \<Rightarrow> 'w \<Rightarrow> BgpConf payload res \<times> 'w" where
  "bgpConf_Delete K = h_Delete K ''default''"

section \<open>Endpoints\<close>

datatype http_method = GET | POST | PUT | PATCH | DELETE

definition zero_BgpPeer :: BgpPeer where
  "zero_BgpPeer =
     \<lparr>bp_meta = zero_meta,
      bp_spec = \<lparr>ps_Conf = None, ps_EbgpMultihop = None, ps_Timers = None, ps_Transport = None, ps_GracefulRestart = None,
        ps_AfiSafis = None, ps_NodeSelector = None\<rparr>,
      bp_status = \<lparr>NodesPeerStatus = None\<rparr>\<rparr>"

text \<open>
  The endpoints of a resource that is found by name, with \<open>zero\<close> the zero value the body is decoded into.
  The path ends with a name or not; a route that is not registered has no endpoint.
\<close>

definition resource_router ::
    "'o \<Rightarrow> 'o rest_env \<Rightarrow> ('o, 'w) resource_handler \<Rightarrow> http_method \<Rightarrow> bool \<Rightarrow> http_request \<Rightarrow> 'w \<times> ResponseWriter \<Rightarrow>
      (unit res \<times> 'w \<times> ResponseWriter) option" where
  "resource_router zero R H method named r st =
     (case (method, named) of
        (POST, False) \<Rightarrow> Some (ServeRequest R (readRequestBody (decode R) zero r) (hCreate H) 201 st)
      | (GET, True) \<Rightarrow> Some (ServeRequest R (Ok ()) (\<lambda>_. hGet H (rq_name r)) 200 st)
      | (GET, False) \<Rightarrow> Some (ServeRequest R (Ok ()) (\<lambda>_. hList H) 200 st)
      | (PATCH, True) \<Rightarrow> Some (ServeRequest R (readRequestBody Ok [] r) (hPatch H (rq_name r)) 200 st)
      | (PUT, True) \<Rightarrow> Some (ServeRequest R (readRequestBody (decode R) zero r) (hUpdate H (rq_name r)) 200 st)
      | (DELETE, True) \<Rightarrow> Some (ServeRequest R (Ok ()) (\<lambda>_. hDelete H (rq_name r)) 204 st)
      | _ \<Rightarrow> None)"

definition eipRouter ::
    "Eip rest_env \<Rightarrow> (Eip, 'w) rest_client \<Rightarrow> http_method \<Rightarrow> bool \<Rightarrow> http_request \<Rightarrow> 'w \<times> ResponseWriter \<Rightarrow>
      (unit res \<times> 'w \<times> ResponseWriter) option" where
  "eipRouter R K = resource_router zero_Eip R (NewEipHandler K)"

definition bgpPeerRouter ::
    "BgpPeer rest_env \<Rightarrow> (BgpPeer, 'w) rest_client \<Rightarrow> http_method \<Rightarrow> bool \<Rightarrow> http_request \<Rightarrow> 'w \<times> ResponseWriter \<Rightarrow>
      (unit res \<times> 'w \<times> ResponseWriter) option" where
  "bgpPeerRouter R K = resource_router zero_BgpPeer R (NewBgpPeerHandler K)"

definition bgpConfRouter ::
    "BgpConf rest_env \<Rightarrow> (BgpConf, 'w) rest_client \<Rightarrow> http_method \<Rightarrow> http_request \<Rightarrow> 'w \<times> ResponseWriter \<Rightarrow>
      (unit res \<times> 'w \<times> ResponseWriter) option" where
  "bgpConfRouter R K method r st =
     (case method of
        POST \<Rightarrow> Some (ServeRequest R (readRequestBody (decode R) zero_BgpConf r) (bgpConf_Create R K) 201 st)
      | GET \<Rightarrow> Some (ServeRequest R (Ok ()) (\<lambda>_. bgpConf_Get K) 200 st)
      | PATCH \<Rightarrow> Some (ServeRequest R (readRequestBody Ok [] r) (bgpConf_Patch K) 200 st)
      | PUT \<Rightarrow> Some (ServeRequest R (readRequestBody (decode R) zero_BgpConf r) (bgpConf_Update K) 200 st)
      | DELETE \<Rightarrow> Some (ServeRequest R (Ok ()) (\<lambda>_. bgpConf_Delete K) 204 st))"


section \<open>What a client sees\<close>

lemma status_stays [simp]:
  "rw_status (WriteHeader code (Write s w)) = rw_status (Write s w)"
  "rw_body (WriteHeader code w) = rw_body w"
  "rw_contentType (WriteHeader code w) = rw_contentType w"
  by (auto simp: WriteHeader_def Write_def Let_def split: option.splits)

lemma writeResponse_new:
  "encode R x = Ok s \<Longrightarrow>
     writeResponse R code (Some x) new_response = (Ok (), \<lparr>rw_status = Some 200, rw_contentType = ''application/json'', rw_body = s\<rparr>)"
  "encode R x = Err e \<Longrightarrow>
     writeResponse R code (Some x) new_response = (Err e, \<lparr>rw_status = Some 500, rw_contentType = ''application/json'', rw_body = []\<rparr>)"
  "writeResponse R code None new_response =
     (Ok (), \<lparr>rw_status = Some (if code = 0 then 200 else code), rw_contentType = ''application/json'', rw_body = []\<rparr>)"
  by (simp_all add: writeResponse_def new_response_def WriteHeader_def Write_def Let_def)

definition answer :: "'o payload res \<Rightarrow> 'o payload" where
  "answer r = (case r of Ok p \<Rightarrow> p | Err e \<Rightarrow> PError e | Panic s \<Rightarrow> PError (Errorf s))"

lemma ServeRequest_run:
  assumes "logic b w = (r, w')" and "\<forall>s. r \<noteq> Panic s"
  shows "ServeRequest R (Ok b) logic code (w, rw) =
    (Ok (), w', snd (writeResponse R (case r of Err e \<Rightarrow> error_status R e | _ \<Rightarrow> code) (Some (answer r)) rw))"
  using assms by (cases r) (simp_all add: ServeRequest_def answer_def)

text \<open>
  The status a request should be answered with: by the comment on \<open>StatusCode\<close> in \<open>InboundRequest\<close>, and since
  \<open>writeResponse\<close> is to write the response with its status code, that of the endpoint (200 if it gives none), and that chosen
  for the error if the handler fails.
\<close>

definition documented_status :: "'o rest_env \<Rightarrow> nat \<Rightarrow> 'o payload res \<Rightarrow> nat" where
  "documented_status R code r = (case r of Err e \<Rightarrow> error_status R e | _ \<Rightarrow> if code = 0 then 200 else code)"

lemma error_status_neq: "error_status R e \<noteq> 200"
  by (simp add: error_status_def)

text \<open>
  (C40) The documented status does not reach the client, which contradicts the comments and is recorded as a defect: a
  request whose body could be read is answered with the JSON form of the result of the handler, or of its
  error, in the world the handler leaves, but the status is 200 whenever that JSON form exists, because the body
  is written before the header. So the documented status is sent only if it happens to be 200, and that of an
  error never. If there is no JSON form, the body is empty and the status is 500.
\<close>

theorem ServeRequest_loses_status:
  assumes "logic b w = (r, w')" and "\<forall>s. r \<noteq> Panic s" and "\<forall>s. encode R (answer r) \<noteq> Panic s"
  shows "\<exists>rw. ServeRequest R (Ok b) logic code (w, new_response) = (Ok (), w', rw) \<and>
    rw_contentType rw = ''application/json'' \<and> rw_body rw = (case encode R (answer r) of Ok s \<Rightarrow> s | _ \<Rightarrow> []) \<and>
    (if is_Ok (encode R (answer r))
     then rw_status rw = Some 200 \<and> (rw_status rw = Some (documented_status R code r) \<longleftrightarrow> documented_status R code r = 200) \<and>
       (\<not> is_Ok r \<longrightarrow> rw_status rw \<noteq> Some (documented_status R code r))
     else rw_status rw = Some 500)"
  using assms error_status_neq [of R]
  by (cases "encode R (answer r)"; cases r) (auto simp: ServeRequest_run writeResponse_new documented_status_def)

definition ex_rest :: "Eip rest_env" where
  "ex_rest =
     \<lparr>encode = \<lambda>p. case p of PError e \<Rightarrow> Ok (error_text e) | Create b \<Rightarrow> Ok (if b then ''true'' else ''false'') | _ \<Rightarrow> Err (Errorf ''unsupported''),
      decode = \<lambda>s. Ok (zero_Eip\<lparr>e_meta := zero_meta\<lparr>m_name := s\<rparr>\<rparr>),
      IsTimeout = \<lambda>_. False, IsServerTimeout = \<lambda>_. False, IsAlreadyExists = \<lambda>_. False, IsConflict = \<lambda>_. False,
      IsBadRequest = \<lambda>_. False, IsTooManyRequests = \<lambda>_. False, IsNotAcceptable = \<lambda>_. False, NewBadRequest = Errorf\<rparr>"

definition ex_rest_client :: "(Eip, Eip list) rest_client" where
  "ex_rest_client =
     \<lparr>rCreate = \<lambda>e w. (Ok (), e # w),
      rGet = \<lambda>n w. (case find (\<lambda>e. m_name (e_meta e) = n) w of Some e \<Rightarrow> Ok e | None \<Rightarrow> Err (NotFound n), w),
      rList = \<lambda>w. (Ok w, w), rPatch = \<lambda>e p w. (Ok (), w),
      rUpdate = \<lambda>e w. (Ok (), map (\<lambda>x. if m_name (e_meta x) = m_name (e_meta e) then e else x) w),
      rDelete = \<lambda>e w. (Ok (), filter (\<lambda>x. m_name (e_meta x) \<noteq> m_name (e_meta e)) w)\<rparr>"

theorem ServeRequest_loses_status_witness:
  "documented_status ex_rest 200 (Err (NotFound ''a'')) = 404 \<and>
   (\<exists>rw. eipRouter ex_rest ex_rest_client GET True \<lparr>rq_Body = None, rq_name = ''a''\<rparr> ([], new_response) = Some (Ok (), [], rw) \<and>
      rw_body rw = error_text (NotFound ''a'') \<and> rw_status rw \<noteq> Some 404)"
proof -
  have get: "h_Get ex_rest_client ''a'' [] = (Err (NotFound ''a''), [])"
    by (simp add: h_Get_def ex_rest_client_def andThen_def)
  have enc: "encode ex_rest (answer (Err (NotFound ''a''))) = Ok (error_text (NotFound ''a''))"
    by (simp add: ex_rest_def answer_def)
  have st: "documented_status ex_rest code (Err (NotFound ''a'')) = 404" for code
    by (simp add: documented_status_def error_status_def ex_rest_def)
  show ?thesis
    using ServeRequest_loses_status [of "\<lambda>_. h_Get ex_rest_client ''a''" "()" "[]" "Err (NotFound ''a'')" "[]" ex_rest] get enc
    by (simp add: eipRouter_def resource_router_def NewEipHandler_def st) blast
qed

text \<open>
  An update whose object has a version of its own reaches the API server unchanged, whatever object the
  path names: the name decides only whether the request fails.
\<close>

lemma eip_Update_ignores_name:
  assumes "rGet K name w = (Ok old, w1)" and "m_resourceVersion (e_meta new) \<noteq> 0"
  shows "eip_Update K name new w = andThen (rUpdate K new w1) (\<lambda>_ w. (Ok (Update True), w))"
  using assms by (simp add: eip_Update_def h_Update_def andThen_def)

text \<open>What is created as the configuration of BGP has the fixed name and a port.\<close>

lemma bgpConf_Create_guard:
  assumes "bgpConf_Create R K c w = (Ok p, w')"
  shows "m_name (bc_meta c) = ''default'' \<and> ListenPort (bc_spec c) \<noteq> 0 \<and> rCreate K c w = (Ok (), w') \<and> p = Create True"
  using assms by (auto simp: bgpConf_Create_def h_Create_def andThen_Ok_iff split: if_splits)

end
