(* ===== verification/IPTables.thy ===== *)
theory IPTables
  imports K8s
begin

text \<open>
  The port forwarding of the BGP port, \<open>pkg/nettool\<close>: \<open>iptables.go\<close>, the interface \<open>IptablesIface\<close> of
  \<open>iptables/interface.go\<close> and its implementation in memory, \<open>iptables/fake.go\<close>. The locale \<open>nat_rules\<close> is
  what the forwarding relies on, with the number of times a rule stands in a chain as abstraction; it is
  interpreted on the implementation in memory. The implementation on the host is a library.
\<close>

section \<open>The interface\<close>

record IptablesRule =
  ir_Name :: string
  ir_ShouldExist :: bool
  ir_Table :: string
  ir_Chain :: string
  ir_Rule :: "string list"

definition IptablesRule_String :: "IptablesRule \<Rightarrow> string" where
  "IptablesRule_String r = ir_Table r @ ''/'' @ ir_Chain r @ '' rule '' @ ir_Name r"

record 'w IptablesIface =
  it_Exists :: "string \<Rightarrow> string \<Rightarrow> string list \<Rightarrow> 'w \<Rightarrow> bool res \<times> 'w"
  it_Insert :: "string \<Rightarrow> string \<Rightarrow> int \<Rightarrow> string list \<Rightarrow> 'w \<Rightarrow> unit res \<times> 'w"
  it_Append :: "string \<Rightarrow> string \<Rightarrow> string list \<Rightarrow> 'w \<Rightarrow> unit res \<times> 'w"
  it_Delete :: "string \<Rightarrow> string \<Rightarrow> string list \<Rightarrow> 'w \<Rightarrow> unit res \<times> 'w"
  it_List :: "string \<Rightarrow> string \<Rightarrow> 'w \<Rightarrow> string list res \<times> 'w"
  it_NewChain :: "string \<Rightarrow> string \<Rightarrow> 'w \<Rightarrow> unit res \<times> 'w"
  it_ClearChain :: "string \<Rightarrow> string \<Rightarrow> 'w \<Rightarrow> unit res \<times> 'w"
  it_DeleteChain :: "string \<Rightarrow> string \<Rightarrow> 'w \<Rightarrow> unit res \<times> 'w"
  it_ListChains :: "string \<Rightarrow> 'w \<Rightarrow> string list res \<times> 'w"
  it_HasRandomFully :: "'w \<Rightarrow> bool"

section \<open>Port forwarding\<close>

definition BGPPort :: string where
  "BGPPort = ''179''"

definition BgpNatChain :: string where
  "BgpNatChain = ''PREROUTING-OPENELB''"

definition GenerateCretiriaAndAction :: "string \<Rightarrow> string \<Rightarrow> int \<Rightarrow> string list" where
  "GenerateCretiriaAndAction routerIP localIP gobgpPort =
     [''-s'', routerIP, ''-p'', ''tcp'', ''--dport'', BGPPort, ''-j'', ''DNAT'', ''--to-destination'',
      localIP @ '':'' @ Itoa gobgpPort]"

definition AddPortForwardOfBGP ::
    "'w IptablesIface \<Rightarrow> string \<Rightarrow> string \<Rightarrow> int \<Rightarrow> 'w \<Rightarrow> unit res \<times> 'w" where
  "AddPortForwardOfBGP iptableExec routerIP localIP gobgpPort w =
     (let rule = GenerateCretiriaAndAction routerIP localIP gobgpPort in
      andThen (it_Exists iptableExec ''nat'' BgpNatChain rule w) (\<lambda>ok w.
        if \<not> ok then it_Append iptableExec ''nat'' BgpNatChain rule w else (Ok (), w)))"

definition DeletePortForwardOfBGP ::
    "'w IptablesIface \<Rightarrow> string \<Rightarrow> string \<Rightarrow> int \<Rightarrow> 'w \<Rightarrow> unit res \<times> 'w" where
  "DeletePortForwardOfBGP iptableExec routerIP localIP gobgpPort w =
     it_Delete iptableExec ''nat'' BgpNatChain (GenerateCretiriaAndAction routerIP localIP gobgpPort) w"

section \<open>The implementation in memory\<close>

record FakeIPTables =
  EnableRandomFully :: bool
  fk_Data :: "(string, (string, IptablesRule list) gomap) gomap"

fun ruleEqual_loop :: "string list \<Rightarrow> string list \<Rightarrow> bool" where
  "ruleEqual_loop (x # xs) (y # ys) = (if x \<noteq> y then False else ruleEqual_loop xs ys)"
| "ruleEqual_loop _ _ = True"

definition ruleEqual :: "IptablesRule \<Rightarrow> string list \<Rightarrow> bool" where
  "ruleEqual rule rulespec =
     (if length (ir_Rule rule) = length rulespec then ruleEqual_loop (ir_Rule rule) rulespec else False)"

definition NewFakeIPTables :: FakeIPTables where
  "NewFakeIPTables = \<lparr>EnableRandomFully = True, fk_Data = [(''nat'', []), (''filter'', []), (''mangle'', [])]\<rparr>"

text \<open>Reading a missing table or chain gives no rules; writing to a missing table panics.\<close>

definition fk_rules :: "string \<Rightarrow> string \<Rightarrow> FakeIPTables \<Rightarrow> IptablesRule list" where
  "fk_rules t chain f =
     (case mget (fk_Data f) t of
        None \<Rightarrow> []
      | Some chs \<Rightarrow> (case mget chs chain of None \<Rightarrow> [] | Some rules \<Rightarrow> rules))"

definition fk_write :: "string \<Rightarrow> string \<Rightarrow> IptablesRule list \<Rightarrow> FakeIPTables \<Rightarrow> unit res \<times> FakeIPTables" where
  "fk_write t chain rules f =
     (case mget (fk_Data f) t of
        None \<Rightarrow> (Panic ''assignment to entry in nil map'', f)
      | Some chs \<Rightarrow> (Ok (), f\<lparr>fk_Data := mset_at t (mset_at chain rules chs) (fk_Data f)\<rparr>))"

definition new_rule :: "string \<Rightarrow> string \<Rightarrow> string list \<Rightarrow> IptablesRule" where
  "new_rule t chain rulespec =
     \<lparr>ir_Name = [], ir_ShouldExist = False, ir_Table = t, ir_Chain = chain, ir_Rule = rulespec\<rparr>"

definition Fake_Exists :: "string \<Rightarrow> string \<Rightarrow> string list \<Rightarrow> FakeIPTables \<Rightarrow> bool res \<times> FakeIPTables" where
  "Fake_Exists t chain rulespec f = (Ok (list_ex (\<lambda>rule. ruleEqual rule rulespec) (fk_rules t chain f)), f)"

definition Fake_Insert :: "string \<Rightarrow> string \<Rightarrow> int \<Rightarrow> string list \<Rightarrow> FakeIPTables \<Rightarrow> unit res \<times> FakeIPTables" where
  "Fake_Insert t chain pos rulespec f =
     fk_write t chain (new_rule t chain rulespec # fk_rules t chain f) f"

definition Fake_Append :: "string \<Rightarrow> string \<Rightarrow> string list \<Rightarrow> FakeIPTables \<Rightarrow> unit res \<times> FakeIPTables" where
  "Fake_Append t chain rulespec f =
     fk_write t chain (fk_rules t chain f @ [new_rule t chain rulespec]) f"

text \<open>The chain is written back only when the rule was found.\<close>

fun remove_rule :: "string list \<Rightarrow> IptablesRule list \<Rightarrow> IptablesRule list option" where
  "remove_rule rulespec [] = None"
| "remove_rule rulespec (rule # rules) =
     (if ruleEqual rule rulespec then Some rules else map_option ((#) rule) (remove_rule rulespec rules))"

definition Fake_Delete :: "string \<Rightarrow> string \<Rightarrow> string list \<Rightarrow> FakeIPTables \<Rightarrow> unit res \<times> FakeIPTables" where
  "Fake_Delete t chain rulespec f =
     (case remove_rule rulespec (fk_rules t chain f) of
        None \<Rightarrow> (Ok (), f)
      | Some rules \<Rightarrow> fk_write t chain rules f)"

definition Fake_List :: "string \<Rightarrow> string \<Rightarrow> FakeIPTables \<Rightarrow> string list res \<times> FakeIPTables" where
  "Fake_List t chain f = (Ok (map IptablesRule_String (fk_rules t chain f)), f)"

definition Fake_NewChain :: "string \<Rightarrow> string \<Rightarrow> FakeIPTables \<Rightarrow> unit res \<times> FakeIPTables" where
  "Fake_NewChain t chain f =
     (if (case mget (fk_Data f) t of None \<Rightarrow> None | Some chs \<Rightarrow> mget chs chain) = None
      then fk_write t chain [] f else (Ok (), f))"

definition Fake_ClearChain :: "string \<Rightarrow> string \<Rightarrow> FakeIPTables \<Rightarrow> unit res \<times> FakeIPTables" where
  "Fake_ClearChain t chain f = fk_write t chain [] f"

definition Fake_DeleteChain :: "string \<Rightarrow> string \<Rightarrow> FakeIPTables \<Rightarrow> unit res \<times> FakeIPTables" where
  "Fake_DeleteChain t chain f =
     (case mget (fk_Data f) t of
        None \<Rightarrow> (Ok (), f)
      | Some chs \<Rightarrow> (Ok (), f\<lparr>fk_Data := mset_at t (mdel chain chs) (fk_Data f)\<rparr>))"

definition Fake_ListChains :: "string \<Rightarrow> FakeIPTables \<Rightarrow> string list res \<times> FakeIPTables" where
  "Fake_ListChains t f = (Ok (map fst (case mget (fk_Data f) t of None \<Rightarrow> [] | Some chs \<Rightarrow> chs)), f)"

definition Fake_HasRandomFully :: "FakeIPTables \<Rightarrow> bool" where
  "Fake_HasRandomFully f = EnableRandomFully f"

definition fake_iptables :: "FakeIPTables IptablesIface" where
  "fake_iptables =
     \<lparr>it_Exists = Fake_Exists, it_Insert = Fake_Insert, it_Append = Fake_Append, it_Delete = Fake_Delete,
      it_List = Fake_List, it_NewChain = Fake_NewChain, it_ClearChain = Fake_ClearChain,
      it_DeleteChain = Fake_DeleteChain, it_ListChains = Fake_ListChains, it_HasRandomFully = Fake_HasRandomFully\<rparr>"

section \<open>What the forwarding relies on\<close>

locale nat_rules =
  fixes ipt :: "'w IptablesIface" and cnt :: "'w \<Rightarrow> string \<Rightarrow> string \<Rightarrow> string list \<Rightarrow> nat"
  assumes exists_law: "\<And>t c rule w b w'. it_Exists ipt t c rule w = (Ok b, w') \<Longrightarrow> cnt w' = cnt w \<and> (b \<longleftrightarrow> 0 < cnt w t c rule)"
    and append_law: "\<And>t c rule w w'. it_Append ipt t c rule w = (Ok (), w') \<Longrightarrow>
      cnt w' t c rule = Suc (cnt w t c rule) \<and> (\<forall>t' c' r'. (t', c', r') \<noteq> (t, c, rule) \<longrightarrow> cnt w' t' c' r' = cnt w t' c' r')"
    and delete_law: "\<And>t c rule w w'. it_Delete ipt t c rule w = (Ok (), w') \<Longrightarrow>
      cnt w' t c rule = cnt w t c rule - 1 \<and> (\<forall>t' c' r'. (t', c', r') \<noteq> (t, c, rule) \<longrightarrow> cnt w' t' c' r' = cnt w t' c' r')"
begin

text \<open>Forwarding a router twice leaves one rule, and other rules alone.\<close>

lemma add_once:
  assumes "AddPortForwardOfBGP ipt router loc port w = (Ok (), w')"
  shows "cnt w' ''nat'' BgpNatChain (GenerateCretiriaAndAction router loc port) =
      max 1 (cnt w ''nat'' BgpNatChain (GenerateCretiriaAndAction router loc port)) \<and>
    (\<forall>t c r. (t, c, r) \<noteq> (''nat'', BgpNatChain, GenerateCretiriaAndAction router loc port) \<longrightarrow> cnt w' t c r = cnt w t c r)"
proof -
  let ?r = "GenerateCretiriaAndAction router loc port"
  obtain ok w1 where e: "it_Exists ipt ''nat'' BgpNatChain ?r w = (Ok ok, w1)"
    and k: "(if \<not> ok then it_Append ipt ''nat'' BgpNatChain ?r w1 else (Ok (), w1)) = (Ok (), w')"
    using assms unfolding AddPortForwardOfBGP_def Let_def andThen_Ok_iff by blast
  note E = exists_law [OF e]
  show ?thesis
  proof (cases ok)
    case True
    with k E show ?thesis by auto
  next
    case False
    with k have "it_Append ipt ''nat'' BgpNatChain ?r w1 = (Ok (), w')" by simp
    from append_law [OF this] E False show ?thesis by simp
  qed
qed

lemma add_idempotent:
  assumes "AddPortForwardOfBGP ipt router loc port w = (Ok (), w1)" "AddPortForwardOfBGP ipt router loc port w1 = (Ok (), w2)"
  shows "cnt w2 = cnt w1"
proof (intro ext)
  fix t c r
  show "cnt w2 t c r = cnt w1 t c r"
    using add_once [OF assms(1)] add_once [OF assms(2)]
    by (cases "(t, c, r) = (''nat'', BgpNatChain, GenerateCretiriaAndAction router loc port)") auto
qed

lemma add_delete:
  assumes "AddPortForwardOfBGP ipt router loc port w = (Ok (), w1)" "DeletePortForwardOfBGP ipt router loc port w1 = (Ok (), w2)"
    and "cnt w ''nat'' BgpNatChain (GenerateCretiriaAndAction router loc port) \<le> 1"
  shows "cnt w2 ''nat'' BgpNatChain (GenerateCretiriaAndAction router loc port) = 0 \<and>
    (\<forall>t c r. (t, c, r) \<noteq> (''nat'', BgpNatChain, GenerateCretiriaAndAction router loc port) \<longrightarrow> cnt w2 t c r = cnt w t c r)"
  using add_once [OF assms(1)] delete_law [OF assms(2) [unfolded DeletePortForwardOfBGP_def]] assms(3) by auto

end

definition fk_count :: "FakeIPTables \<Rightarrow> string \<Rightarrow> string \<Rightarrow> string list \<Rightarrow> nat" where
  "fk_count f t chain rulespec = length (filter (\<lambda>r. ir_Rule r = rulespec) (fk_rules t chain f))"

lemma ruleEqual_iff [simp]: "ruleEqual rule rulespec \<longleftrightarrow> ir_Rule rule = rulespec"
proof -
  have "length xs = length ys \<Longrightarrow> ruleEqual_loop xs ys \<longleftrightarrow> xs = ys" for xs ys
    by (induction xs ys rule: list_induct2) auto
  then show ?thesis by (auto simp: ruleEqual_def)
qed

lemma fk_rules_write:
  "fk_write t c rules f = (Ok (), f') \<Longrightarrow> fk_rules t' c' f' = (if t' = t \<and> c' = c then rules else fk_rules t' c' f)"
  by (auto simp: fk_write_def fk_rules_def gomap_simps split: option.splits if_splits)

lemma remove_rule_count:
  "remove_rule spec rs = Some rs' \<Longrightarrow>
     length (filter (\<lambda>r. ir_Rule r = s) rs') = length (filter (\<lambda>r. ir_Rule r = s) rs) - (if s = spec then 1 else 0)"
proof (induction rs arbitrary: rs')
  case (Cons r rs)
  have "spec \<in> ir_Rule ` set rs" if "remove_rule spec rs = Some q" for q
    using that by (induction rs arbitrary: q) (auto split: if_splits)
  then have "0 < length (filter (\<lambda>r. ir_Rule r = spec) rs)" if "remove_rule spec rs = Some q" for q
    using that by (auto simp: filter_empty_conv)
  with Cons show ?case by (auto split: if_splits)
qed simp

lemma remove_rule_None: "remove_rule spec rs = None \<Longrightarrow> filter (\<lambda>r. ir_Rule r = spec) rs = []"
  by (induction rs) (auto split: if_splits)

interpretation fake: nat_rules fake_iptables fk_count
proof
  fix t c rule w b w'
  assume "it_Exists fake_iptables t c rule w = (Ok b, w')"
  then show "fk_count w' = fk_count w \<and> (b \<longleftrightarrow> 0 < fk_count w t c rule)"
    by (auto simp: fake_iptables_def Fake_Exists_def fk_count_def list_ex_iff filter_empty_conv)
next
  fix t c rule w w'
  assume "it_Append fake_iptables t c rule w = (Ok (), w')"
  then have "fk_write t c (fk_rules t c w @ [new_rule t c rule]) w = (Ok (), w')"
    by (simp add: fake_iptables_def Fake_Append_def)
  note W = fk_rules_write [OF this]
  show "fk_count w' t c rule = Suc (fk_count w t c rule) \<and>
      (\<forall>t' c' r'. (t', c', r') \<noteq> (t, c, rule) \<longrightarrow> fk_count w' t' c' r' = fk_count w t' c' r')"
    by (auto simp: fk_count_def new_rule_def W)
next
  fix t c rule w w'
  assume d: "it_Delete fake_iptables t c rule w = (Ok (), w')"
  show "fk_count w' t c rule = fk_count w t c rule - 1 \<and>
      (\<forall>t' c' r'. (t', c', r') \<noteq> (t, c, rule) \<longrightarrow> fk_count w' t' c' r' = fk_count w t' c' r')"
  proof (cases "remove_rule rule (fk_rules t c w)")
    case None
    then show ?thesis using d remove_rule_None [OF None] by (auto simp: fake_iptables_def Fake_Delete_def fk_count_def)
  next
    case (Some rs)
    then have "fk_write t c rs w = (Ok (), w')" using d by (simp add: fake_iptables_def Fake_Delete_def)
    note W = fk_rules_write [OF this]
    show ?thesis using remove_rule_count [OF Some] by (auto simp: fk_count_def W)
  qed
qed

text \<open>With the implementation in memory: forwarding twice and withdrawing leaves the chain as it was.\<close>

lemma forward_withdraw:
  assumes "AddPortForwardOfBGP fake_iptables router loc port f = (Ok (), f1)"
    and "AddPortForwardOfBGP fake_iptables router loc port f1 = (Ok (), f2)"
    and "DeletePortForwardOfBGP fake_iptables router loc port f2 = (Ok (), f3)"
    and "fk_count f ''nat'' BgpNatChain (GenerateCretiriaAndAction router loc port) = 0"
  shows "fk_count f3 = fk_count f"
proof (intro ext)
  fix t c r
  have "fk_count f1 ''nat'' BgpNatChain (GenerateCretiriaAndAction router loc port) \<le> 1"
    using fake.add_once [OF assms(1)] assms(4) by simp
  from fake.add_delete [OF assms(2,3) this] fake.add_once [OF assms(1)] assms(4)
  show "fk_count f3 t c r = fk_count f t c r"
    by (cases "(t, c, r) = (''nat'', BgpNatChain, GenerateCretiriaAndAction router loc port)") auto
qed

end
