(* ===== verification/NetJson.thy ===== *)
theory NetJson
  imports CNet
begin

text \<open>
  The JSON forms of addresses, networks and hardware addresses: the methods \<open>MarshalJSON\<close> and
  \<open>UnmarshalJSON\<close> of \<open>pkg/util/net/ip.go\<close>, \<open>ipnet.go\<close> and \<open>mac.go\<close>, with what they use of Go's \<open>net\<close>. The
  codec for strings is a parameter; of it the lemmas use that it reads back the printable text it wrote.

  Every value reads back from its own JSON form; a network keeps the address it was written with, host bits
  included.
\<close>

section \<open>Definitions\<close>

record json_codec =
  json_Marshal :: "string \<Rightarrow> string res"
  json_Unmarshal :: "string \<Rightarrow> string res"

text \<open>\<open>net.IP.MarshalText\<close>\<close>

definition MarshalText :: "IP \<Rightarrow> string res" where
  "MarshalText ip =
     (if ip = [] then Ok []
      else if length ip \<noteq> 4 \<and> length ip \<noteq> 16 then Err (Errorf (''invalid IP address: '' @ hexString ip))
      else Ok (IP_String ip))"

definition IP_MarshalJSON :: "json_codec \<Rightarrow> IP \<Rightarrow> string res" where
  "IP_MarshalJSON K i = bind_res (MarshalText i) (\<lambda>s. json_Marshal K s)"

definition IP_UnmarshalJSON :: "json_codec \<Rightarrow> string \<Rightarrow> IP res" where
  "IP_UnmarshalJSON K b =
     bind_res (json_Unmarshal K b) (\<lambda>s. bind_res (UnmarshalText s) (\<lambda>i. Ok (if To4 i \<noteq> [] then To4 i else i)))"

definition IPNet_MarshalJSON :: "json_codec \<Rightarrow> IPNet \<Rightarrow> string res" where
  "IPNet_MarshalJSON K i = json_Marshal K (IPNet_String i)"

definition IPNet_UnmarshalJSON :: "json_codec \<Rightarrow> string \<Rightarrow> IPNet res" where
  "IPNet_UnmarshalJSON K b =
     bind_res (json_Unmarshal K b) (\<lambda>s. bind_res (ParseCIDROrIP s) (\<lambda>(ip, ipnet). Ok \<lparr>net_IP = ip, net_Mask = net_Mask ipnet\<rparr>))"

type_synonym HardwareAddr = "8 word list"

definition hex2 :: "8 word \<Rightarrow> string" where
  "hex2 b = [hex_char (unat b div 16), hex_char (unat b mod 16)]"

definition HardwareAddr_String :: "HardwareAddr \<Rightarrow> string" where
  "HardwareAddr_String a = Join (map hex2 a) '':''"

text \<open>Two hexadecimal digits, and after them the end or the separator \<open>e\<close>.\<close>

definition xtoi2 :: "string \<Rightarrow> char \<Rightarrow> 8 word option" where
  "xtoi2 s e =
     (if 2 < length s \<and> s ! 2 \<noteq> e then None
      else (case s of
         a # b # _ \<Rightarrow> (case (hex_val a, hex_val b) of (Some x, Some y) \<Rightarrow> Some (of_nat (16 * x + y)) | _ \<Rightarrow> None)
       | _ \<Rightarrow> None))"

fun mac_pairs :: "char \<Rightarrow> nat \<Rightarrow> string \<Rightarrow> HardwareAddr option" where
  "mac_pairs e 0 s = Some []"
| "mac_pairs e (Suc n) s = (case xtoi2 s e of None \<Rightarrow> None | Some b \<Rightarrow> map_option (\<lambda>hw. b # hw) (mac_pairs e n (drop 3 s)))"

fun mac_quads :: "nat \<Rightarrow> string \<Rightarrow> HardwareAddr option" where
  "mac_quads 0 s = Some []"
| "mac_quads (Suc n) s =
     (case (xtoi2 (take 2 s) (char_of (0 :: nat)), xtoi2 (drop 2 s) CHR ''.'') of
        (Some a, Some b) \<Rightarrow> map_option (\<lambda>hw. a # b # hw) (mac_quads n (drop 5 s))
      | _ \<Rightarrow> None)"

definition ParseMAC :: "string \<Rightarrow> HardwareAddr res" where
  "ParseMAC s =
     (let len = length s; n = (len + 1) div 3; m = 2 * (len + 1) div 5;
          hw = (if len < 14 then None
                else if s ! 2 = CHR '':'' \<or> s ! 2 = CHR ''-'' then
                  (if (len + 1) mod 3 \<noteq> 0 \<or> n \<notin> {6, 8, 20} then None else mac_pairs (s ! 2) n s)
                else if s ! 4 = CHR ''.'' then
                  (if (len + 1) mod 5 \<noteq> 0 \<or> m \<notin> {6, 8, 20} then None else mac_quads (m div 2) s)
                else None) in
      case hw of None \<Rightarrow> Err (Errorf (''invalid MAC address: '' @ s)) | Some a \<Rightarrow> Ok a)"

definition MAC_MarshalJSON :: "json_codec \<Rightarrow> HardwareAddr \<Rightarrow> string res" where
  "MAC_MarshalJSON K m = json_Marshal K (HardwareAddr_String m)"

definition MAC_UnmarshalJSON :: "json_codec \<Rightarrow> string \<Rightarrow> HardwareAddr res" where
  "MAC_UnmarshalJSON K b = bind_res (json_Unmarshal K b) (\<lambda>s. ParseMAC s)"

section \<open>Reading back\<close>

definition printable :: "char \<Rightarrow> bool" where
  "printable c \<longleftrightarrow> 32 \<le> (of_char c :: nat) \<and> (of_char c :: nat) < 127"

definition json_text :: "json_codec \<Rightarrow> bool" where
  "json_text K \<longleftrightarrow> (\<forall>s. list_all printable s \<longrightarrow> bind_res (json_Marshal K s) (json_Unmarshal K) = Ok s)"

lemma json_textE:
  assumes "json_text K" and "list_all printable s"
  obtains b where "json_Marshal K s = Ok b" "json_Unmarshal K b = Ok s"
  using assms by (cases "json_Marshal K s") (auto simp: json_text_def dest: spec [of _ s])

lemma byte_digits: "unat (b :: 8 word) div 16 < 16" "unat b mod 16 < 16"
proof -
  have "unat b < 256" using unsigned_less [of b, where 'a = nat] by simp
  then show "unat b div 16 < 16" "unat b mod 16 < 16" by simp_all
qed

lemma length_pairs: "hw \<noteq> [] \<Longrightarrow> length (HardwareAddr_String hw) = 3 * length hw - 1"
proof (induction hw)
  case (Cons b hw)
  then show ?case by (cases hw) (simp_all add: HardwareAddr_String_def hex2_def)
qed simp

lemma mac_pairs_String: "mac_pairs CHR '':'' (length hw) (HardwareAddr_String hw) = Some hw"
proof (induction hw)
  case (Cons b hw)
  note d = byte_digits [of b]
  have "of_nat (16 * (unat b div 16) + unat b mod 16) = b" by simp
  then show ?case
    using Cons.IH d by (cases hw) (simp_all add: HardwareAddr_String_def hex2_def xtoi2_def)
qed simp

lemma ParseMAC_String:
  assumes "length hw \<in> {6, 8, 20}"
  shows "ParseMAC (HardwareAddr_String hw) = Ok hw"
proof -
  have ne: "hw \<noteq> []" using assms by auto
  then obtain a b bs where hw: "hw = a # b # bs" using assms by (cases hw; cases "tl hw") auto
  have "HardwareAddr_String hw ! 2 = CHR '':''" by (simp add: hw HardwareAddr_String_def hex2_def)
  then show ?thesis
    using assms length_pairs [OF ne] mac_pairs_String [of hw] by (auto simp: ParseMAC_def Let_def)
qed

lemma printable_digits:
  "is_digit c \<Longrightarrow> printable c" "is_hex c \<Longrightarrow> printable c" "printable CHR '':''" "printable CHR ''.''" "printable CHR ''/''"
  by (auto simp: printable_def is_digit_def is_hex_def hex_val_def Let_def split: if_splits)

lemma printable_IP_String:
  assumes "valid_ip ip"
  shows "list_all printable (IP_String ip)"
proof (cases "To4 ip = []")
  case True
  then have "length ip = 16" by (rule valid_ip_To4_Nil [OF assms])
  then show ?thesis
    using True v6_string_chars [OF v6_groups_props(2) [of ip]]
    by (auto simp: IP_String_def list_all_iff dest!: printable_digits(2) intro: printable_digits(3))
next
  case False
  have "list_all printable (v4_string bs)" for bs
    unfolding v4_string_def list_all_iff by (auto simp: printable_digits dest!: in_set_JoinD set_nat_dec)
  then show ?thesis using False assms by (auto simp: IP_String_def valid_ip_def)
qed

lemma ParseCIDR_full:
  assumes "net_ok n k"
  shows "ParseCIDR (IPNet_String n) = Ok (net_IP n, n\<lparr>net_IP := map2 (AND) (net_IP n) (net_Mask n)\<rparr>)"
    and "list_all printable (IPNet_String n)"
proof -
  have v: "valid_ip (net_IP n)" and nm: "ip_norm (net_IP n) = net_IP n"
    using assms by (auto simp: net_ok_def valid_ip_def net_ok_norm)
  have s: "IPNet_String n = IP_String (net_IP n) @ CHR ''/'' # nat_dec k"
    using assms by (simp add: IPNet_String_def IPNet_String_net_def net_ok_number)
      (simp add: net_ok_def simpleMaskLength_CIDRMask)
  show "list_all printable (IPNet_String n)"
    using printable_IP_String [OF v] unfolding s by (auto simp: printable_digits list_all_iff dest!: set_nat_dec)
  have "SplitN2 (IPNet_String n) CHR ''/'' = [IP_String (net_IP n), nat_dec k]"
    unfolding s by (rule SplitN2_cut [OF IP_String_no_slash [OF v]])
  then have "net_ParseCIDR (IPNet_String n) = Some (To16 (net_IP n), n\<lparr>net_IP := map2 (AND) (net_IP n) (net_Mask n)\<rparr>)"
    using assms v nm IP_Mask_To16 [OF v nm, of k]
    by (simp add: net_ParseCIDR_def ParseAddr_String dtoi_nat_dec Let_def net_ok_def CIDRMask_def)
  moreover have "(if To4 (To16 (net_IP n)) \<noteq> [] then To4 (To16 (net_IP n)) else To16 (net_IP n)) = net_IP n"
    using ip_norm_To16 [OF v] nm by (simp add: ip_norm_def)
  ultimately show "ParseCIDR (IPNet_String n) = Ok (net_IP n, n\<lparr>net_IP := map2 (AND) (net_IP n) (net_Mask n)\<rparr>)"
    by (simp add: ParseCIDR_def)
qed

lemma printable_MAC: "list_all printable (HardwareAddr_String hw)"
proof (induction hw)
  case (Cons b hw)
  have "list_all printable (hex2 b)" by (simp add: hex2_def printable_digits byte_digits)
  then show ?case using Cons by (cases hw) (simp_all add: HardwareAddr_String_def printable_digits)
qed (simp add: HardwareAddr_String_def)

lemma IP_String_nonempty: "valid_ip ip \<Longrightarrow> IP_String ip \<noteq> []"
  using ParseIP_IP_String [of ip] by (auto simp: ParseIP_def net_ParseIP_def ParseAddr_def Let_def)

text \<open>
  (C38) Addresses, networks and hardware addresses read back from their JSON forms: an address in its short form,
  a network with its mask and with the full address, host bits included, and a hardware address of 6, 8 or 20 bytes
  as it was.
\<close>

theorem json_roundtrip:
  assumes "json_text K"
  shows "(valid_ip ip \<longrightarrow> bind_res (IP_MarshalJSON K ip) (IP_UnmarshalJSON K) = Ok (ip_norm ip)) \<and>
    (net_ok n k \<longrightarrow> bind_res (IPNet_MarshalJSON K n) (IPNet_UnmarshalJSON K) = Ok n) \<and>
    (length hw \<in> {6, 8, 20} \<longrightarrow> bind_res (MAC_MarshalJSON K hw) (MAC_UnmarshalJSON K) = Ok hw)"
proof (intro conjI impI)
  assume v: "valid_ip ip"
  obtain b where b: "json_Marshal K (IP_String ip) = Ok b" "json_Unmarshal K b = Ok (IP_String ip)"
    by (rule json_textE [OF assms printable_IP_String [OF v]])
  have p: "net_ParseIP (IP_String ip) = To16 ip" "To16 ip \<noteq> []"
    using v length_To16 [of ip] by (auto simp: net_ParseIP_String valid_ip_def)
  show "bind_res (IP_MarshalJSON K ip) (IP_UnmarshalJSON K) = Ok (ip_norm ip)"
    using v b p IP_String_nonempty [OF v] ip_norm_To16 [OF v]
    by (auto simp: IP_MarshalJSON_def IP_UnmarshalJSON_def MarshalText_def UnmarshalText_def valid_ip_def ip_norm_def)
next
  assume n: "net_ok n k"
  obtain b where "json_Marshal K (IPNet_String n) = Ok b" "json_Unmarshal K b = Ok (IPNet_String n)"
    by (rule json_textE [OF assms ParseCIDR_full(2) [OF n]])
  then show "bind_res (IPNet_MarshalJSON K n) (IPNet_UnmarshalJSON K) = Ok n"
    using ParseCIDR_full(1) [OF n] by (simp add: IPNet_MarshalJSON_def IPNet_UnmarshalJSON_def ParseCIDROrIP_def)
next
  assume h: "length hw \<in> {6, 8, 20}"
  obtain b where "json_Marshal K (HardwareAddr_String hw) = Ok b" "json_Unmarshal K b = Ok (HardwareAddr_String hw)"
    by (rule json_textE [OF assms printable_MAC])
  then show "bind_res (MAC_MarshalJSON K hw) (MAC_UnmarshalJSON K) = Ok hw"
    using ParseMAC_String [OF h] by (simp add: MAC_MarshalJSON_def MAC_UnmarshalJSON_def)
qed

text \<open>A codec that puts the text between quotes.\<close>

definition quotes :: json_codec where
  "quotes = \<lparr>json_Marshal = \<lambda>s. Ok (CHR ''\"'' # s @ [CHR ''\"'']),
     json_Unmarshal = \<lambda>b. if length b < 2 then Err (Errorf ''unexpected end of JSON input'') else Ok (butlast (tl b))\<rparr>"

theorem json_roundtrip_witness:
  "bind_res (IPNet_MarshalJSON quotes \<lparr>net_IP = [10, 1, 2, 3], net_Mask = CIDRMask_bytes 16 4\<rparr>) (IPNet_UnmarshalJSON quotes) =
     Ok \<lparr>net_IP = [10, 1, 2, 3], net_Mask = CIDRMask_bytes 16 4\<rparr> \<and>
   bind_res (MAC_MarshalJSON quotes [0, 21, 93, 1, 254, 7]) (MAC_UnmarshalJSON quotes) = Ok [0, 21, 93, 1, 254, 7]"
proof -
  have "json_text quotes" by (simp add: json_text_def quotes_def)
  moreover have "net_ok \<lparr>net_IP = [10, 1, 2, 3], net_Mask = CIDRMask_bytes 16 4\<rparr> 16" by (simp add: net_ok_def eval_nat_numeral)
  ultimately show ?thesis
    using json_roundtrip [of quotes "[]" "\<lparr>net_IP = [10, 1, 2, 3], net_Mask = CIDRMask_bytes 16 4\<rparr>" 16 "[0, 21, 93, 1, 254, 7]"] by simp
qed

end
