(* ===== verification/Spec2Isabelle.thy ===== *)
theory Spec2Isabelle
  imports Cluster SpeakerMain Vip Layer2 BgpControllers HttpServer IPTables NetJson
begin

text \<open>
  OpenELB, a load balancer for Kubernetes clusters without a cloud: a verification development.

  \<^bold>\<open>The program.\<close> The controller (\<open>pkg/controllers\<close>) assigns an address of an \<open>Eip\<close> pool to
  each service of type LoadBalancer and records the assignment in the status of the \<open>Eip\<close>; a webhook
  admits the EIPs. The speakers (\<open>pkg/speaker\<close>), one process per node, read these records and announce the
  addresses by BGP, by ARP/NDP or through keepalived. A REST server (\<open>pkg/server\<close>), which no command
  starts at present, edits the resources. All use the libraries of \<open>pkg/util\<close>.

  \<^bold>\<open>Theories.\<close>
  \<^item> \<open>Prelude\<close>: outcomes of Go calls, Go maps, strings, 64-bit integers, \<open>sort.Slice\<close>.
  \<^item> \<open>GoNet\<close>: what is used of Go's package \<open>net\<close>; printing and parsing of addresses are inverse.
  \<^item> \<open>CNet\<close>: \<open>pkg/util/net\<close>, addresses and networks as numbers.
  \<^item> \<open>IPRange\<close>: \<open>pkg/util/iprange\<close>, ranges and their parser.
  \<^item> \<open>K8s\<close>, \<open>MemClient\<close>, \<open>Util\<close>: the API objects, the calls outside the repository, an API
    server in memory for the examples, \<open>pkg/util/util.go\<close>, \<open>pkg/validate\<close>, \<open>pkg/constant\<close>.
  \<^item> \<open>EipTypes\<close>: \<open>api/v1alpha2/eip_types.go\<close>, the pool of an \<open>Eip\<close> and its admission.
  \<^item> \<open>IPAM\<close>, \<open>StoreRules\<close>, \<open>IPAMStore\<close>: \<open>pkg/controllers/ipam/ipam.go\<close>, the assignment of addresses.
  \<^item> \<open>EipController\<close>: \<open>pkg/controllers/ipam/controller.go\<close>, the reconciliation of an \<open>Eip\<close>.
  \<^item> \<open>NodeProxy\<close>, \<open>LBController\<close>: \<open>pkg/controllers/lb\<close>, the reconciliation of a service.
  \<^item> \<open>GoSet\<close>, \<open>IDAlloc\<close>: \<open>pkg/util/set\<close> and \<open>pkg/util/idalloc\<close>.
  \<^item> \<open>Speaker\<close>, \<open>Announce\<close>: \<open>pkg/speaker\<close>, the manager of the speakers and what it announces.
  \<^item> \<open>Digest\<close>, \<open>Vip\<close>: SHA-256 and the keepalived speaker, \<open>pkg/speaker/vip\<close>.
  \<^item> \<open>Metrics\<close>, \<open>Announcers\<close>, \<open>Layer2\<close>: \<open>pkg/metrics\<close> and the ARP/NDP speaker,
    \<open>pkg/speaker/layer2\<close>.
  \<^item> \<open>BgpTypes\<close>, \<open>BgpSpeaker\<close>: the resources \<open>BgpConf\<close> and \<open>BgpPeer\<close> of \<open>api/v1alpha2\<close>; the routes of the
    BGP speaker, \<open>path.go\<close>, \<open>gobgpd.go\<close> and \<open>options.go\<close> of \<open>pkg/speaker/bgp/bgp\<close>.
  \<^item> \<open>BgpConfig\<close>, \<open>BgpPolicy\<close>: its policy files and their conversion, \<open>config\<close>, \<open>table\<close>, \<open>policy.go\<close> and
    \<open>conf.go\<close> of the same directory.
  \<^item> \<open>BgpPeers\<close>, \<open>BgpControllers\<close>: \<open>peers.go\<close>, and the reconcilers of \<open>pkg/speaker/bgp\<close>.
  \<^item> \<open>SpeakerMain\<close>: \<open>cmd/speaker/app\<close>, the speaker process.
  \<^item> \<open>Cluster\<close>: the webhook, the users and both controllers acting on the stored EIPs in any order.
  \<^item> \<open>NetJson\<close>, \<open>HttpServer\<close>, \<open>IPTables\<close>: the JSON forms of \<open>pkg/util/net\<close>; \<open>pkg/server/internal\<close>;
    \<open>pkg/nettool\<close>.

  \<^bold>\<open>State and operations.\<close> A struct is a record, a pointer that may be nil an option, a Go map an association
  list without duplicate keys. A call returns \<open>Ok\<close>, \<open>Err\<close> or \<open>Panic\<close> with the state after it; whatever
  lies outside the repository changes a world of arbitrary type through the operations of a parameter record
  (\<open>client\<close>, \<open>np_client\<close>, \<open>host\<close>, \<open>ka_env\<close>, \<open>l2_env\<close>, \<open>prometheus\<close>, \<open>gobgp\<close>, \<open>policy_env\<close>, \<open>bgp_api\<close>,
  \<open>run_env\<close>, \<open>rest_env\<close>, \<open>rest_client\<close>, \<open>json_codec\<close>). Definitions carry the names of the functions.

  \<^bold>\<open>What is shown.\<close>
  \<^item> Addresses: parsing and printing are inverse, ranges and networks are sets of numbers, the overlap tests
    decide whether two pools share an address, offsets and addresses correspond.
  \<^item> Assignment: an address has one user unless services share it, the status of an EIP stays consistent
    with its pool, a reconciliation assigns, releases and converges, and that of a deleted EIP takes its label
    off the services and its finalizer off the EIP. \<open>Cluster\<close> lifts the consistency to all interleavings of the writes of
    the controllers and the users: no IPv4 address in use belongs to two EIPs. For wide IPv6 pools this fails, and
    two EIPs the webhook admits at the same moment are not covered.
  \<^item> Announcement: a successful \<open>HandleEIP\<close> keeps the addresses the keepalived speaker announces among the used
    ones, and equal to them when the pools share no address and every address has next hops, whichever other
    speakers are registered; a node starts to
    announce on layer 2 only what it wins in the election; of an IPv4 address with no other route the BGP server has
    exactly the routes to the chosen nodes. In every state of the speaker process the protocols that are used have a speaker.
  \<^item> Error paths: which objects keep their finalizer, which inputs make a function panic, that a client
    of the REST server does not see the documented status, and that the range of a CIDR has two addresses more than documented.

  \<^bold>\<open>Hypotheses.\<close> \<open>api_laws\<close>, \<open>eip_atomic\<close> and \<open>np_apart\<close> are the optimistic writes of the API server and the
  independence of its kinds of objects; \<open>gobgp_table\<close> is the effect of the calls on the GoBGP server's own paths of
  IPv4 host routes, a listing by address being a longest match, and \<open>gobgp_peers\<close> their effect on its neighbors; \<open>metrics_apart\<close>, \<open>metrics_frame\<close> and \<open>api_frame\<close> say that
  metrics and resources are not a part of that server; \<open>calm_calls\<close> that the calls a handler makes do not panic themselves; \<open>json_text\<close> that printable text
  survives the codec. Each is discharged on a concrete instance in a witness.

  \<^bold>\<open>Loops and bounds.\<close> No definition has a fuel argument. The searches of \<open>IDAlloc\<close> and the wait for keepalived
  are partial functions whose value \<open>None\<close> is not returning; the searches are shown to return. The loop over the
  offsets of a pool and the parser of IPv6 addresses have termination proofs. Event loops run on the
  list of the events they receive. Identifiers, AS numbers and sizes keep their width where it matters.

  \<^bold>\<open>Not modelled.\<close>
  \<^item> \<open>zz_generated.deepcopy.go\<close>: generated, and a copy of an immutable value is the value. \<open>api/v1alpha1\<close> and
    \<open>groupversion_info.go\<close>: declarations of an old version that nothing reads, and registration of types.
  \<^item> \<open>cmd/controller\<close>, \<open>cmd/apiserver\<close>, \<open>pkg/manager\<close>, \<open>pkg/client\<close>, the flags of all commands, and the listener
    of \<open>pkg/server\<close>: they hand options and the modelled functions to controller-runtime, cobra and net/http.
  \<^item> \<open>pkg/version\<close>, \<open>pkg/util/term.go\<close>, \<open>pkg/test\<close>, \<open>test/e2e\<close>: output, terminal and tests.
  \<^item> Constants that no modelled function uses, among them the address families of policy files.
  \<^item> Locks and goroutines: the operations of one speaker run one after another, and no preemption inside an
    operation is visible. The writes of the controllers interleave, in \<open>Cluster\<close>.
\<close>

end
